(* ===== verification/Prelude.thy ===== *)
theory Prelude imports "HOL-Library.State_Monad" "HOL-Library.Sublist" begin

text \<open>
  Shared vocabulary of the development: Go-level outcomes, the state monad in which the
  handlers of the controller run, the recording of the calls they make to other systems,
  and the post-condition calculus in which the components are verified.

  A handler of \<^verbatim>\<open>src/controllers\<close> talks to two systems whose code is not in the
  repository: the Kubernetes API server (through the controller-runtime client) and MinIO
  (through its two SDKs). Their operations are parameters of the model, functions on an
  opaque world \<open>'w\<close>. A handler is a computation over a machine state that holds this
  world and the list of the calls made so far, each with the answer it got. Nothing is
  assumed about what an operation does to the world or what it answers, so a theorem over
  every parameter and every world covers every behaviour of the two systems, including
  what other clients do to them between two calls.
\<close>

section \<open>Outcomes of Go code\<close>

text \<open>A Go function returns, or it panics, or it ends the process (\<^verbatim>\<open>os.Exit\<close>).\<close>

datatype 'a go = Returns 'a | Panics string | Exits string

fun returned :: "'a go \<Rightarrow> bool" where
  "returned (Returns _) = True"
| "returned _ = False"

section \<open>The machine state and its programs\<close>

record ('w, 'c) machine =
  world :: 'w
  trace :: "'c list"

type_synonym ('w, 'c, 'a) prog = "(('w, 'c) machine, 'a) state"

abbreviation ret :: "'a \<Rightarrow> ('s, 'a) state" where
  "ret \<equiv> State_Monad.return"

text \<open>
  \<open>ext f mk\<close> performs the operation \<open>f\<close> of another system and records the call \<open>mk r\<close>
  with its answer \<open>r\<close>; \<open>ask f\<close> performs one that is not recorded (reading the clock,
  reading random bytes).
\<close>

definition ext :: "('w \<Rightarrow> 'r \<times> 'w) \<Rightarrow> ('r \<Rightarrow> 'c) \<Rightarrow> ('w, 'c, 'r) prog" where
  "ext f mk = State (\<lambda>s. case f (world s) of (r, w) \<Rightarrow>
     (r, s\<lparr>world := w, trace := trace s @ [mk r]\<rparr>))"

definition ask :: "('w \<Rightarrow> 'r \<times> 'w) \<Rightarrow> ('w, 'c, 'r) prog" where
  "ask f = State (\<lambda>s. case f (world s) of (r, w) \<Rightarrow> (r, s\<lparr>world := w\<rparr>))"

text \<open>Going on after a call that may panic or exit.\<close>

fun go_on :: "'a go \<Rightarrow> ('a \<Rightarrow> ('s, 'b go) state) \<Rightarrow> ('s, 'b go) state" where
  "go_on (Returns a) f = f a"
| "go_on (Panics m) f = ret (Panics m)"
| "go_on (Exits m) f = ret (Exits m)"

lemma run_state_ext [simp]:
  "run_state (ext f mk) s = (case f (world s) of (r, w) \<Rightarrow>
     (r, s\<lparr>world := w, trace := trace s @ [mk r]\<rparr>))"
  by (simp add: ext_def)

lemma run_state_ask [simp]:
  "run_state (ask f) s = (case f (world s) of (r, w) \<Rightarrow> (r, s\<lparr>world := w\<rparr>))"
  by (simp add: ask_def)

section \<open>What a run returns and which calls it makes\<close>

definition result :: "('s, 'a) state \<Rightarrow> 's \<Rightarrow> 'a" where
  "result m s = fst (run_state m s)"

definition final :: "('s, 'a) state \<Rightarrow> 's \<Rightarrow> 's" where
  "final m s = snd (run_state m s)"

definition calls :: "('w, 'c, 'a) prog \<Rightarrow> ('w, 'c) machine \<Rightarrow> 'c list" where
  "calls m s = drop (length (trace s)) (trace (final m s))"

text \<open>
  \<open>tr m Q\<close>: whatever the other systems do, the run of \<open>m\<close> only appends calls to the
  trace, and its result and the appended calls satisfy \<open>Q\<close>.
\<close>

definition tr :: "('w, 'c, 'a) prog \<Rightarrow> ('a \<Rightarrow> 'c list \<Rightarrow> bool) \<Rightarrow> bool" where
  "tr m Q \<longleftrightarrow> (\<forall>s. \<exists>t. trace (final m s) = trace s @ t \<and> Q (result m s) t)"

named_theorems tr_intros \<open>introduction rules for \<open>tr\<close>, one per program construct\<close>

lemma trD: "tr m Q \<Longrightarrow> Q (result m s) (calls m s)"
  by (auto simp: tr_def calls_def dest: spec [of _ s])

lemma tr_extends: "tr m Q \<Longrightarrow> trace (final m s) = trace s @ calls m s"
  by (auto simp: tr_def calls_def dest: spec [of _ s])

lemma tr_mono:
  assumes "tr m Q" and "\<And>a t. Q a t \<Longrightarrow> R a t"
  shows "tr m R"
  using assms unfolding tr_def by blast

lemma tr_conj:
  assumes "tr m Q" and "tr m R"
  shows "tr m (\<lambda>a t. Q a t \<and> R a t)"
  using assms unfolding tr_def by (metis append_same_eq same_append_eq)

lemma tr_return [tr_intros]: "Q a [] \<Longrightarrow> tr (ret a) Q"
  by (simp add: tr_def result_def final_def)

lemma tr_ext [tr_intros]: "(\<And>r. Q r [mk r]) \<Longrightarrow> tr (ext f mk) Q"
  by (auto simp: tr_def result_def final_def split: prod.splits)

lemma tr_ask [tr_intros]: "(\<And>r. Q r []) \<Longrightarrow> tr (ask f) Q"
  by (auto simp: tr_def result_def final_def split: prod.splits)

lemma tr_bind [tr_intros]:
  assumes "tr m (\<lambda>a t. tr (f a) (\<lambda>b u. Q b (t @ u)))"
  shows "tr (State_Monad.bind m f) Q"
proof (unfold tr_def, intro allI)
  fix s
  obtain a s1 where m: "run_state m s = (a, s1)" by force
  with assms obtain t where t: "trace s1 = trace s @ t"
    and f: "tr (f a) (\<lambda>b u. Q b (t @ u))"
    by (force simp: tr_def result_def final_def dest: spec [of _ s])
  from f obtain u where "trace (final (f a) s1) = trace s1 @ u"
    and "Q (result (f a) s1) (t @ u)"
    by (auto simp: tr_def dest: spec [of _ s1])
  then show "\<exists>t. trace (final (State_Monad.bind m f) s) = trace s @ t
      \<and> Q (result (State_Monad.bind m f) s) t"
    using m t by (auto simp: result_def final_def)
qed

lemma tr_if [tr_intros]:
  assumes "c \<Longrightarrow> tr a Q" and "\<not> c \<Longrightarrow> tr b Q"
  shows "tr (if c then a else b) Q"
  using assms by simp

lemma tr_case_prod [tr_intros]:
  assumes "\<And>a b. p = (a, b) \<Longrightarrow> tr (f a b) Q"
  shows "tr (case p of (a, b) \<Rightarrow> f a b) Q"
  using assms by (cases p) simp

lemma tr_case_option [tr_intros]:
  assumes "x = None \<Longrightarrow> tr a Q" and "\<And>y. x = Some y \<Longrightarrow> tr (f y) Q"
  shows "tr (case x of None \<Rightarrow> a | Some y \<Rightarrow> f y) Q"
  using assms by (cases x) simp_all

lemma tr_case_sum [tr_intros]:
  assumes "\<And>y. x = Inl y \<Longrightarrow> tr (f y) Q" and "\<And>y. x = Inr y \<Longrightarrow> tr (g y) Q"
  shows "tr (case x of Inl y \<Rightarrow> f y | Inr y \<Rightarrow> g y) Q"
  using assms by (cases x) simp_all

lemma tr_case_list [tr_intros]:
  assumes "xs = [] \<Longrightarrow> tr a Q" and "\<And>y ys. xs = y # ys \<Longrightarrow> tr (f y ys) Q"
  shows "tr (case xs of [] \<Rightarrow> a | y # ys \<Rightarrow> f y ys) Q"
  using assms by (cases xs) simp_all

lemma tr_let [tr_intros]:
  assumes "\<And>y. y = x \<Longrightarrow> tr (f y) Q"
  shows "tr (let y = x in f y) Q"
  using assms by simp

lemma tr_go_on [tr_intros]:
  assumes "\<And>a. r = Returns a \<Longrightarrow> tr (f a) Q"
    and "\<And>m. r = Panics m \<Longrightarrow> Q (Panics m) []"
    and "\<And>m. r = Exits m \<Longrightarrow> Q (Exits m) []"
  shows "tr (go_on r f) Q"
  using assms by (cases r) (auto intro: tr_return)

section \<open>Footprints\<close>

text \<open>
  \<open>makes F m\<close>: every call of a run of \<open>m\<close> satisfies \<open>F\<close>. A footprint is checked call by
  call, so its rules need no accumulated trace.
\<close>

definition makes :: "('c \<Rightarrow> bool) \<Rightarrow> ('w, 'c, 'a) prog \<Rightarrow> bool" where
  "makes F m \<longleftrightarrow> tr m (\<lambda>_. list_all F)"

named_theorems footprint_intros \<open>introduction rules for \<open>makes\<close>, one per program construct\<close>

lemma makesD: "makes F m \<Longrightarrow> c \<in> set (calls m s) \<Longrightarrow> F c"
  using trD [of m "\<lambda>_. list_all F" s] by (simp add: makes_def list_all_iff)

lemma makes_mono: "makes F m \<Longrightarrow> (\<And>c. F c \<Longrightarrow> G c) \<Longrightarrow> makes G m"
  unfolding makes_def by (erule tr_mono) (auto simp: list_all_iff)

lemma makes_return [footprint_intros]: "makes F (ret a)"
  unfolding makes_def by (rule tr_return) simp

lemma makes_bind [footprint_intros]:
  assumes "makes F m" and "\<And>a. makes F (f a)"
  shows "makes F (State_Monad.bind m f)"
  unfolding makes_def
proof (rule tr_bind, rule tr_mono [OF assms(1) [unfolded makes_def]])
  fix a t assume "list_all F t"
  then show "tr (f a) (\<lambda>b u. list_all F (t @ u))"
    using tr_mono [OF assms(2) [unfolded makes_def]] by simp
qed

lemma makes_ext [footprint_intros]: "(\<And>r. F (mk r)) \<Longrightarrow> makes F (ext f mk)"
  unfolding makes_def by (rule tr_ext) simp

lemma makes_ask [footprint_intros]: "makes F (ask f)"
  unfolding makes_def by (rule tr_ask) simp

lemma makes_if [footprint_intros]:
  "(c \<Longrightarrow> makes F a) \<Longrightarrow> (\<not> c \<Longrightarrow> makes F b) \<Longrightarrow> makes F (if c then a else b)"
  by simp

lemma makes_case_prod [footprint_intros]:
  "(\<And>a b. p = (a, b) \<Longrightarrow> makes F (f a b)) \<Longrightarrow> makes F (case p of (a, b) \<Rightarrow> f a b)"
  by (cases p) simp

lemma makes_case_option [footprint_intros]:
  "(x = None \<Longrightarrow> makes F a) \<Longrightarrow> (\<And>y. x = Some y \<Longrightarrow> makes F (f y)) \<Longrightarrow>
     makes F (case x of None \<Rightarrow> a | Some y \<Rightarrow> f y)"
  by (cases x) simp_all

lemma makes_case_sum [footprint_intros]:
  "(\<And>y. x = Inl y \<Longrightarrow> makes F (f y)) \<Longrightarrow> (\<And>y. x = Inr y \<Longrightarrow> makes F (g y)) \<Longrightarrow>
     makes F (case x of Inl y \<Rightarrow> f y | Inr y \<Rightarrow> g y)"
  by (cases x) simp_all

lemma makes_let [footprint_intros]: "(\<And>y. y = x \<Longrightarrow> makes F (f y)) \<Longrightarrow> makes F (let y = x in f y)"
  by simp

lemma makes_go_on [footprint_intros]:
  "(\<And>a. r = Returns a \<Longrightarrow> makes F (f a)) \<Longrightarrow> makes F (go_on r f)"
  by (cases r) (simp_all add: makes_return)

section \<open>Traces in which every call is grounded\<close>

text \<open>
  \<open>justified J t\<close>: every call of the trace is grounded in a segment of the trace, by \<open>J\<close>.
  The property is closed under concatenation, so it goes from the steps to a run, and from
  the runs to everything that happened.
\<close>

definition justified :: "('c \<Rightarrow> 'c list \<Rightarrow> bool) \<Rightarrow> 'c list \<Rightarrow> bool" where
  "justified J t \<longleftrightarrow> (\<forall>c \<in> set t. \<exists>xs. J c xs \<and> sublist xs t)"

lemma justifiedD: "justified J t \<Longrightarrow> c \<in> set t \<Longrightarrow> \<exists>xs. J c xs \<and> sublist xs t"
  by (simp add: justified_def)

lemma justified_Nil [simp]: "justified J []"
  by (simp add: justified_def)

lemma justified_append: "justified J t \<Longrightarrow> justified J u \<Longrightarrow> justified J (t @ u)"
  unfolding justified_def
  by (metis Un_iff set_append sublist_append_leftI sublist_append_rightI sublist_order.order_trans)

lemma justified_calm: "list_all (\<lambda>c. J c []) t \<Longrightarrow> justified J t"
  by (auto simp: justified_def list_all_iff intro: exI [of _ "[]"])

lemma justified_Cons: "J c [] \<Longrightarrow> justified J u \<Longrightarrow> justified J (c # u)"
  using justified_append [of J "[c]" u] by (simp add: justified_calm)

lemma justified_mono:
  assumes "justified J t" and "\<And>c xs. J c xs \<Longrightarrow> sublist xs t \<Longrightarrow> K c xs"
  shows "justified K t"
  using assms unfolding justified_def by blast

text \<open>A segment whose last call is grounded in the whole segment.\<close>

lemma justified_last: "justified J t \<Longrightarrow> J c (t @ [c]) \<Longrightarrow> justified J (t @ [c])"
  unfolding justified_def
  by (auto intro: exI [of _ "t @ [c]"]) (meson sublist_append_rightI sublist_order.order_trans)

lemma sublist_later: "sublist xs v \<Longrightarrow> sublist xs (u @ v)"
  by (meson sublist_append_leftI sublist_order.order_trans)

section \<open>Evaluating runs\<close>

lemma result_return [simp]: "result (ret a) s = a"
  by (simp add: result_def)

lemma calls_return [simp]: "calls (ret a) s = []"
  by (simp add: calls_def final_def)

section \<open>Strings\<close>

text \<open>\<^verbatim>\<open>strings.HasPrefix\<close>, \<^verbatim>\<open>strings.Join\<close> and \<^verbatim>\<open>strings.Split\<close> (with a one-character separator).\<close>

definition has_prefix :: "string \<Rightarrow> string \<Rightarrow> bool" where
  "has_prefix s p = prefix p s"

fun join :: "string \<Rightarrow> string list \<Rightarrow> string" where
  "join sep [] = []"
| "join sep [x] = x"
| "join sep (x # y # ys) = x @ sep @ join sep (y # ys)"

fun split_on :: "char \<Rightarrow> string \<Rightarrow> string list" where
  "split_on c [] = [[]]"
| "split_on c (x # xs) =
     (if x = c then [] # split_on c xs
      else case split_on c xs of [] \<Rightarrow> [[x]] | p # ps \<Rightarrow> (x # p) # ps)"

lemma split_on_nonempty [simp]: "split_on c s \<noteq> []"
  by (induction s) (auto split: list.splits)

lemma split_on_no_sep: "c \<notin> set s \<Longrightarrow> split_on c s = [s]"
  by (induction s) auto

lemma split_on_append_sep: "c \<notin> set s \<Longrightarrow> split_on c (s @ c # t) = s # split_on c t"
  by (induction s) auto

lemma split_on_join:
  assumes "\<forall>p \<in> set ps. c \<notin> set p" and "ps \<noteq> []"
  shows "split_on c (join [c] ps) = ps"
  using assms
proof (induction "[c]" ps rule: join.induct)
  case (3 x y ys)
  then show ?case by (simp add: split_on_append_sep)
qed (auto simp: split_on_no_sep)

end
