(* ===== verification/Json.thy ===== *)
theory Json imports Prelude begin

text \<open>
  \<^verbatim>\<open>json.Compact\<close> of Go's standard library, which \<^verbatim>\<open>mc.Policy\<close> runs over the policy document:
  the byte-by-byte scanner of \<^verbatim>\<open>encoding/json\<close>, which checks the syntax with a stack of open
  objects and arrays, and drops every byte that it classifies as white space.
\<close>

datatype jstate =
    BeginValue | BeginValueOrEmpty | BeginString | BeginStringOrEmpty | EndValue | EndTop
  | InString | InEscape | InHex nat
  | Neg | Int1 | Int0 | Dot | Dot0 | Exp | ExpSign | Exp0
  | Literal string

datatype jframe = ObjectKey | ObjectValue | ArrayValue

type_synonym jscan = "jstate \<times> jframe list"

text \<open>A step: the next state and whether the byte is kept; \<open>None\<close> is a syntax error.\<close>

type_synonym jstep = "(jscan \<times> bool) option"

definition json_space :: "char \<Rightarrow> bool" where
  "json_space c \<longleftrightarrow> c \<in> {CHR 0x20, CHR 0x09, CHR 0x0D, CHR 0x0A}"

definition digit :: "char \<Rightarrow> bool" where
  "digit c \<longleftrightarrow> c \<in> set ''0123456789''"

definition hex :: "char \<Rightarrow> bool" where
  "hex c \<longleftrightarrow> c \<in> set ''0123456789abcdefABCDEF''"

definition maxNestingDepth :: nat where
  "maxNestingDepth = 10000"

definition push_frame :: "jstate \<Rightarrow> jframe \<Rightarrow> jframe list \<Rightarrow> jstep" where
  "push_frame st f fs = (if length (f # fs) \<le> maxNestingDepth then Some ((st, f # fs), True) else None)"

definition pop_frame :: "jframe list \<Rightarrow> jscan" where
  "pop_frame fs = (case fs of [] \<Rightarrow> (EndTop, []) | _ # [] \<Rightarrow> (EndTop, []) | _ # gs \<Rightarrow> (EndValue, gs))"

definition end_top :: "jframe list \<Rightarrow> char \<Rightarrow> jstep" where
  "end_top fs c = (if json_space c then Some ((EndTop, fs), False) else None)"

definition end_value :: "jframe list \<Rightarrow> char \<Rightarrow> jstep" where
  "end_value fs c = (case fs of
     [] \<Rightarrow> end_top [] c
   | f # gs \<Rightarrow>
       (if json_space c then Some ((EndValue, fs), False)
        else case f of
          ObjectKey \<Rightarrow> if c = CHR '':'' then Some ((BeginValue, ObjectValue # gs), True) else None
        | ObjectValue \<Rightarrow>
            if c = CHR '','' then Some ((BeginString, ObjectKey # gs), True)
            else if c = CHR ''}'' then Some (pop_frame fs, True) else None
        | ArrayValue \<Rightarrow>
            if c = CHR '','' then Some ((BeginValue, fs), True)
            else if c = CHR '']'' then Some (pop_frame fs, True) else None))"

definition begin_string :: "jframe list \<Rightarrow> char \<Rightarrow> jstep" where
  "begin_string fs c = (if json_space c then Some ((BeginString, fs), False)
     else if c = CHR 0x22 then Some ((InString, fs), True) else None)"

definition begin_value :: "jstate \<Rightarrow> jframe list \<Rightarrow> char \<Rightarrow> jstep" where
  "begin_value st fs c =
     (if json_space c then Some ((st, fs), False)
      else if c = CHR ''{'' then push_frame BeginStringOrEmpty ObjectKey fs
      else if c = CHR ''['' then push_frame BeginValueOrEmpty ArrayValue fs
      else if c = CHR 0x22 then Some ((InString, fs), True)
      else if c = CHR ''-'' then Some ((Neg, fs), True)
      else if c = CHR ''0'' then Some ((Int0, fs), True)
      else if c = CHR ''t'' then Some ((Literal ''rue'', fs), True)
      else if c = CHR ''f'' then Some ((Literal ''alse'', fs), True)
      else if c = CHR ''n'' then Some ((Literal ''ull'', fs), True)
      else if digit c then Some ((Int1, fs), True)
      else None)"

definition int0 :: "jframe list \<Rightarrow> char \<Rightarrow> jstep" where
  "int0 fs c = (if c = CHR ''.'' then Some ((Dot, fs), True)
     else if c = CHR ''e'' \<or> c = CHR ''E'' then Some ((Exp, fs), True) else end_value fs c)"

fun step :: "jscan \<Rightarrow> char \<Rightarrow> jstep" where
  "step (BeginValue, fs) c = begin_value BeginValue fs c"
| "step (BeginValueOrEmpty, fs) c =
     (if json_space c then Some ((BeginValueOrEmpty, fs), False)
      else if c = CHR '']'' then end_value fs c else begin_value BeginValue fs c)"
| "step (BeginString, fs) c = begin_string fs c"
| "step (BeginStringOrEmpty, fs) c =
     (if json_space c then Some ((BeginStringOrEmpty, fs), False)
      else if c = CHR ''}'' then end_value (ObjectValue # tl fs) c else begin_string fs c)"
| "step (EndValue, fs) c = end_value fs c"
| "step (EndTop, fs) c = end_top fs c"
| "step (InString, fs) c =
     (if c = CHR 0x22 then Some ((EndValue, fs), True)
      else if c = CHR 0x5C then Some ((InEscape, fs), True)
      else if (of_char c :: nat) < 32 then None
      else Some ((InString, fs), True))"
| "step (InEscape, fs) c =
     (if c \<in> {CHR ''b'', CHR ''f'', CHR ''n'', CHR ''r'', CHR ''t'', CHR 0x5C, CHR ''/'', CHR 0x22}
      then Some ((InString, fs), True)
      else if c = CHR ''u'' then Some ((InHex 3, fs), True) else None)"
| "step (InHex n, fs) c =
     (if hex c then Some ((case n of 0 \<Rightarrow> InString | Suc m \<Rightarrow> InHex m, fs), True) else None)"
| "step (Neg, fs) c =
     (if c = CHR ''0'' then Some ((Int0, fs), True) else if digit c then Some ((Int1, fs), True) else None)"
| "step (Int1, fs) c = (if digit c then Some ((Int1, fs), True) else int0 fs c)"
| "step (Int0, fs) c = int0 fs c"
| "step (Dot, fs) c = (if digit c then Some ((Dot0, fs), True) else None)"
| "step (Dot0, fs) c = (if digit c then Some ((Dot0, fs), True)
     else if c = CHR ''e'' \<or> c = CHR ''E'' then Some ((Exp, fs), True) else end_value fs c)"
| "step (Exp, fs) c = (if c = CHR ''+'' \<or> c = CHR ''-'' then Some ((ExpSign, fs), True)
     else if digit c then Some ((Exp0, fs), True) else None)"
| "step (ExpSign, fs) c = (if digit c then Some ((Exp0, fs), True) else None)"
| "step (Exp0, fs) c = (if digit c then Some ((Exp0, fs), True) else end_value fs c)"
| "step (Literal ws, fs) c = (case ws of
     [] \<Rightarrow> None
   | w # vs \<Rightarrow> (if c = w then Some ((if vs = [] then EndValue else Literal vs, fs), True) else None))"

text \<open>Scanning a text: the final state and the bytes that are kept.\<close>

fun scan :: "jscan \<Rightarrow> string \<Rightarrow> (jscan \<times> string) option" where
  "scan s [] = Some (s, [])"
| "scan s (c # cs) = (case step s c of
     None \<Rightarrow> None
   | Some (s', keep) \<Rightarrow>
       (case scan s' cs of
          None \<Rightarrow> None
        | Some (s'', out) \<Rightarrow> Some (s'', if keep then c # out else out)))"

text \<open>The end of the text: a number at the top level is ended by one more space.\<close>

definition at_end :: "jscan \<Rightarrow> bool" where
  "at_end s \<longleftrightarrow> fst s = EndTop \<or>
     (case step s (CHR 0x20) of None \<Rightarrow> False | Some (s', _) \<Rightarrow> fst s' = EndTop)"

definition json_compact :: "string \<Rightarrow> string option" where
  "json_compact src = (case scan (BeginValue, []) src of
     None \<Rightarrow> None | Some (s, out) \<Rightarrow> if at_end s then Some out else None)"

section \<open>Scanning piecewise\<close>

lemma scan_append:
  "scan s (xs @ ys) = (case scan s xs of None \<Rightarrow> None
     | Some (s', out) \<Rightarrow> (case scan s' ys of None \<Rightarrow> None | Some (s'', out') \<Rightarrow> Some (s'', out @ out')))"
  by (induction xs arbitrary: s) (auto split: option.splits)

text \<open>Bytes that stand for themselves inside a JSON string.\<close>

definition plain :: "char \<Rightarrow> bool" where
  "plain c \<longleftrightarrow> c \<noteq> CHR 0x22 \<and> c \<noteq> CHR 0x5C \<and> 32 \<le> (of_char c :: nat)"

lemma scan_plain: "\<forall>c \<in> set xs. plain c \<Longrightarrow> scan (InString, fs) xs = Some ((InString, fs), xs)"
  by (induction xs) (auto simp: plain_def)

end
