(* ===== verification/Base64.thy ===== *)
theory Base64 imports Prelude "HOL-Library.Word" begin

text \<open>
  \<^verbatim>\<open>base64.RawStdEncoding\<close> of Go's standard library: \<^verbatim>\<open>EncodeToString\<close>, with which
  \<^verbatim>\<open>mc.GeneratePassword\<close> prints random bytes, and \<^verbatim>\<open>DecodeString\<close>, with which \<^verbatim>\<open>main\<close> reads a
  bearer token. Bytes are \<open>8 word\<close>; the 24-bit group is a natural number, on which the
  shifts and masks of the code are divisions and remainders by powers of two.
\<close>

type_synonym byte = "8 word"

definition alphabet :: string where
  "alphabet = ''ABCDEFGHIJKLMNOPQRSTUVWXYZabcdefghijklmnopqrstuvwxyz0123456789+/''"

definition sextet :: "nat \<Rightarrow> char" where
  "sextet n = alphabet ! (n mod 64)"

fun encode :: "byte list \<Rightarrow> string" where
  "encode [] = []"
| "encode [a] = (let n = unat a * 65536 in [sextet (n div 262144), sextet (n div 4096)])"
| "encode [a, b] = (let n = unat a * 65536 + unat b * 256 in
     [sextet (n div 262144), sextet (n div 4096), sextet (n div 64)])"
| "encode (a # b # c # r) = (let n = unat a * 65536 + unat b * 256 + unat c in
     [sextet (n div 262144), sextet (n div 4096), sextet (n div 64), sextet n] @ encode r)"

text \<open>The position of a character in the alphabet, which the decoding table holds.\<close>

fun position :: "char \<Rightarrow> string \<Rightarrow> nat option" where
  "position c [] = None"
| "position c (d # ds) = (if c = d then Some 0 else map_option Suc (position c ds))"

definition byte_of :: "nat \<Rightarrow> byte" where
  "byte_of n = word_of_nat n"

fun decode_sextets :: "nat list \<Rightarrow> byte list option" where
  "decode_sextets [] = Some []"
| "decode_sextets [p] = None"
| "decode_sextets [p, q] = (let n = p * 262144 + q * 4096 in Some [byte_of (n div 65536)])"
| "decode_sextets [p, q, r] = (let n = p * 262144 + q * 4096 + r * 64 in
     Some [byte_of (n div 65536), byte_of (n div 256 mod 256)])"
| "decode_sextets (p # q # r # s # t) = (let n = p * 262144 + q * 4096 + r * 64 + s in
     map_option (\<lambda>bs. [byte_of (n div 65536), byte_of (n div 256 mod 256), byte_of (n mod 256)] @ bs)
       (decode_sextets t))"

fun positions :: "string \<Rightarrow> nat list option" where
  "positions [] = Some []"
| "positions (c # cs) = (case position c alphabet of
     None \<Rightarrow> None | Some n \<Rightarrow> map_option (\<lambda>ns. n # ns) (positions cs))"

text \<open>Line breaks are skipped, any other character outside the alphabet is an error.\<close>

definition decode :: "string \<Rightarrow> byte list option" where
  "decode s = (case positions (filter (\<lambda>c. c \<noteq> CHR 0x0A \<and> c \<noteq> CHR 0x0D) s) of
     None \<Rightarrow> None | Some ns \<Rightarrow> decode_sextets ns)"

section \<open>The alphabet\<close>

lemma alphabet_length [simp]: "length alphabet = 64"
  by (simp add: alphabet_def)

lemma alphabet_distinct: "distinct alphabet"
  by (simp add: alphabet_def)

lemma sextet_in_alphabet [simp]: "sextet n \<in> set alphabet"
  by (simp add: sextet_def)

lemma no_line_break: "CHR 0x0A \<notin> set alphabet" "CHR 0x0D \<notin> set alphabet"
  by (simp_all add: alphabet_def)

lemma position_nth: "distinct ds \<Longrightarrow> i < length ds \<Longrightarrow> position (ds ! i) ds = Some i"
proof (induction ds arbitrary: i)
  case (Cons d ds)
  then show ?case by (cases i) auto
qed simp

lemma position_None: "position c ds = None \<longleftrightarrow> c \<notin> set ds"
  by (induction ds) auto

lemma position_sextet [simp]: "position (sextet n) alphabet = Some (n mod 64)"
  unfolding sextet_def by (rule position_nth [OF alphabet_distinct]) simp

lemma positions_append:
  "positions (xs @ ys) = (case positions xs of None \<Rightarrow> None
     | Some ns \<Rightarrow> (case positions ys of None \<Rightarrow> None | Some ms \<Rightarrow> Some (ns @ ms)))"
  by (induction xs) (auto split: option.splits)

lemma positions_None: "positions xs = None \<longleftrightarrow> \<not> set xs \<subseteq> set alphabet"
proof (induction xs)
  case (Cons c cs)
  then show ?case by (auto split: option.splits simp flip: position_None)
qed simp

section \<open>Length, alphabet and round trip\<close>

lemma encode_alphabet: "set (encode bs) \<subseteq> set alphabet"
  by (induction bs rule: encode.induct) (auto simp: Let_def)

lemma encode_length: "length (encode bs) = (length bs * 4 + 2) div 3"
  by (induction bs rule: encode.induct) (simp_all add: Let_def)

lemma sextets_sum:
  fixes n :: nat
  assumes "n < 16777216"
  shows "n div 262144 mod 64 * 262144 + n div 4096 mod 64 * 4096 + n div 64 mod 64 * 64 + n mod 64 = n"
proof -
  define q r where "q = n div 64" and "r = n div 4096"
  have q: "n div 4096 = q div 64" and r: "n div 262144 = r div 64"
    by (simp_all add: q_def r_def flip: div_mult2_eq)
  have "n div 262144 < 64" using assms by (simp add: less_mult_imp_div_less)
  then have "n div 262144 mod 64 = n div 262144" by simp
  moreover have "64 * q + n mod 64 = n" "64 * r + q mod 64 = q" "64 * (n div 262144) + r mod 64 = r"
    using q r by (simp_all add: q_def r_def)
  ultimately show ?thesis unfolding q_def [symmetric] r_def [symmetric] by linarith
qed

lemma byte_of_unat [simp]: "byte_of (unat b) = b"
  by (simp add: byte_of_def)

lemma unat_byte: "unat (b :: byte) < 256"
  using unsigned_less [of b] by simp

lemma group_bytes:
  fixes a b c :: nat
  assumes "a < 256" "b < 256" "c < 256"
  shows "(a * 65536 + b * 256 + c) div 65536 = a"
    and "(a * 65536 + b * 256 + c) div 256 mod 256 = b"
    and "(a * 65536 + b * 256 + c) mod 256 = c"
    and "a * 65536 + b * 256 + c < 16777216"
proof -
  let ?n = "a * 65536 + b * 256 + c"
  have "?n = (b * 256 + c) + a * 65536" by simp
  moreover have "b * 256 + c < 65536" using assms by linarith
  ultimately show "?n div 65536 = a" by (metis add.commute div_less div_mult_self1 mult.commute
        add_0_right zero_neq_numeral)
  have e: "?n = c + (a * 256 + b) * 256" by simp
  then have "?n div 256 = a * 256 + b" using assms(3) by simp
  then show "?n div 256 mod 256 = b" using assms(2) by simp
  have "(c + (a * 256 + b) * 256) mod 256 = c mod 256" by (rule mod_mult_self1)
  then show "?n mod 256 = c" unfolding e using assms(3) by (simp only: mod_less)
  show "?n < 16777216" using assms by linarith
qed

text \<open>Decoding the sextets of a group gives its bytes, whatever the group.\<close>

lemma decode_group2:
  assumes "n < 16777216" and "n mod 4096 = 0"
  shows "decode_sextets [n div 262144 mod 64, n div 4096 mod 64] = Some [byte_of (n div 65536)]"
proof -
  obtain k where "n = 4096 * k" using assms(2) by (auto elim: dvdE simp: mod_eq_0_iff_dvd)
  then have "n = 64 * (64 * k)" by simp
  then have "n mod 64 = 0" "n div 64 mod 64 = 0" by simp_all
  then have "n div 262144 mod 64 * 262144 + n div 4096 mod 64 * 4096 = n"
    using sextets_sum [OF assms(1)] by (simp only: mult_zero_left add_0_right)
  then show ?thesis by (simp only: decode_sextets.simps Let_def)
qed

lemma decode_group3:
  assumes "n < 16777216" and "n mod 64 = 0"
  shows "decode_sextets [n div 262144 mod 64, n div 4096 mod 64, n div 64 mod 64]
       = Some [byte_of (n div 65536), byte_of (n div 256 mod 256)]"
  using sextets_sum [OF assms(1)] assms(2)
  by (simp only: decode_sextets.simps Let_def add_0_right)

lemma decode_group4:
  assumes "n < 16777216" and "decode_sextets ns = Some r"
  shows "decode_sextets (n div 262144 mod 64 # n div 4096 mod 64 # n div 64 mod 64 # n mod 64 # ns)
       = Some (byte_of (n div 65536) # byte_of (n div 256 mod 256) # byte_of (n mod 256) # r)"
  using assms(2)
  by (simp only: decode_sextets.simps Let_def sextets_sum [OF assms(1)] option.map append.simps)

lemma filter_line_breaks:
  "set s \<subseteq> set alphabet \<Longrightarrow> filter (\<lambda>c. c \<noteq> CHR 0x0A \<and> c \<noteq> CHR 0x0D) s = s"
  using no_line_break by (auto simp: filter_id_conv)

lemma decode_sextets_encode: "\<exists>ns. positions (encode bs) = Some ns \<and> decode_sextets ns = Some bs"
proof (induction bs rule: encode.induct)
  case (2 a)
  note bytes = group_bytes [OF unat_byte [of a], of 0 0, simplified]
  show ?case
    using decode_group2 [of "unat a * 65536"] bytes
    by (simp add: Let_def del: decode_sextets.simps)
next
  case (3 a b)
  note bytes = group_bytes [OF unat_byte [of a] unat_byte [of b], of 0, simplified]
  have "(unat a * 65536 + unat b * 256) mod 64 = 0" by presburger
  then show ?case
    using decode_group3 [of "unat a * 65536 + unat b * 256"] bytes
    by (simp add: Let_def del: decode_sextets.simps)
next
  case (4 a b c r)
  then obtain ns where ns: "positions (encode r) = Some ns" "decode_sextets ns = Some r" by blast
  note bytes = group_bytes [OF unat_byte [of a] unat_byte [of b] unat_byte [of c]]
  show ?case
    using ns decode_group4 [OF bytes(4) ns(2)] bytes(1-3)
    by (simp add: Let_def del: decode_sextets.simps)
qed simp

lemma decode_encode: "decode (encode bs) = Some bs"
  using decode_sextets_encode [of bs]
  by (auto simp: decode_def filter_line_breaks [OF encode_alphabet])

lemma decode_foreign:
  assumes "c \<in> set s" and "c \<notin> set alphabet" and "c \<noteq> CHR 0x0A" and "c \<noteq> CHR 0x0D"
  shows "decode s = None"
proof -
  have "c \<in> set (filter (\<lambda>c. c \<noteq> CHR 0x0A \<and> c \<noteq> CHR 0x0D) s)" using assms by simp
  then have "positions (filter (\<lambda>c. c \<noteq> CHR 0x0A \<and> c \<noteq> CHR 0x0D) s) = None"
    using assms(2) by (auto simp only: positions_None)
  then show ?thesis by (simp add: decode_def)
qed

end
