(* ===== verification/GoErrors.thy ===== *)
theory GoErrors imports Prelude begin

text \<open>
  Go's \<^verbatim>\<open>error\<close> values, as far as the controller builds and inspects them: errors made
  with \<^verbatim>\<open>fmt.Errorf\<close> (with a wrapped error after \<^verbatim>\<open>%w\<close>, or one that is only printed,
  after \<^verbatim>\<open>%v\<close>), the sentinel \<^verbatim>\<open>ErrKeyNotFound\<close>, and errors that come from other code, of
  which only an identity and the text are known. A Go result of type \<^verbatim>\<open>error\<close> is a
  \<open>go_err option\<close>, with \<open>None\<close> for \<^verbatim>\<open>nil\<close>.
\<close>

datatype go_err =
    External nat string
  | Errorf string
  | Wrapf string go_err
  | Flatf string go_err
  | ErrKeyNotFound

text \<open>\<^verbatim>\<open>err.Error()\<close>. Every wrapping format of the controller ends in \<open>: %w\<close> or \<open>: %v\<close>.\<close>

fun Error :: "go_err \<Rightarrow> string" where
  "Error (External _ t) = t"
| "Error (Errorf t) = t"
| "Error (Wrapf t e) = t @ '': '' @ Error e"
| "Error (Flatf t e) = t @ '': '' @ Error e"
| "Error ErrKeyNotFound = ''key not found in secret''"

text \<open>\<^verbatim>\<open>errors.Is\<close>: the error or one it wraps is the target.\<close>

fun errors_is :: "go_err \<Rightarrow> go_err \<Rightarrow> bool" where
  "errors_is (Wrapf t e) target = (Wrapf t e = target \<or> errors_is e target)"
| "errors_is e target = (e = target)"

text \<open>
  \<^verbatim>\<open>strconv.Quote\<close>, which the verb \<^verbatim>\<open>%q\<close> applies: ASCII control characters are escaped,
  the quote and the backslash are preceded by a backslash, and bytes of a printable
  UTF-8 sequence stand for themselves.
\<close>

definition hex_digit :: "nat \<Rightarrow> char" where
  "hex_digit n = (''0123456789abcdef'' ! (n mod 16))"

definition quote_char :: "char \<Rightarrow> string" where
  "quote_char c = (let n = of_char c :: nat; bs = char_of (92 :: nat) in
     if n = 34 \<or> n = 92 then [bs, c]
     else if n = 7 then [bs, CHR ''a''] else if n = 8 then [bs, CHR ''b'']
     else if n = 12 then [bs, CHR ''f''] else if n = 10 then [bs, CHR ''n'']
     else if n = 13 then [bs, CHR ''r''] else if n = 9 then [bs, CHR ''t'']
     else if n = 11 then [bs, CHR ''v'']
     else if n < 32 \<or> n = 127 then [bs, CHR ''x'', hex_digit (n div 16), hex_digit n]
     else [c])"

definition quote :: "string \<Rightarrow> string" where
  "quote s = (let q = char_of (34 :: nat) in [q] @ concat (map quote_char s) @ [q])"

lemma errors_is_refl [simp]: "errors_is e e"
  by (cases e) auto

lemma errors_is_wrap [simp]: "errors_is (Wrapf t e) e"
  by simp

lemma errors_is_trans_wrap: "errors_is e target \<Longrightarrow> errors_is (Wrapf t e) target"
  by simp

end
