(* ===== verification/ApiTypes.thy ===== *)
theory ApiTypes imports GoErrors begin

text \<open>
  The API objects of \<^verbatim>\<open>src/api/v1alpha1\<close> and the parts of the Kubernetes types the
  controllers read or write. Field names carry a prefix because records of one theory
  share a name space: \<open>om_\<close> for \<^verbatim>\<open>metav1.ObjectMeta\<close>, \<open>or_\<close> for \<^verbatim>\<open>metav1.OwnerReference\<close>,
  \<open>cd_\<close> for \<^verbatim>\<open>metav1.Condition\<close>, \<open>b_\<close>, \<open>bs_\<close> and \<open>bst_\<close> for \<^verbatim>\<open>Bucket\<close>, its spec and its
  status, \<open>p_\<close>, \<open>ps_\<close>, \<open>pst_\<close> for \<^verbatim>\<open>BucketProvider\<close>, \<open>a_\<close>, \<open>as_\<close>, \<open>ast_\<close> for
  \<^verbatim>\<open>BucketServiceAccount\<close> and \<open>sec_\<close> for \<^verbatim>\<open>corev1.Secret\<close>. A Go map is a partial function,
  a nil-able pointer an option, a byte slice a string, a time an integer of nanoseconds
  (0 for the zero time). A deep copy is the value itself, as HOL values are immutable; the
  theory \<open>DeepCopy\<close> shows that the generated copies behave like that.
\<close>

section \<open>Kubernetes types\<close>

record owner_ref =
  or_apiVersion :: string
  or_kind :: string
  or_name :: string
  or_uid :: string
  or_controller :: "bool option"
  or_blockOwnerDeletion :: "bool option"

record object_meta =
  om_name :: string
  om_namespace :: string
  om_uid :: string
  om_resourceVersion :: string
  om_generation :: int
  om_deletionTimestamp :: "int option"
  om_labels :: "string \<rightharpoonup> string"
  om_annotations :: "string \<rightharpoonup> string"
  om_finalizers :: "string list"
  om_ownerReferences :: "owner_ref list"

datatype cond_status = ConditionTrue | ConditionFalse | ConditionUnknown

record condition =
  cd_type :: string
  cd_status :: cond_status
  cd_reason :: string
  cd_message :: string
  cd_observedGeneration :: int
  cd_lastTransitionTime :: int

record secret =
  sec_meta :: object_meta
  sec_type :: string
  sec_data :: "string \<rightharpoonup> string"

text \<open>\<^verbatim>\<open>types.NamespacedName\<close>; cluster-scoped objects have the empty namespace.\<close>

record nsname =
  nn_name :: string
  nn_namespace :: string

text \<open>\<^verbatim>\<open>ctrl.Result\<close>: the controllers only use \<^verbatim>\<open>RequeueAfter\<close>, in nanoseconds.\<close>

record ctrl_result =
  requeueAfter :: int

abbreviation no_requeue :: ctrl_result where
  "no_requeue \<equiv> \<lparr>requeueAfter = 0\<rparr>"

abbreviation second :: int where
  "second \<equiv> 1000000000"

text \<open>An \<^verbatim>\<open>ObjectMeta\<close> literal that sets the name and the namespace only.\<close>

definition new_meta :: "string \<Rightarrow> string \<Rightarrow> object_meta" where
  "new_meta name ns = \<lparr>om_name = name, om_namespace = ns, om_uid = '''', om_resourceVersion = '''',
     om_generation = 0, om_deletionTimestamp = None, om_labels = Map.empty,
     om_annotations = Map.empty, om_finalizers = [], om_ownerReferences = []\<rparr>"

definition zero_secret :: secret where
  "zero_secret = \<lparr>sec_meta = new_meta '''' '''', sec_type = '''', sec_data = Map.empty\<rparr>"

section \<open>Buckets\<close>

abbreviation BucketReclaimDelete :: string where "BucketReclaimDelete \<equiv> ''Delete''"
abbreviation BucketReclaimRetain :: string where "BucketReclaimRetain \<equiv> ''Retain''"

abbreviation MinioAccessKey :: string where "MinioAccessKey \<equiv> ''MINIO_ACCESS_KEY''"
abbreviation MinioSecretKey :: string where "MinioSecretKey \<equiv> ''MINIO_SECRET_KEY''"
abbreviation MinioEndpoint :: string where "MinioEndpoint \<equiv> ''MINIO_ENDPOINT''"
abbreviation MinioBucket :: string where "MinioBucket \<equiv> ''MINIO_BUCKET''"
abbreviation MinioSecure :: string where "MinioSecure \<equiv> ''MINIO_SECURE''"

abbreviation BucketConditionCreating :: string where "BucketConditionCreating \<equiv> ''Creating''"
abbreviation BucketConditionReady :: string where "BucketConditionReady \<equiv> ''Ready''"
abbreviation BucketConditionError :: string where "BucketConditionError \<equiv> ''Error''"
abbreviation BucketConditionDeleting :: string where "BucketConditionDeleting \<equiv> ''Deleting''"

abbreviation BucketConditionReasonErrCreateBucket :: string where
  "BucketConditionReasonErrCreateBucket \<equiv> ''ErrCreateBucket''"
abbreviation BucketConditionReasonErrCreateServiceAccount :: string where
  "BucketConditionReasonErrCreateServiceAccount \<equiv> ''ErrCreateServiceAccount''"
abbreviation BucketConditionReasonErrCreatePolicy :: string where
  "BucketConditionReasonErrCreatePolicy \<equiv> ''ErrCreatePolicy''"
abbreviation BucketConditionReasonErrCreateSecret :: string where
  "BucketConditionReasonErrCreateSecret \<equiv> ''ErrCreateSecret''"

abbreviation BucketAccessSecretType :: string where
  "BucketAccessSecretType \<equiv> ''s3.linka.cloud/bucket-access''"

record bucket_access =
  ba_accessKey :: string
  ba_secretKey :: string
  ba_endpoint :: string
  ba_bucket :: string
  ba_secure :: bool

definition zero_bucket_access :: bucket_access where
  "zero_bucket_access = \<lparr>ba_accessKey = '''', ba_secretKey = '''', ba_endpoint = '''',
     ba_bucket = '''', ba_secure = False\<rparr>"

text \<open>
  The secret template is a Go map, which the code iterates in an unspecified order: it is
  the list of its entries in the order of the iteration at hand.
\<close>

record bucket_spec =
  bs_provider :: string
  bs_serviceAccount :: string
  bs_reclaimPolicy :: string
  bs_secretName :: "string option"
  bs_secretTemplate :: "(string \<times> string) list"

record bucket_status =
  bst_endpoint :: "string option"
  bst_secretName :: "string option"
  bst_conditions :: "condition list"
  bst_phase :: string

record bucket =
  b_meta :: object_meta
  b_spec :: bucket_spec
  b_status :: bucket_status

definition zero_bucket :: bucket where
  "zero_bucket = \<lparr>b_meta = new_meta '''' '''',
     b_spec = \<lparr>bs_provider = '''', bs_serviceAccount = '''', bs_reclaimPolicy = '''',
               bs_secretName = None, bs_secretTemplate = []\<rparr>,
     b_status = \<lparr>bst_endpoint = None, bst_secretName = None, bst_conditions = [], bst_phase = ''''\<rparr>\<rparr>"

abbreviation b_name :: "bucket \<Rightarrow> string" where "b_name b \<equiv> om_name (b_meta b)"
abbreviation b_namespace :: "bucket \<Rightarrow> string" where "b_namespace b \<equiv> om_namespace (b_meta b)"
abbreviation b_conditions :: "bucket \<Rightarrow> condition list" where
  "b_conditions b \<equiv> bst_conditions (b_status b)"

section \<open>Bucket providers\<close>

abbreviation ProviderConditionCreating :: string where "ProviderConditionCreating \<equiv> ''Creating''"
abbreviation ProviderConditionReady :: string where "ProviderConditionReady \<equiv> ''Ready''"
abbreviation ProviderConditionError :: string where "ProviderConditionError \<equiv> ''Error''"
abbreviation ProviderConditionDeleting :: string where "ProviderConditionDeleting \<equiv> ''Deleting''"

abbreviation ErrProviderInvalid :: string where "ErrProviderInvalid \<equiv> ''InvalidProvider''"
abbreviation ErrProviderUnavailable :: string where "ErrProviderUnavailable \<equiv> ''UnavailableProvider''"

abbreviation DefaultProviderAnnotation :: string where
  "DefaultProviderAnnotation \<equiv> ''s3.linka.cloud/is-default-provider''"

record secret_ref =
  sr_name :: string
  sr_namespace :: string
  sr_key :: string

record provider_spec =
  ps_endpoint :: string
  ps_accessKey :: secret_ref
  ps_secretKey :: secret_ref
  ps_insecure :: bool

record provider_status =
  pst_conditions :: "condition list"
  pst_phase :: string

record provider =
  p_meta :: object_meta
  p_spec :: provider_spec
  p_status :: provider_status

definition zero_provider :: provider where
  "zero_provider = \<lparr>p_meta = new_meta '''' '''',
     p_spec = \<lparr>ps_endpoint = '''',
               ps_accessKey = \<lparr>sr_name = '''', sr_namespace = '''', sr_key = ''''\<rparr>,
               ps_secretKey = \<lparr>sr_name = '''', sr_namespace = '''', sr_key = ''''\<rparr>,
               ps_insecure = False\<rparr>,
     p_status = \<lparr>pst_conditions = [], pst_phase = ''''\<rparr>\<rparr>"

abbreviation p_name :: "provider \<Rightarrow> string" where "p_name p \<equiv> om_name (p_meta p)"
abbreviation p_conditions :: "provider \<Rightarrow> condition list" where
  "p_conditions p \<equiv> pst_conditions (p_status p)"

section \<open>Bucket service accounts\<close>

abbreviation BucketSAConditionCreating :: string where "BucketSAConditionCreating \<equiv> ''Creating''"
abbreviation BucketSAConditionReady :: string where "BucketSAConditionReady \<equiv> ''Ready''"
abbreviation BucketSAConditionError :: string where "BucketSAConditionError \<equiv> ''Error''"
abbreviation BucketSAConditionDeleting :: string where "BucketSAConditionDeleting \<equiv> ''Deleting''"
abbreviation BucketSAConditionDeletionPending :: string where
  "BucketSAConditionDeletionPending \<equiv> ''DeletionPending''"

abbreviation BucketSAConditionReasonErrCreateUser :: string where
  "BucketSAConditionReasonErrCreateUser \<equiv> ''ErrCreateUser''"
abbreviation BucketSAConditionReasonErrCreateAccount :: string where
  "BucketSAConditionReasonErrCreateAccount \<equiv> ''ErrCreateAccount''"
abbreviation BucketSAConditionReasonErrCreatePolicy :: string where
  "BucketSAConditionReasonErrCreatePolicy \<equiv> ''ErrCreatePolicy''"

abbreviation BucketSASecretType :: string where
  "BucketSASecretType \<equiv> ''s3.linka.cloud/service-account''"
abbreviation ServiceAccountAnnotation :: string where
  "ServiceAccountAnnotation \<equiv> ''s3.linka.cloud/service-account''"

record account_spec =
  as_provider :: string

record account_status =
  ast_secretName :: "string option"
  ast_conditions :: "condition list"
  ast_phase :: string

record account =
  a_meta :: object_meta
  a_spec :: account_spec
  a_status :: account_status

text \<open>Reading through the pointer to the metadata of the account.\<close>

abbreviation GetObjectMeta :: "account \<Rightarrow> object_meta" where
  "GetObjectMeta b \<equiv> a_meta b"

definition zero_account :: account where
  "zero_account = \<lparr>a_meta = new_meta '''' '''', a_spec = \<lparr>as_provider = ''''\<rparr>,
     a_status = \<lparr>ast_secretName = None, ast_conditions = [], ast_phase = ''''\<rparr>\<rparr>"

abbreviation a_name :: "account \<Rightarrow> string" where "a_name a \<equiv> om_name (a_meta a)"
abbreviation a_namespace :: "account \<Rightarrow> string" where "a_namespace a \<equiv> om_namespace (a_meta a)"
abbreviation a_conditions :: "account \<Rightarrow> condition list" where
  "a_conditions a \<equiv> ast_conditions (a_status a)"

section \<open>The API group and dynamically typed objects\<close>

text \<open>\<^verbatim>\<open>GroupVersion\<close> of \<^verbatim>\<open>groupversion_info.go\<close>.\<close>

record group_version =
  gv_group :: string
  gv_version :: string

definition GroupVersion :: group_version where
  "GroupVersion = \<lparr>gv_group = ''s3.linka.cloud'', gv_version = ''v1alpha1''\<rparr>"

record gvk =
  gvk_group_version :: group_version
  gvk_kind :: string

text \<open>
  A value of an interface type (\<^verbatim>\<open>runtime.Object\<close>, \<^verbatim>\<open>metav1.Object\<close>) with its dynamic
  type. \<open>AnyOther ty m\<close> is an object of another type, named \<open>ty\<close>, with \<open>m\<close> its metadata
  when it gives access to one.
\<close>

datatype any_object =
    AnyBucket bucket
  | AnyAccount account
  | AnyProvider provider
  | AnySecret secret
  | AnyOther string "object_meta option"

fun type_name :: "any_object \<Rightarrow> string" where
  "type_name (AnyBucket _) = ''*v1alpha1.Bucket''"
| "type_name (AnyAccount _) = ''*v1alpha1.BucketServiceAccount''"
| "type_name (AnyProvider _) = ''*v1alpha1.BucketProvider''"
| "type_name (AnySecret _) = ''*v1.Secret''"
| "type_name (AnyOther ty _) = ty"

fun object_meta_of :: "any_object \<Rightarrow> object_meta option" where
  "object_meta_of (AnyBucket b) = Some (b_meta b)"
| "object_meta_of (AnyAccount a) = Some (GetObjectMeta a)"
| "object_meta_of (AnyProvider p) = Some (p_meta p)"
| "object_meta_of (AnySecret s) = Some (sec_meta s)"
| "object_meta_of (AnyOther _ m) = m"

text \<open>
  The arguments of \<^verbatim>\<open>equality.Semantic.DeepEqual\<close>, with their dynamic types: the code
  passes pointers to buckets, and a secret next to a pointer to a secret.
\<close>

datatype go_value = BucketPtr bucket | SecretValue secret | SecretPtr secret

end
