(* ===== verification/Environment.thy ===== *)
theory Environment imports ApiTypes "HOL-Library.Word" begin

text \<open>
  Everything outside the repository, as parameters: the record \<open>env\<close> holds one function
  per operation of another package that the code calls, on an opaque world \<open>'w\<close> where the
  operation does input or output. Each operation that is performed on the API server or on
  MinIO is wrapped so that the call and its answer are recorded in the trace. The end of the
  theory states, as predicates on such a record, what the documentation of those packages
  promises; a theorem names the promises it rests on.
\<close>

section \<open>The calls and their answers\<close>

text \<open>
  One verb of the controller-runtime client on objects of one type. The answer of a call is
  the error and the object the Go variable holds afterwards: the client writes the server's
  response into the object it is given.
\<close>

datatype 'o verb = Get nsname | Create 'o | Update 'o | Delete 'o | StatusUpdate 'o

text \<open>An SDK client is known by the arguments it was made with.\<close>

record sdk_client =
  sdk_endpoint :: string
  sdk_accessKey :: string
  sdk_secretKey :: string
  sdk_secure :: bool

record url =
  url_scheme :: string
  url_host :: string

datatype minio_request =
    BucketExists string
  | MakeBucket string
  | RemoveBucket string
  | RemoveBucketWithOptions string bool
  | ListMinioBuckets
  | ListUsers
  | AddUser string string
  | RemoveUser string
  | ListServiceAccounts string
  | AddServiceAccount string
  | DeleteServiceAccount string
  | ListCannedPolicies
  | AddCannedPolicy string string
  | SetPolicy string string bool

datatype minio_answer =
    Done "go_err option"
  | Exists bool "go_err option"
  | Users "string \<rightharpoonup> string" "go_err option"
  | Accounts "string list" "go_err option"
  | Credentials string string "go_err option"
  | Policies "string \<rightharpoonup> string" "go_err option"

datatype event_type = Normal | Warning

datatype event_message = Message string | Format string "string list"

datatype call =
    BucketCall "bucket verb" "go_err option" bucket
  | AccountCall "account verb" "go_err option" account
  | ProviderCall "provider verb" "go_err option" provider
  | SecretCall "secret verb" "go_err option" secret
  | ListBuckets "(string \<times> string) option" "go_err option" "bucket list"
  | ListAccounts "(string \<times> string) option" "go_err option" "account list"
  | ListProviders "(string \<times> string) option" "go_err option" "provider list"
  | MinioCall sdk_client minio_request minio_answer
  | EventCall any_object event_type string event_message

section \<open>The environment\<close>

record ('o, 'w) kube =
  k_get :: "nsname \<Rightarrow> 'o \<Rightarrow> 'w \<Rightarrow> (go_err option \<times> 'o) \<times> 'w"
  k_create :: "'o \<Rightarrow> 'w \<Rightarrow> (go_err option \<times> 'o) \<times> 'w"
  k_update :: "'o \<Rightarrow> 'w \<Rightarrow> (go_err option \<times> 'o) \<times> 'w"
  k_delete :: "'o \<Rightarrow> 'w \<Rightarrow> (go_err option \<times> 'o) \<times> 'w"
  k_status_update :: "'o \<Rightarrow> 'w \<Rightarrow> (go_err option \<times> 'o) \<times> 'w"
  k_list :: "(string \<times> string) option \<Rightarrow> 'w \<Rightarrow> (go_err option \<times> 'o list) \<times> 'w"

record 'w env =
  \<comment> \<open>controller-runtime's client, per type of object\<close>
  buckets :: "(bucket, 'w) kube"
  accounts :: "(account, 'w) kube"
  providers :: "(provider, 'w) kube"
  secrets :: "(secret, 'w) kube"
  \<comment> \<open>MinIO's two SDKs\<close>
  madmin_new :: "string \<Rightarrow> string \<Rightarrow> string \<Rightarrow> bool \<Rightarrow> go_err + sdk_client"
  minio_new :: "string \<Rightarrow> string \<Rightarrow> string \<Rightarrow> bool \<Rightarrow> go_err + sdk_client"
  endpoint_url :: "sdk_client \<Rightarrow> url"
  minio :: "sdk_client \<Rightarrow> minio_request \<Rightarrow> 'w \<Rightarrow> go_err option \<times> 'w"
  minio_exists :: "sdk_client \<Rightarrow> string \<Rightarrow> 'w \<Rightarrow> (bool \<times> go_err option) \<times> 'w"
  minio_users :: "sdk_client \<Rightarrow> 'w \<Rightarrow> ((string \<rightharpoonup> string) \<times> go_err option) \<times> 'w"
  minio_accounts :: "sdk_client \<Rightarrow> string \<Rightarrow> 'w \<Rightarrow> (string list \<times> go_err option) \<times> 'w"
  minio_add_account :: "sdk_client \<Rightarrow> string \<Rightarrow> 'w \<Rightarrow> ((string \<times> string) \<times> go_err option) \<times> 'w"
  minio_policies :: "sdk_client \<Rightarrow> 'w \<Rightarrow> ((string \<rightharpoonup> string) \<times> go_err option) \<times> 'w"
  admin_code :: "go_err \<Rightarrow> string"
  \<comment> \<open>the event sink, the clock and the random source\<close>
  emit :: "any_object \<Rightarrow> event_type \<Rightarrow> string \<Rightarrow> event_message \<Rightarrow> 'w \<Rightarrow> unit \<times> 'w"
  clock :: "'w \<Rightarrow> int \<times> 'w"
  random_bytes :: "nat \<Rightarrow> 'w \<Rightarrow> (8 word list \<times> go_err option) \<times> 'w"
  \<comment> \<open>apimachinery, controller-runtime and multierr, without input or output\<close>
  is_not_found :: "go_err \<Rightarrow> bool"
  ignore_not_found :: "go_err option \<Rightarrow> go_err option"
  set_condition :: "int \<Rightarrow> condition list \<Rightarrow> condition \<Rightarrow> condition list"
  remove_condition :: "condition list \<Rightarrow> string \<Rightarrow> condition list"
  find_condition :: "condition list \<Rightarrow> string \<Rightarrow> condition option"
  condition_true :: "condition list \<Rightarrow> string \<Rightarrow> bool"
  add_finalizer :: "string list \<Rightarrow> string \<Rightarrow> bool \<times> string list"
  remove_finalizer :: "string list \<Rightarrow> string \<Rightarrow> string list"
  gvk_for_object :: "any_object \<Rightarrow> go_err + gvk"
  group_version_string :: "group_version \<Rightarrow> string"
  parse_group_version :: "string \<Rightarrow> go_err + group_version"
  get_controller_of :: "owner_ref list \<Rightarrow> owner_ref option"
  set_controller_reference :: "any_object \<Rightarrow> object_meta \<Rightarrow> go_err option \<times> owner_ref list"
  semantic_equal :: "go_value \<Rightarrow> go_value \<Rightarrow> bool"
  combine :: "go_err option list \<Rightarrow> go_err option"
  \<comment> \<open>the template engine (a template is known by its text) and the policy encoder\<close>
  template_parse :: "string \<Rightarrow> go_err option"
  template_execute :: "string \<Rightarrow> bucket_access \<Rightarrow> go_err + string"
  marshal_policy :: "string \<Rightarrow> go_err + string"

type_synonym ('w, 'a) handler = "('w, call, 'a) prog"
type_synonym 'w st = "('w, call) machine"

section \<open>The recorded operations\<close>

text \<open>\<open>tag\<close> makes the record of a call on objects of one type (\<open>BucketCall\<close>, \<open>SecretCall\<close>, ...).\<close>

type_synonym 'o tag = "'o verb \<Rightarrow> go_err option \<Rightarrow> 'o \<Rightarrow> call"

definition api_get :: "('o, 'w) kube \<Rightarrow> 'o tag \<Rightarrow> nsname \<Rightarrow> 'o \<Rightarrow> ('w, go_err option \<times> 'o) handler" where
  "api_get k tag key obj = ext (k_get k key obj) (\<lambda>(e, o'). tag (Get key) e o')"

definition api_create :: "('o, 'w) kube \<Rightarrow> 'o tag \<Rightarrow> 'o \<Rightarrow> ('w, go_err option \<times> 'o) handler" where
  "api_create k tag obj = ext (k_create k obj) (\<lambda>(e, o'). tag (Create obj) e o')"

definition api_update :: "('o, 'w) kube \<Rightarrow> 'o tag \<Rightarrow> 'o \<Rightarrow> ('w, go_err option \<times> 'o) handler" where
  "api_update k tag obj = ext (k_update k obj) (\<lambda>(e, o'). tag (Update obj) e o')"

definition api_delete :: "('o, 'w) kube \<Rightarrow> 'o tag \<Rightarrow> 'o \<Rightarrow> ('w, go_err option \<times> 'o) handler" where
  "api_delete k tag obj = ext (k_delete k obj) (\<lambda>(e, o'). tag (Delete obj) e o')"

definition api_status_update ::
    "('o, 'w) kube \<Rightarrow> 'o tag \<Rightarrow> 'o \<Rightarrow> ('w, go_err option \<times> 'o) handler" where
  "api_status_update k tag obj = ext (k_status_update k obj) (\<lambda>(e, o'). tag (StatusUpdate obj) e o')"

definition list_buckets :: "'w env \<Rightarrow> (string \<times> string) option \<Rightarrow> ('w, go_err option \<times> bucket list) handler" where
  "list_buckets X sel = ext (k_list (buckets X) sel) (\<lambda>(e, l). ListBuckets sel e l)"

definition list_accounts :: "'w env \<Rightarrow> (string \<times> string) option \<Rightarrow> ('w, go_err option \<times> account list) handler" where
  "list_accounts X sel = ext (k_list (accounts X) sel) (\<lambda>(e, l). ListAccounts sel e l)"

definition list_providers :: "'w env \<Rightarrow> (string \<times> string) option \<Rightarrow> ('w, go_err option \<times> provider list) handler" where
  "list_providers X sel = ext (k_list (providers X) sel) (\<lambda>(e, l). ListProviders sel e l)"

text \<open>MinIO requests that answer with an error only, and those that answer with data.\<close>

definition minio_do :: "'w env \<Rightarrow> sdk_client \<Rightarrow> minio_request \<Rightarrow> ('w, go_err option) handler" where
  "minio_do X c req = ext (minio X c req) (\<lambda>e. MinioCall c req (Done e))"

definition bucket_exists :: "'w env \<Rightarrow> sdk_client \<Rightarrow> string \<Rightarrow> ('w, bool \<times> go_err option) handler" where
  "bucket_exists X c n =
     ext (minio_exists X c n) (\<lambda>(ok, e). MinioCall c (BucketExists n) (Exists ok e))"

definition list_users :: "'w env \<Rightarrow> sdk_client \<Rightarrow> ('w, (string \<rightharpoonup> string) \<times> go_err option) handler" where
  "list_users X c = ext (minio_users X c) (\<lambda>(us, e). MinioCall c ListUsers (Users us e))"

definition list_service_accounts ::
    "'w env \<Rightarrow> sdk_client \<Rightarrow> string \<Rightarrow> ('w, string list \<times> go_err option) handler" where
  "list_service_accounts X c user = ext (minio_accounts X c user)
     (\<lambda>(as, e). MinioCall c (ListServiceAccounts user) (Accounts as e))"

definition add_service_account ::
    "'w env \<Rightarrow> sdk_client \<Rightarrow> string \<Rightarrow> ('w, (string \<times> string) \<times> go_err option) handler" where
  "add_service_account X c user = ext (minio_add_account X c user)
     (\<lambda>((ak, sk), e). MinioCall c (AddServiceAccount user) (Credentials ak sk e))"

definition list_canned_policies ::
    "'w env \<Rightarrow> sdk_client \<Rightarrow> ('w, (string \<rightharpoonup> string) \<times> go_err option) handler" where
  "list_canned_policies X c =
     ext (minio_policies X c) (\<lambda>(ps, e). MinioCall c ListCannedPolicies (Policies ps e))"

definition emit_event ::
    "'w env \<Rightarrow> any_object \<Rightarrow> event_type \<Rightarrow> string \<Rightarrow> event_message \<Rightarrow> ('w, unit) handler" where
  "emit_event X obj ty reason msg = ext (emit X obj ty reason msg) (\<lambda>_. EventCall obj ty reason msg)"

definition now :: "'w env \<Rightarrow> ('w, int) handler" where
  "now X = ask (clock X)"

lemmas api_defs = api_get_def api_create_def api_update_def api_delete_def api_status_update_def
  list_buckets_def list_accounts_def list_providers_def minio_do_def bucket_exists_def
  list_users_def list_service_accounts_def add_service_account_def list_canned_policies_def
  emit_event_def now_def

lemma tr_api_get [tr_intros]:
  "(\<And>e x. Q (e, x) [tag (Get key) e x]) \<Longrightarrow> tr (api_get k tag key obj) Q"
  by (auto simp: api_defs intro!: tr_ext)

lemma tr_api_create [tr_intros]:
  "(\<And>e x. Q (e, x) [tag (Create obj) e x]) \<Longrightarrow> tr (api_create k tag obj) Q"
  by (auto simp: api_defs intro!: tr_ext)

lemma tr_api_update [tr_intros]:
  "(\<And>e x. Q (e, x) [tag (Update obj) e x]) \<Longrightarrow> tr (api_update k tag obj) Q"
  by (auto simp: api_defs intro!: tr_ext)

lemma tr_api_delete [tr_intros]:
  "(\<And>e x. Q (e, x) [tag (Delete obj) e x]) \<Longrightarrow> tr (api_delete k tag obj) Q"
  by (auto simp: api_defs intro!: tr_ext)

lemma tr_api_status_update [tr_intros]:
  "(\<And>e x. Q (e, x) [tag (StatusUpdate obj) e x]) \<Longrightarrow> tr (api_status_update k tag obj) Q"
  by (auto simp: api_defs intro!: tr_ext)

lemma tr_list_buckets [tr_intros]:
  "(\<And>e l. Q (e, l) [ListBuckets sel e l]) \<Longrightarrow> tr (list_buckets X sel) Q"
  by (auto simp: api_defs intro!: tr_ext)

lemma tr_list_accounts [tr_intros]:
  "(\<And>e l. Q (e, l) [ListAccounts sel e l]) \<Longrightarrow> tr (list_accounts X sel) Q"
  by (auto simp: api_defs intro!: tr_ext)

lemma tr_list_providers [tr_intros]:
  "(\<And>e l. Q (e, l) [ListProviders sel e l]) \<Longrightarrow> tr (list_providers X sel) Q"
  by (auto simp: api_defs intro!: tr_ext)

lemma tr_minio_do [tr_intros]:
  "(\<And>e. Q e [MinioCall c req (Done e)]) \<Longrightarrow> tr (minio_do X c req) Q"
  by (auto simp: api_defs intro!: tr_ext)

lemma tr_bucket_exists [tr_intros]:
  "(\<And>ok e. Q (ok, e) [MinioCall c (BucketExists n) (Exists ok e)]) \<Longrightarrow> tr (bucket_exists X c n) Q"
  by (auto simp: api_defs intro!: tr_ext)

lemma tr_list_users [tr_intros]:
  "(\<And>us e. Q (us, e) [MinioCall c ListUsers (Users us e)]) \<Longrightarrow> tr (list_users X c) Q"
  by (auto simp: api_defs intro!: tr_ext)

lemma tr_list_service_accounts [tr_intros]:
  "(\<And>as e. Q (as, e) [MinioCall c (ListServiceAccounts u) (Accounts as e)]) \<Longrightarrow>
     tr (list_service_accounts X c u) Q"
  by (auto simp: api_defs intro!: tr_ext)

lemma tr_add_service_account [tr_intros]:
  "(\<And>ak sk e. Q ((ak, sk), e) [MinioCall c (AddServiceAccount u) (Credentials ak sk e)]) \<Longrightarrow>
     tr (add_service_account X c u) Q"
  by (auto simp: api_defs intro!: tr_ext)

lemma tr_list_canned_policies [tr_intros]:
  "(\<And>ps e. Q (ps, e) [MinioCall c ListCannedPolicies (Policies ps e)]) \<Longrightarrow>
     tr (list_canned_policies X c) Q"
  by (auto simp: api_defs intro!: tr_ext)

lemma tr_emit_event [tr_intros]:
  "Q () [EventCall obj ty reason msg] \<Longrightarrow> tr (emit_event X obj ty reason msg) Q"
  by (auto simp: api_defs intro!: tr_ext)

lemma tr_now [tr_intros]: "(\<And>t. Q t []) \<Longrightarrow> tr (now X) Q"
  by (auto simp: api_defs intro!: tr_ask)

section \<open>The footprints of the recorded operations\<close>

lemma makes_api_get [footprint_intros]:
  "(\<And>e x. F (tag (Get key) e x)) \<Longrightarrow> makes F (api_get k tag key obj)"
  by (auto simp: api_defs intro!: makes_ext)

lemma makes_api_create [footprint_intros]:
  "(\<And>e x. F (tag (Create obj) e x)) \<Longrightarrow> makes F (api_create k tag obj)"
  by (auto simp: api_defs intro!: makes_ext)

lemma makes_api_update [footprint_intros]:
  "(\<And>e x. F (tag (Update obj) e x)) \<Longrightarrow> makes F (api_update k tag obj)"
  by (auto simp: api_defs intro!: makes_ext)

lemma makes_api_delete [footprint_intros]:
  "(\<And>e x. F (tag (Delete obj) e x)) \<Longrightarrow> makes F (api_delete k tag obj)"
  by (auto simp: api_defs intro!: makes_ext)

lemma makes_api_status_update [footprint_intros]:
  "(\<And>e x. F (tag (StatusUpdate obj) e x)) \<Longrightarrow> makes F (api_status_update k tag obj)"
  by (auto simp: api_defs intro!: makes_ext)

lemma makes_lists [footprint_intros]:
  "(\<And>e l. F (ListBuckets sel e l)) \<Longrightarrow> makes F (list_buckets X sel)"
  "(\<And>e l. F (ListAccounts sel e l)) \<Longrightarrow> makes F (list_accounts X sel)"
  "(\<And>e l. F (ListProviders sel e l)) \<Longrightarrow> makes F (list_providers X sel)"
  by (auto simp: api_defs intro!: makes_ext)

lemma makes_minio [footprint_intros]:
  "(\<And>e. F (MinioCall c req (Done e))) \<Longrightarrow> makes F (minio_do X c req)"
  "(\<And>ok e. F (MinioCall c (BucketExists n) (Exists ok e))) \<Longrightarrow> makes F (bucket_exists X c n)"
  "(\<And>us e. F (MinioCall c ListUsers (Users us e))) \<Longrightarrow> makes F (list_users X c)"
  "(\<And>as e. F (MinioCall c (ListServiceAccounts u) (Accounts as e))) \<Longrightarrow> makes F (list_service_accounts X c u)"
  "(\<And>ak sk e. F (MinioCall c (AddServiceAccount u) (Credentials ak sk e))) \<Longrightarrow> makes F (add_service_account X c u)"
  "(\<And>ps e. F (MinioCall c ListCannedPolicies (Policies ps e))) \<Longrightarrow> makes F (list_canned_policies X c)"
  by (auto simp: api_defs intro!: makes_ext)

lemma makes_emit_event [footprint_intros]: "F (EventCall obj ty reason msg) \<Longrightarrow> makes F (emit_event X obj ty reason msg)"
  by (auto simp: api_defs intro!: makes_ext)

lemma makes_now [footprint_intros]: "makes F (now X)"
  by (auto simp: api_defs intro!: makes_ask)

end
