(* ===== verification/Promises.thy ===== *)
theory Promises imports Environment begin

text \<open>
  What the documentation of the packages outside the repository promises, as predicates on
  an environment. Each is a hypothesis of the theorems that need it, and the reference
  environment of theory \<open>Reference_Env\<close> keeps all of them.
\<close>

section \<open>apimachinery: conditions, owner references, errors\<close>

definition same_condition :: "condition \<Rightarrow> condition \<Rightarrow> bool" where
  "same_condition c d \<longleftrightarrow> cd_type c = cd_type d \<and> cd_status c = cd_status d
     \<and> cd_reason c = cd_reason d \<and> cd_message c = cd_message d
     \<and> cd_observedGeneration c = cd_observedGeneration d"

text \<open>
  \<^verbatim>\<open>meta.SetStatusCondition\<close> updates the condition of the type, or appends it, and sets its
  transition time itself; \<^verbatim>\<open>RemoveStatusCondition\<close> removes a type; \<^verbatim>\<open>FindStatusCondition\<close>
  finds a type; \<^verbatim>\<open>IsStatusConditionTrue\<close> asks for it with status true.
\<close>

definition set_condition_promise :: "'w env \<Rightarrow> bool" where
  "set_condition_promise X \<longleftrightarrow> (\<forall>t cs c.
     (\<exists>d. find_condition X (set_condition X t cs c) (cd_type c) = Some d \<and> same_condition d c)
   \<and> (\<forall>ty. ty \<noteq> cd_type c \<longrightarrow>
        find_condition X (set_condition X t cs c) ty = find_condition X cs ty))"

definition remove_condition_promise :: "'w env \<Rightarrow> bool" where
  "remove_condition_promise X \<longleftrightarrow> (\<forall>cs ty.
     find_condition X (remove_condition X cs ty) ty = None
   \<and> (\<forall>ty'. ty' \<noteq> ty \<longrightarrow>
        find_condition X (remove_condition X cs ty) ty' = find_condition X cs ty'))"

definition find_condition_promise :: "'w env \<Rightarrow> bool" where
  "find_condition_promise X \<longleftrightarrow> (\<forall>cs ty.
     (condition_true X cs ty \<longleftrightarrow>
        (\<exists>c. find_condition X cs ty = Some c \<and> cd_status c = ConditionTrue))
   \<and> (find_condition X cs ty = None \<longleftrightarrow> ty \<notin> cd_type ` set cs))"

definition condition_promise :: "'w env \<Rightarrow> bool" where
  "condition_promise X \<longleftrightarrow>
     set_condition_promise X \<and> remove_condition_promise X \<and> find_condition_promise X"

text \<open>\<^verbatim>\<open>metav1.GetControllerOf\<close> returns the owner reference that is marked as the controller.\<close>

definition controller_promise :: "'w env \<Rightarrow> bool" where
  "controller_promise X \<longleftrightarrow>
     (\<forall>rs. get_controller_of X rs = List.find (\<lambda>r. or_controller r = Some True) rs)"

text \<open>\<^verbatim>\<open>schema.ParseGroupVersion\<close> reads back what \<^verbatim>\<open>GroupVersion.String\<close> printed.\<close>

definition group_version_promise :: "'w env \<Rightarrow> bool" where
  "group_version_promise X \<longleftrightarrow>
     (\<forall>gv. gv_group gv \<noteq> '''' \<and> CHR ''/'' \<notin> set (gv_group gv @ gv_version gv) \<longrightarrow>
       parse_group_version X (group_version_string X gv) = Inr gv)"

text \<open>\<^verbatim>\<open>client.IgnoreNotFound\<close> turns a not-found error into nil and keeps every other error.\<close>

definition not_found_promise :: "'w env \<Rightarrow> bool" where
  "not_found_promise X \<longleftrightarrow> ignore_not_found X None = None
     \<and> (\<forall>e. ignore_not_found X (Some e) = (if is_not_found X e then None else Some e))"

text \<open>\<^verbatim>\<open>multierr.Combine\<close> is nil exactly when every error is.\<close>

definition combine_promise :: "'w env \<Rightarrow> bool" where
  "combine_promise X \<longleftrightarrow> (\<forall>es. combine X es = None \<longleftrightarrow> (\<forall>e \<in> set es. e = None))"

section \<open>controller-runtime: finalizers\<close>

text \<open>
  \<^verbatim>\<open>controllerutil.AddFinalizer\<close> adds a finalizer that is not present and says whether it did;
  \<^verbatim>\<open>RemoveFinalizer\<close> removes it; both leave the other finalizers.
\<close>

definition finalizer_promise :: "'w env \<Rightarrow> bool" where
  "finalizer_promise X \<longleftrightarrow>
     (\<forall>fs f. fst (add_finalizer X fs f) \<longleftrightarrow> f \<notin> set fs)
   \<and> (\<forall>fs f. set (snd (add_finalizer X fs f)) = insert f (set fs))
   \<and> (\<forall>fs f. set (remove_finalizer X fs f) = set fs - {f})"

section \<open>equality.Semantic\<close>

text \<open>
  Values of different types are never deeply equal, and a value equals itself.
\<close>

fun go_value_type :: "go_value \<Rightarrow> string" where
  "go_value_type (BucketPtr _) = ''*v1alpha1.Bucket''"
| "go_value_type (SecretValue _) = ''v1.Secret''"
| "go_value_type (SecretPtr _) = ''*v1.Secret''"

definition semantic_promise :: "'w env \<Rightarrow> bool" where
  "semantic_promise X \<longleftrightarrow> (\<forall>a. semantic_equal X a a)
     \<and> (\<forall>a b. go_value_type a \<noteq> go_value_type b \<longrightarrow> \<not> semantic_equal X a b)"

section \<open>Consequences used as rewrite rules\<close>

lemma condition_true_iff:
  "condition_promise X \<Longrightarrow> condition_true X cs ty \<longleftrightarrow>
     (\<exists>c. find_condition X cs ty = Some c \<and> cd_status c = ConditionTrue)"
  by (simp add: condition_promise_def find_condition_promise_def)

lemma find_condition_None_iff:
  "condition_promise X \<Longrightarrow> find_condition X cs ty = None \<longleftrightarrow> ty \<notin> cd_type ` set cs"
  by (simp add: condition_promise_def find_condition_promise_def)

lemma find_set_other:
  "condition_promise X \<Longrightarrow> ty \<noteq> cd_type c \<Longrightarrow>
     find_condition X (set_condition X t cs c) ty = find_condition X cs ty"
  by (simp add: condition_promise_def set_condition_promise_def)

lemma find_remove_same:
  "condition_promise X \<Longrightarrow> find_condition X (remove_condition X cs ty) ty = None"
  by (simp add: condition_promise_def remove_condition_promise_def)

lemma find_remove_other:
  "condition_promise X \<Longrightarrow> ty' \<noteq> ty \<Longrightarrow>
     find_condition X (remove_condition X cs ty) ty' = find_condition X cs ty'"
  by (simp add: condition_promise_def remove_condition_promise_def)

lemma find_set_same:
  assumes "condition_promise X"
  obtains d where "find_condition X (set_condition X t cs c) (cd_type c) = Some d"
    and "same_condition d c"
  using assms by (force simp: condition_promise_def set_condition_promise_def)

lemma condition_true_set_same:
  assumes "condition_promise X" and "ty = cd_type c"
  shows "condition_true X (set_condition X t cs c) ty \<longleftrightarrow> cd_status c = ConditionTrue"
proof -
  obtain d where "find_condition X (set_condition X t cs c) (cd_type c) = Some d"
    and "same_condition d c" using find_set_same [OF assms(1)] .
  then show ?thesis using assms by (simp add: condition_true_iff same_condition_def)
qed

lemma condition_true_set_other:
  assumes "condition_promise X" and "ty \<noteq> cd_type c"
  shows "condition_true X (set_condition X t cs c) ty = condition_true X cs ty"
  using assms by (simp add: condition_true_iff find_set_other)

lemma condition_true_remove_same:
  "condition_promise X \<Longrightarrow> \<not> condition_true X (remove_condition X cs ty) ty"
  by (simp add: condition_true_iff find_remove_same)

lemma condition_true_remove_other:
  "condition_promise X \<Longrightarrow> ty' \<noteq> ty \<Longrightarrow>
     condition_true X (remove_condition X cs ty) ty' = condition_true X cs ty'"
  by (simp add: condition_true_iff find_remove_other)

lemma find_set_not_None:
  assumes "condition_promise X"
  shows "find_condition X (set_condition X t cs c) (cd_type c) \<noteq> None"
proof -
  obtain d where "find_condition X (set_condition X t cs c) (cd_type c) = Some d"
    using find_set_same [OF assms] .
  then show ?thesis by simp
qed

lemma set_condition_not_Nil:
  assumes "condition_promise X"
  shows "set_condition X t cs c \<noteq> []"
  using find_set_not_None [OF assms, of t cs c]
    find_condition_None_iff [OF assms, of "set_condition X t cs c" "cd_type c"] by force

lemmas condition_simps = condition_true_set_same condition_true_set_other
  condition_true_remove_same condition_true_remove_other find_set_other find_remove_same
  find_remove_other find_set_not_None set_condition_not_Nil

lemma semantic_refl: "semantic_promise X \<Longrightarrow> semantic_equal X a a"
  by (simp add: semantic_promise_def)

lemma semantic_secret_pointer:
  "semantic_promise X \<Longrightarrow> \<not> semantic_equal X (SecretValue s) (SecretPtr s')"
  by (simp add: semantic_promise_def)

lemma combine_Some:
  assumes "combine_promise X"
  obtains y where "combine X [Some e, e'] = Some y"
  using assms by (cases "combine X [Some e, e']") (auto simp: combine_promise_def)

lemma combine_not_None:
  "combine_promise X \<Longrightarrow> combine X (Some e # es) \<noteq> None"
  by (simp add: combine_promise_def)

end
