(* ===== verification/Reference_Env.thy ===== *)
theory Reference_Env imports Promises begin

text \<open>
  A reference environment: an executable API server (objects under their keys, a status
  subresource, deletion that waits for the finalizers) and an executable MinIO (buckets,
  users, service accounts, policies), with the helper functions of apimachinery and
  controller-runtime written out. It is not a model of those systems. It shows that the
  promises of theory \<open>Promises\<close> can be kept together, and the witnesses of the theorems
  run the handlers on it.
\<close>

section \<open>The world\<close>

record sim =
  sim_buckets :: "(nsname \<times> bucket) list"
  sim_accounts :: "(nsname \<times> account) list"
  sim_providers :: "(nsname \<times> provider) list"
  sim_secrets :: "(nsname \<times> secret) list"
  sim_clock :: int
  sim_keys :: nat
  sim_minio_buckets :: "string list"
  sim_users :: "string list"
  sim_keys_of :: "(string \<times> string) list"
  sim_policies :: "(string \<times> string) list"
  sim_attached :: "(string \<times> string) list"

definition empty_sim :: sim where
  "empty_sim = \<lparr>sim_buckets = [], sim_accounts = [], sim_providers = [], sim_secrets = [],
     sim_clock = 1000, sim_keys = 0, sim_minio_buckets = [], sim_users = [], sim_keys_of = [],
     sim_policies = [], sim_attached = []\<rparr>"

definition start :: "sim \<Rightarrow> sim st" where
  "start w = \<lparr>world = w, trace = []\<rparr>"

section \<open>The API server\<close>

definition not_found :: go_err where "not_found = External 404 ''not found''"
definition already_exists :: go_err where "already_exists = External 409 ''already exists''"

definition meta_key :: "object_meta \<Rightarrow> nsname" where
  "meta_key m = \<lparr>nn_name = om_name m, nn_namespace = om_namespace m\<rparr>"

fun put :: "'k \<Rightarrow> 'v \<Rightarrow> ('k \<times> 'v) list \<Rightarrow> ('k \<times> 'v) list" where
  "put k v [] = [(k, v)]"
| "put k v ((k', v') # r) = (if k' = k then (k, v) # r else (k', v') # put k v r)"

definition drop_key :: "'k \<Rightarrow> ('k \<times> 'v) list \<Rightarrow> ('k \<times> 'v) list" where
  "drop_key k l = filter (\<lambda>(k', _). k' \<noteq> k) l"

text \<open>
  \<open>store sel upd key merge merge_status gone kept select\<close>: the client for the objects kept in
  one component of the world. \<open>merge\<close> and \<open>merge_status\<close> say what an update and a status
  update keep of the stored object, \<open>gone\<close> what a deletion leaves of it, and \<open>kept\<close> whether
  an updated object stays: a deleted object goes with its last finalizer.
\<close>

definition store :: "(sim \<Rightarrow> (nsname \<times> 'o) list) \<Rightarrow> ((nsname \<times> 'o) list \<Rightarrow> sim \<Rightarrow> sim) \<Rightarrow>
    ('o \<Rightarrow> nsname) \<Rightarrow> ('o \<Rightarrow> 'o \<Rightarrow> 'o) \<Rightarrow> ('o \<Rightarrow> 'o \<Rightarrow> 'o) \<Rightarrow> ('o \<Rightarrow> 'o option) \<Rightarrow> ('o \<Rightarrow> bool) \<Rightarrow>
    (string \<times> string \<Rightarrow> 'o \<Rightarrow> bool) \<Rightarrow> ('o, sim) kube" where
  "store sel upd key merge merge_status gone kept select = \<lparr>
     k_get = (\<lambda>k obj w. case map_of (sel w) k of
        None \<Rightarrow> ((Some not_found, obj), w) | Some o' \<Rightarrow> ((None, o'), w)),
     k_create = (\<lambda>obj w. case map_of (sel w) (key obj) of
        None \<Rightarrow> ((None, obj), upd (put (key obj) obj (sel w)) w)
      | Some _ \<Rightarrow> ((Some already_exists, obj), w)),
     k_update = (\<lambda>obj w. case map_of (sel w) (key obj) of
        None \<Rightarrow> ((Some not_found, obj), w)
      | Some old \<Rightarrow> let o' = merge old obj in ((None, o'),
          upd (if kept o' then put (key obj) o' (sel w) else drop_key (key obj) (sel w)) w)),
     k_delete = (\<lambda>obj w. case map_of (sel w) (key obj) of
        None \<Rightarrow> ((Some not_found, obj), w)
      | Some old \<Rightarrow> ((None, obj),
          (case gone old of None \<Rightarrow> upd (drop_key (key obj) (sel w)) w
           | Some o' \<Rightarrow> upd (put (key obj) o' (sel w)) w))),
     k_status_update = (\<lambda>obj w. case map_of (sel w) (key obj) of
        None \<Rightarrow> ((Some not_found, obj), w)
      | Some old \<Rightarrow> let o' = merge_status old obj in ((None, o'), upd (put (key obj) o' (sel w)) w)),
     k_list = (\<lambda>s w. ((None, filter (\<lambda>obj. case s of None \<Rightarrow> True | Some p \<Rightarrow> select p obj)
        (map snd (sel w))), w))\<rparr>"

definition gone_meta :: "object_meta \<Rightarrow> object_meta option" where
  "gone_meta m = (if om_finalizers m = [] then None
     else Some (m\<lparr>om_deletionTimestamp := Some 1\<rparr>))"

definition kept_meta :: "object_meta \<Rightarrow> bool" where
  "kept_meta m \<longleftrightarrow> om_deletionTimestamp m = None \<or> om_finalizers m \<noteq> []"

definition ref_controller_of :: "owner_ref list \<Rightarrow> owner_ref option" where
  "ref_controller_of rs = List.find (\<lambda>r. or_controller r = Some True) rs"

definition select_bucket :: "string \<times> string \<Rightarrow> bucket \<Rightarrow> bool" where
  "select_bucket p b =
     (if fst p = ''metadata.name'' then b_name b = snd p
      else if fst p = ''.metadata.controller''
      then (case ref_controller_of (om_ownerReferences (b_meta b)) of
              None \<Rightarrow> False | Some r \<Rightarrow> or_name r = snd p)
      else False)"

definition bucket_store :: "(bucket, sim) kube" where
  "bucket_store = store sim_buckets (\<lambda>l. sim_buckets_update (\<lambda>_. l)) (\<lambda>b. meta_key (b_meta b))
     (\<lambda>old new. new\<lparr>b_status := b_status old\<rparr>) (\<lambda>old new. old\<lparr>b_status := b_status new\<rparr>)
     (\<lambda>old. map_option (\<lambda>m. old\<lparr>b_meta := m\<rparr>) (gone_meta (b_meta old))) (\<lambda>obj. kept_meta (b_meta obj))
     select_bucket"

definition account_store :: "(account, sim) kube" where
  "account_store = store sim_accounts (\<lambda>l. sim_accounts_update (\<lambda>_. l)) (\<lambda>a. meta_key (a_meta a))
     (\<lambda>old new. new\<lparr>a_status := a_status old\<rparr>) (\<lambda>old new. old\<lparr>a_status := a_status new\<rparr>)
     (\<lambda>old. map_option (\<lambda>m. old\<lparr>a_meta := m\<rparr>) (gone_meta (a_meta old))) (\<lambda>obj. kept_meta (a_meta obj))
     (\<lambda>_ _. False)"

definition provider_store :: "(provider, sim) kube" where
  "provider_store = store sim_providers (\<lambda>l. sim_providers_update (\<lambda>_. l)) (\<lambda>p. meta_key (p_meta p))
     (\<lambda>old new. new\<lparr>p_status := p_status old\<rparr>) (\<lambda>old new. old\<lparr>p_status := p_status new\<rparr>)
     (\<lambda>old. map_option (\<lambda>m. old\<lparr>p_meta := m\<rparr>) (gone_meta (p_meta old))) (\<lambda>obj. kept_meta (p_meta obj))
     (\<lambda>_ _. False)"

definition secret_store :: "(secret, sim) kube" where
  "secret_store = store sim_secrets (\<lambda>l. sim_secrets_update (\<lambda>_. l)) (\<lambda>s. meta_key (sec_meta s))
     (\<lambda>old new. new) (\<lambda>old new. old)
     (\<lambda>old. map_option (\<lambda>m. old\<lparr>sec_meta := m\<rparr>) (gone_meta (sec_meta old))) (\<lambda>obj. kept_meta (sec_meta obj))
     (\<lambda>_ _. False)"

section \<open>MinIO\<close>

definition no_such_user :: go_err where "no_such_user = External 1 ''no such user''"

fun ref_minio :: "minio_request \<Rightarrow> sim \<Rightarrow> go_err option \<times> sim" where
  "ref_minio (MakeBucket n) w =
     (if n \<in> set (sim_minio_buckets w) then (Some (External 2 ''bucket exists''), w)
      else (None, w\<lparr>sim_minio_buckets := sim_minio_buckets w @ [n]\<rparr>))"
| "ref_minio (RemoveBucket n) w =
     (if n \<in> set (sim_minio_buckets w)
      then (None, w\<lparr>sim_minio_buckets := filter (\<lambda>m. m \<noteq> n) (sim_minio_buckets w)\<rparr>)
      else (Some (External 3 ''no such bucket''), w))"
| "ref_minio (RemoveBucketWithOptions n _) w =
     (if n \<in> set (sim_minio_buckets w)
      then (None, w\<lparr>sim_minio_buckets := filter (\<lambda>m. m \<noteq> n) (sim_minio_buckets w)\<rparr>)
      else (Some (External 3 ''no such bucket''), w))"
| "ref_minio (AddUser u _) w = (None, w\<lparr>sim_users := u # filter (\<lambda>v. v \<noteq> u) (sim_users w)\<rparr>)"
| "ref_minio (RemoveUser u) w =
     (if u \<in> set (sim_users w)
      then (None, w\<lparr>sim_users := filter (\<lambda>v. v \<noteq> u) (sim_users w),
        sim_keys_of := filter (\<lambda>(v, _). v \<noteq> u) (sim_keys_of w)\<rparr>)
      else (Some no_such_user, w))"
| "ref_minio (DeleteServiceAccount k) w =
     (None, w\<lparr>sim_keys_of := filter (\<lambda>(_, k'). k' \<noteq> k) (sim_keys_of w)\<rparr>)"
| "ref_minio (AddCannedPolicy n d) w = (None, w\<lparr>sim_policies := put n d (sim_policies w)\<rparr>)"
| "ref_minio (SetPolicy ps u _) w = (None, w\<lparr>sim_attached := put u ps (sim_attached w)\<rparr>)"
| "ref_minio _ w = (None, w)"

definition ref_add_account :: "string \<Rightarrow> sim \<Rightarrow> ((string \<times> string) \<times> go_err option) \<times> sim" where
  "ref_add_account u w = (let ak = ''AK'' @ replicate (sim_keys w) CHR ''x'' in
     (((ak, ''SK''), None), w\<lparr>sim_keys := Suc (sim_keys w), sim_keys_of := (u, ak) # sim_keys_of w\<rparr>))"

section \<open>The helpers of the Kubernetes packages\<close>

fun ref_is_not_found :: "go_err \<Rightarrow> bool" where
  "ref_is_not_found (External n _) = (n = 404)"
| "ref_is_not_found (Wrapf _ e) = ref_is_not_found e"
| "ref_is_not_found _ = False"

fun ref_set_condition :: "int \<Rightarrow> condition list \<Rightarrow> condition \<Rightarrow> condition list" where
  "ref_set_condition t [] c =
     [if cd_lastTransitionTime c = 0 then c\<lparr>cd_lastTransitionTime := t\<rparr> else c]"
| "ref_set_condition t (d # ds) c =
     (if cd_type d = cd_type c
      then c\<lparr>cd_lastTransitionTime := if cd_status d = cd_status c then cd_lastTransitionTime d
             else if cd_lastTransitionTime c = 0 then t else cd_lastTransitionTime c\<rparr> # ds
      else d # ref_set_condition t ds c)"

definition ref_find_condition :: "condition list \<Rightarrow> string \<Rightarrow> condition option" where
  "ref_find_condition cs ty = List.find (\<lambda>c. cd_type c = ty) cs"

definition ref_parse_gv :: "string \<Rightarrow> go_err + group_version" where
  "ref_parse_gv s = (case split_on (CHR ''/'') s of
     [v] \<Rightarrow> Inr \<lparr>gv_group = '''', gv_version = v\<rparr>
   | [g, v] \<Rightarrow> Inr \<lparr>gv_group = g, gv_version = v\<rparr>
   | _ \<Rightarrow> Inl (External 5 ''unexpected GroupVersion string''))"

definition ref_gv_string :: "group_version \<Rightarrow> string" where
  "ref_gv_string gv =
     (if gv_group gv = '''' then gv_version gv else gv_group gv @ ''/'' @ gv_version gv)"

fun ref_kind :: "any_object \<Rightarrow> string" where
  "ref_kind (AnyBucket _) = ''Bucket''"
| "ref_kind (AnyAccount _) = ''BucketServiceAccount''"
| "ref_kind (AnyProvider _) = ''BucketProvider''"
| "ref_kind (AnySecret _) = ''Secret''"
| "ref_kind (AnyOther ty _) = ty"

definition ref_gvk :: "any_object \<Rightarrow> go_err + gvk" where
  "ref_gvk obj = (case obj of AnyOther _ _ \<Rightarrow> Inl (External 6 ''no kind registered'')
     | _ \<Rightarrow> Inr \<lparr>gvk_group_version = GroupVersion, gvk_kind = ref_kind obj\<rparr>)"

definition ref_owner :: "any_object \<Rightarrow> owner_ref" where
  "ref_owner obj = (let m = (case object_meta_of obj of Some m \<Rightarrow> m | None \<Rightarrow> new_meta '''' '''') in
     \<lparr>or_apiVersion = ref_gv_string GroupVersion, or_kind = ref_kind obj, or_name = om_name m,
      or_uid = om_uid m, or_controller = Some True, or_blockOwnerDeletion = Some True\<rparr>)"

definition ref_set_controller :: "any_object \<Rightarrow> object_meta \<Rightarrow> go_err option \<times> owner_ref list" where
  "ref_set_controller owner m = (let ref = ref_owner owner; rs = om_ownerReferences m in
     case ref_controller_of rs of
       None \<Rightarrow> (None, rs @ [ref])
     | Some r \<Rightarrow>
         (if or_kind r = or_kind ref \<and> or_name r = or_name ref
          then (None, map (\<lambda>q. if q = r then ref else q) rs)
          else (Some (External 7 ''already owned''), rs)))"

fun ref_semantic_equal :: "go_value \<Rightarrow> go_value \<Rightarrow> bool" where
  "ref_semantic_equal (BucketPtr a) (BucketPtr b) = (a = b)"
| "ref_semantic_equal (SecretValue a) (SecretValue b) = (a = b)"
| "ref_semantic_equal (SecretPtr a) (SecretPtr b) = (a = b)"
| "ref_semantic_equal _ _ = False"

definition ref_combine :: "go_err option list \<Rightarrow> go_err option" where
  "ref_combine es = (case filter (\<lambda>e. e \<noteq> None) es of
     [] \<Rightarrow> None
   | [e] \<Rightarrow> e
   | e # _ \<Rightarrow> (case e of None \<Rightarrow> None | Some v \<Rightarrow> Some (Errorf (Error v @ ''; ...''))))"

definition ref_template :: "string \<Rightarrow> bucket_access \<Rightarrow> go_err + string" where
  "ref_template t a = Inr (if t = ''{{ .Endpoint }}'' then ba_endpoint a else t)"

definition ref_sdk :: "string \<Rightarrow> string \<Rightarrow> string \<Rightarrow> bool \<Rightarrow> go_err + sdk_client" where
  "ref_sdk e ak sk sec = (if e = '''' then Inl (External 8 ''empty endpoint'')
     else Inr \<lparr>sdk_endpoint = e, sdk_accessKey = ak, sdk_secretKey = sk, sdk_secure = sec\<rparr>)"

section \<open>The environment\<close>

definition ref_env :: "sim env" where
  "ref_env = \<lparr>
     buckets = bucket_store, accounts = account_store,
     providers = provider_store, secrets = secret_store,
     madmin_new = ref_sdk, minio_new = ref_sdk,
     endpoint_url = (\<lambda>c. \<lparr>url_scheme = if sdk_secure c then ''https'' else ''http'',
                         url_host = sdk_endpoint c\<rparr>),
     minio = (\<lambda>_. ref_minio),
     minio_exists = (\<lambda>_ n w. ((n \<in> set (sim_minio_buckets w), None), w)),
     minio_users = (\<lambda>_ w. ((map_of (map (\<lambda>u. (u, ''enabled'')) (sim_users w)), None), w)),
     minio_accounts = (\<lambda>_ u w. ((map snd (filter (\<lambda>(v, _). v = u) (sim_keys_of w)), None), w)),
     minio_add_account = (\<lambda>_. ref_add_account),
     minio_policies = (\<lambda>_ w. ((map_of (sim_policies w), None), w)),
     admin_code = (\<lambda>e. if e = no_such_user then ''XMinioAdminNoSuchUser'' else ''''),
     emit = (\<lambda>_ _ _ _ w. ((), w)),
     clock = (\<lambda>w. (sim_clock w, w)),
     random_bytes = (\<lambda>n w. ((replicate n 0, None), w)),
     is_not_found = ref_is_not_found,
     ignore_not_found = (\<lambda>e. case e of None \<Rightarrow> None
        | Some v \<Rightarrow> if ref_is_not_found v then None else Some v),
     set_condition = ref_set_condition,
     remove_condition = (\<lambda>cs ty. filter (\<lambda>c. cd_type c \<noteq> ty) cs),
     find_condition = ref_find_condition,
     condition_true = (\<lambda>cs ty. case ref_find_condition cs ty of
        None \<Rightarrow> False | Some c \<Rightarrow> cd_status c = ConditionTrue),
     add_finalizer = (\<lambda>fs f. if f \<in> set fs then (False, fs) else (True, fs @ [f])),
     remove_finalizer = (\<lambda>fs f. filter (\<lambda>g. g \<noteq> f) fs),
     gvk_for_object = ref_gvk,
     group_version_string = ref_gv_string,
     parse_group_version = ref_parse_gv,
     get_controller_of = ref_controller_of,
     set_controller_reference = ref_set_controller,
     semantic_equal = ref_semantic_equal,
     combine = ref_combine,
     template_parse = (\<lambda>t. if t = ''{{'' then Some (External 9 ''unclosed action'') else None),
     template_execute = ref_template,
     marshal_policy = Inr\<rparr>"

section \<open>The reference environment keeps every promise\<close>

lemma ref_find_set_same:
  "\<exists>d. ref_find_condition (ref_set_condition t cs c) (cd_type c) = Some d \<and> same_condition d c"
  by (induction t cs c rule: ref_set_condition.induct)
    (auto simp: ref_find_condition_def same_condition_def)

lemma ref_find_set_other:
  "ty \<noteq> cd_type c \<Longrightarrow>
     ref_find_condition (ref_set_condition t cs c) ty = ref_find_condition cs ty"
  by (induction t cs c rule: ref_set_condition.induct) (auto simp: ref_find_condition_def)

lemma ref_find_remove:
  "ref_find_condition (filter (\<lambda>c. cd_type c \<noteq> ty) cs) ty' =
     (if ty' = ty then None else ref_find_condition cs ty')"
  by (induction cs) (auto simp: ref_find_condition_def)

lemma ref_find_None: "ref_find_condition cs ty = None \<longleftrightarrow> ty \<notin> cd_type ` set cs"
  by (auto simp: ref_find_condition_def List.find_None_iff)

lemma ref_condition_promise: "condition_promise ref_env"
  by (auto simp: condition_promise_def set_condition_promise_def remove_condition_promise_def
      find_condition_promise_def ref_env_def ref_find_set_same ref_find_set_other ref_find_remove
      ref_find_None split: option.splits dest: ref_find_None [THEN iffD2])

lemma ref_controller_promise: "controller_promise ref_env"
  by (simp add: controller_promise_def ref_env_def ref_controller_of_def)

lemma ref_group_version_promise: "group_version_promise ref_env"
  by (auto simp: group_version_promise_def ref_env_def ref_parse_gv_def ref_gv_string_def
      split_on_append_sep split_on_no_sep)

lemma ref_not_found_promise: "not_found_promise ref_env"
  by (simp add: not_found_promise_def ref_env_def)

lemma ref_combine_None: "ref_combine es = None \<longleftrightarrow> (\<forall>e \<in> set es. e = None)"
proof (cases "filter (\<lambda>e. e \<noteq> None) es")
  case Nil
  then show ?thesis by (simp add: ref_combine_def filter_empty_conv)
next
  case (Cons e r)
  then have "e \<in> set (filter (\<lambda>e. e \<noteq> None) es)" by simp
  then have "e \<in> set es" "e \<noteq> None" by simp_all
  with Cons show ?thesis by (auto simp: ref_combine_def split: list.splits)
qed

lemma ref_combine_promise: "combine_promise ref_env"
  by (simp add: combine_promise_def ref_env_def ref_combine_None)

lemma ref_finalizer_promise: "finalizer_promise ref_env"
  by (auto simp: finalizer_promise_def ref_env_def)

lemma ref_semantic_promise: "semantic_promise ref_env"
proof -
  have "ref_semantic_equal a a" for a by (cases a) simp_all
  moreover have "\<not> ref_semantic_equal a b" if "go_value_type a \<noteq> go_value_type b" for a b
    using that by (cases a; cases b) simp_all
  ultimately show ?thesis by (simp add: semantic_promise_def ref_env_def)
qed

lemmas ref_promises = ref_condition_promise ref_controller_promise ref_group_version_promise
  ref_not_found_promise ref_combine_promise ref_finalizer_promise ref_semantic_promise

text \<open>What a run on the reference environment unfolds: its functions one by one, never the whole record.\<close>

lemma store_simps:
  "k_get (store sel upd key merge merge_status gone kept select) k obj w = (case map_of (sel w) k of
     None \<Rightarrow> ((Some not_found, obj), w) | Some o' \<Rightarrow> ((None, o'), w))"
  "k_create (store sel upd key merge merge_status gone kept select) obj w = (case map_of (sel w) (key obj) of
     None \<Rightarrow> ((None, obj), upd (put (key obj) obj (sel w)) w)
   | Some _ \<Rightarrow> ((Some already_exists, obj), w))"
  "k_update (store sel upd key merge merge_status gone kept select) obj w = (case map_of (sel w) (key obj) of
     None \<Rightarrow> ((Some not_found, obj), w)
   | Some old \<Rightarrow> let o' = merge old obj in ((None, o'),
          upd (if kept o' then put (key obj) o' (sel w) else drop_key (key obj) (sel w)) w))"
  "k_delete (store sel upd key merge merge_status gone kept select) obj w = (case map_of (sel w) (key obj) of
     None \<Rightarrow> ((Some not_found, obj), w)
   | Some old \<Rightarrow> ((None, obj),
       (case gone old of None \<Rightarrow> upd (drop_key (key obj) (sel w)) w
        | Some o' \<Rightarrow> upd (put (key obj) o' (sel w)) w)))"
  "k_status_update (store sel upd key merge merge_status gone kept select) obj w = (case map_of (sel w) (key obj) of
     None \<Rightarrow> ((Some not_found, obj), w)
   | Some old \<Rightarrow> let o' = merge_status old obj in ((None, o'), upd (put (key obj) o' (sel w)) w))"
  "k_list (store sel upd key merge merge_status gone kept select) s w =
     ((None, filter (\<lambda>obj. case s of None \<Rightarrow> True | Some p \<Rightarrow> select p obj) (map snd (sel w))), w)"
  by (simp_all add: store_def)

lemma ref_env_simps:
  "buckets ref_env = bucket_store"
  "accounts ref_env = account_store"
  "providers ref_env = provider_store"
  "secrets ref_env = secret_store"
  "madmin_new ref_env = ref_sdk"
  "minio_new ref_env = ref_sdk"
  "endpoint_url ref_env = (\<lambda>c. \<lparr>url_scheme = if sdk_secure c then ''https'' else
     ''http'', url_host = sdk_endpoint c\<rparr>)"
  "minio ref_env = (\<lambda>_. ref_minio)"
  "minio_exists ref_env = (\<lambda>_ n w. ((n \<in> set (sim_minio_buckets w), None), w))"
  "minio_users ref_env = (\<lambda>_ w. ((map_of (map (\<lambda>u. (u, ''enabled'')) (sim_users
     w)), None), w))"
  "minio_accounts ref_env = (\<lambda>_ u w. ((map snd (filter (\<lambda>(v, _). v = u)
     (sim_keys_of w)), None), w))"
  "minio_add_account ref_env = (\<lambda>_. ref_add_account)"
  "minio_policies ref_env = (\<lambda>_ w. ((map_of (sim_policies w), None), w))"
  "admin_code ref_env = (\<lambda>e. if e = no_such_user then ''XMinioAdminNoSuchUser'' else '''')"
  "emit ref_env = (\<lambda>_ _ _ _ w. ((), w))"
  "clock ref_env = (\<lambda>w. (sim_clock w, w))"
  "random_bytes ref_env = (\<lambda>n w. ((replicate n 0, None), w))"
  "is_not_found ref_env = ref_is_not_found"
  "ignore_not_found ref_env = (\<lambda>e. case e of None \<Rightarrow> None | Some v
     \<Rightarrow> if ref_is_not_found v then None else Some v)"
  "set_condition ref_env = ref_set_condition"
  "remove_condition ref_env = (\<lambda>cs ty. filter (\<lambda>c. cd_type c \<noteq> ty) cs)"
  "find_condition ref_env = ref_find_condition"
  "condition_true ref_env = (\<lambda>cs ty. case ref_find_condition cs ty of None
     \<Rightarrow> False | Some c \<Rightarrow> cd_status c = ConditionTrue)"
  "add_finalizer ref_env = (\<lambda>fs f. if f \<in> set fs then (False, fs) else (True, fs @
     [f]))"
  "remove_finalizer ref_env = (\<lambda>fs f. filter (\<lambda>g. g \<noteq> f) fs)"
  "gvk_for_object ref_env = ref_gvk"
  "group_version_string ref_env = ref_gv_string"
  "parse_group_version ref_env = ref_parse_gv"
  "get_controller_of ref_env = ref_controller_of"
  "set_controller_reference ref_env = ref_set_controller"
  "semantic_equal ref_env = ref_semantic_equal"
  "combine ref_env = ref_combine"
  "template_parse ref_env = (\<lambda>t. if t = ''{{'' then Some (External 9 ''unclosed action'')
     else None)"
  "template_execute ref_env = ref_template"
  "marshal_policy ref_env = Inr"
  by (simp_all add: ref_env_def)

lemmas ref_defs = ref_env_simps bucket_store_def account_store_def provider_store_def secret_store_def
  store_simps start_def empty_sim_def meta_key_def drop_key_def gone_meta_def kept_meta_def ref_find_condition_def
  ref_gvk_def ref_owner_def ref_set_controller_def ref_controller_of_def ref_combine_def
  ref_template_def ref_sdk_def ref_add_account_def select_bucket_def not_found_def
  already_exists_def no_such_user_def ref_gv_string_def GroupVersion_def new_meta_def
  calls_def result_def final_def api_defs zero_secret_def zero_bucket_def zero_account_def
  zero_provider_def Let_def

end
