(* ===== verification/MinioClient.thy ===== *)
theory MinioClient imports Json Base64 Reference_Env begin

text \<open>
  \<^verbatim>\<open>src/pkg/mc/minio.go\<close>: the policy document of a bucket, the pair of SDK clients with its
  accessors, and the generation of passwords. The lemmas give the exact policy document for
  every name that is plain JSON text, and show that a password carries its 32 random bytes.
\<close>

section \<open>The policy document\<close>

text \<open>The constant \<^verbatim>\<open>policy\<close>, cut at the two places where \<^verbatim>\<open>%[1]s\<close> puts the bucket.\<close>

definition policy_head :: string where
  "policy_head = join [CHR 0x0A]
    [''{'',
     ''    \"Version\": \"2012-10-17\",'',
     ''    \"Statement\": ['',
     ''        {'',
     ''            \"Effect\": \"Allow\",'',
     ''            \"Action\": ['',
     ''                \"s3:ListBucket\",'',
     replicate 4 (CHR 0x09) @ ''\"s3:GetBucketLocation\",'',
     ''                \"s3:ListAllMyBuckets\"'',
     ''            ],'',
     ''            \"Resource\": ['',
     ''                \"arn:aws:s3:::'']"

definition policy_middle :: string where
  "policy_middle = join [CHR 0x0A]
    [''\"'',
     ''            ]'',
     ''        },'',
     ''        {'',
     ''            \"Effect\": \"Allow\",'',
     ''            \"Action\": ['',
     ''                \"s3:*\"'',
     ''            ],'',
     ''            \"Resource\": ['',
     ''                \"arn:aws:s3:::'']"

definition policy_tail :: string where
  "policy_tail = join [CHR 0x0A] [''/*\"'', ''            ]'', ''        }'', ''    ]'', ''}'']"

definition policy :: "string \<Rightarrow> string" where
  "policy bucket = policy_head @ bucket @ policy_middle @ bucket @ policy_tail"

definition Policy :: "string \<Rightarrow> string go" where
  "Policy bucket = (case json_compact (policy bucket) of
     None \<Rightarrow> Panics ''invalid policy document'' | Some b \<Rightarrow> Returns b)"

section \<open>The client\<close>

record mc_client =
  AdminClient :: sdk_client
  Client :: sdk_client

definition New :: "'w env \<Rightarrow> string \<Rightarrow> string \<Rightarrow> string \<Rightarrow> bool \<Rightarrow> go_err + mc_client" where
  "New X endpoint accessKey secretKey secure =
     (case madmin_new X endpoint accessKey secretKey secure of
        Inl e \<Rightarrow> Inl (Wrapf ''failed to create minio admin client'' e)
      | Inr ac \<Rightarrow>
         (case minio_new X endpoint accessKey secretKey secure of
            Inl e \<Rightarrow> Inl (Wrapf ''failed to create minio client'' e)
          | Inr c \<Rightarrow> Inr \<lparr>AdminClient = ac, Client = c\<rparr>))"

definition URL :: "'w env \<Rightarrow> mc_client \<Rightarrow> url" where
  "URL X mc = endpoint_url X (Client mc)"

definition Endpoint :: "'w env \<Rightarrow> mc_client \<Rightarrow> string" where
  "Endpoint X mc = url_host (endpoint_url X (Client mc))"

definition Secure :: "'w env \<Rightarrow> mc_client \<Rightarrow> bool" where
  "Secure X mc \<longleftrightarrow> url_scheme (endpoint_url X (Client mc)) = ''https''"

section \<open>Passwords\<close>

definition GeneratePassword :: "'w env \<Rightarrow> ('w, string go) handler" where
  "GeneratePassword X = do {
     (b, err) \<leftarrow> ask (random_bytes X 32);
     case err of
       Some e \<Rightarrow> ret (Exits (''failed to generate password: '' @ Error e))
     | None \<Rightarrow> ret (Returns (encode b)) }"

text \<open>The random source never fails: \<^verbatim>\<open>crypto/rand\<close> reads from the operating system.\<close>

definition random_ok :: "'w env \<Rightarrow> bool" where
  "random_ok X \<longleftrightarrow> (\<forall>n w. snd (fst (random_bytes X n w)) = None)"

lemma tr_GeneratePassword [tr_intros]:
  "(\<And>bs. Q (Returns (encode bs)) []) \<Longrightarrow> (\<And>m. \<not> random_ok X \<Longrightarrow> Q (Exits m) []) \<Longrightarrow> tr (GeneratePassword X) Q"
  unfolding GeneratePassword_def tr_def
  by (auto simp: result_def final_def random_ok_def split: prod.splits option.splits)
    (metis fst_conv option.distinct(1) snd_conv)

section \<open>The compact form of the policy\<close>

definition compact_head :: string where
  "compact_head = ''{\"Version\":\"2012-10-17\",\"Statement\":[{\"Effect\":\"Allow\",\"Action\":[\"s3:ListBucket\",\"s3:GetBucketLocation\",\"s3:ListAllMyBuckets\"],\"Resource\":[\"arn:aws:s3:::''"

definition compact_middle :: string where
  "compact_middle = ''\"]},{\"Effect\":\"Allow\",\"Action\":[\"s3:*\"],\"Resource\":[\"arn:aws:s3:::''"

definition compact_tail :: string where
  "compact_tail = ''/*\"]}]}''"

lemma scan_head:
  "scan (BeginValue, []) policy_head =
     Some ((InString, [ArrayValue, ObjectValue, ArrayValue, ObjectValue]), compact_head)"
  by code_simp

lemma scan_middle:
  "scan (InString, [ArrayValue, ObjectValue, ArrayValue, ObjectValue]) policy_middle =
     Some ((InString, [ArrayValue, ObjectValue, ArrayValue, ObjectValue]), compact_middle)"
  by code_simp

lemma scan_tail:
  "scan (InString, [ArrayValue, ObjectValue, ArrayValue, ObjectValue]) policy_tail =
     Some ((EndTop, []), compact_tail)"
  by code_simp

lemma Policy_plain:
  assumes "\<forall>c \<in> set bucket. plain c"
  shows "Policy bucket = Returns (compact_head @ bucket @ compact_middle @ bucket @ compact_tail)"
  by (simp add: Policy_def json_compact_def policy_def scan_append scan_head scan_middle scan_tail
      scan_plain [OF assms] at_end_def)

section \<open>Properties\<close>

text \<open>
  C38. The policy document of a bucket. For a bucket name without quotes, backslashes and
  control characters (which no Kubernetes or S3 name has), \<^verbatim>\<open>mc.Policy\<close> does not panic, and
  its result is the compact JSON text with two statements: listing and locating for the
  bucket's own ARN, every S3 action for the objects of the bucket, and nothing else. Two
  buckets never get the same document.
\<close>
theorem policy_document:
  assumes "\<forall>c \<in> set bucket. plain c"
  shows "Policy bucket = Returns (
       ''{\"Version\":\"2012-10-17\",\"Statement\":[{\"Effect\":\"Allow\",\"Action\":[\"s3:ListBucket\",\"s3:GetBucketLocation\",\"s3:ListAllMyBuckets\"],\"Resource\":[\"arn:aws:s3:::'' @ bucket @
       ''\"]},{\"Effect\":\"Allow\",\"Action\":[\"s3:*\"],\"Resource\":[\"arn:aws:s3:::'' @ bucket @ ''/*\"]}]}'')
     \<and> (\<forall>other. (\<forall>c \<in> set other. plain c) \<and> Policy other = Policy bucket \<longrightarrow> other = bucket)"
proof -
  have "other = bucket"
    if "\<forall>c \<in> set other. plain c" and "Policy other = Policy bucket" for other
  proof -
    have "length other = length bucket"
      using arg_cong [OF that(2) [unfolded Policy_plain [OF that(1)] Policy_plain [OF assms] go.inject],
          of length] by simp
    then show ?thesis
      using that(2) unfolding Policy_plain [OF that(1)] Policy_plain [OF assms] by simp
  qed
  then show ?thesis
    using Policy_plain [OF assms]
    by (simp add: compact_head_def compact_middle_def compact_tail_def)
qed

theorem policy_document_witness:
  "\<exists>d. Policy ''bucket-sample'' = Returns d \<and> has_prefix d ''{\"Version\"''
     \<and> Policy ''other'' \<noteq> Policy ''bucket-sample''"
proof -
  have plain: "\<forall>c \<in> set ''bucket-sample''. plain c" "\<forall>c \<in> set ''other''. plain c"
    by (simp_all add: plain_def)
  show ?thesis
    using policy_document [OF plain(1)] plain(2) by (force simp: has_prefix_def)
qed

text \<open>
  C40. Passwords. When the random source fills the 32 bytes without an error, the generated
  password has 43 characters of the base64 alphabet, and decoding it gives the random bytes
  back, so no entropy is lost. When the source fails, the process exits.
\<close>
theorem generated_password:
  assumes "random_bytes X 32 (world s) = ((bs, err), w)" and "length bs = 32"
  shows "result (GeneratePassword X) s =
       (case err of None \<Rightarrow> Returns (encode bs)
        | Some e \<Rightarrow> Exits (''failed to generate password: '' @ Error e))
     \<and> length (encode bs) = 43 \<and> set (encode bs) \<subseteq> set alphabet \<and> decode (encode bs) = Some bs"
  using assms encode_alphabet [of bs]
  by (simp add: GeneratePassword_def result_def encode_length decode_encode split: option.splits)

theorem generated_password_witness:
  "\<exists>p. result (GeneratePassword ref_env) (start empty_sim) = Returns p \<and> length p = 43"
  using generated_password [of ref_env "start empty_sim" "replicate 32 0" None empty_sim]
  by (simp add: ref_env_def start_def)

end
