(* ===== verification/Recorder.thy ===== *)
theory Recorder imports Reference_Env begin

text \<open>
  \<^verbatim>\<open>src/pkg/recorder/recorder.go\<close>: the recorder through which the controllers emit
  Kubernetes events. The event sink behind it is a parameter; the reason is passed through
  \<^verbatim>\<open>strings.Title\<close>, which is written out for ASCII (every reason of the code is ASCII).
\<close>

definition is_letter :: "char \<Rightarrow> bool" where
  "is_letter c = (let n = of_char c :: nat in 65 \<le> n \<and> n \<le> 90 \<or> 97 \<le> n \<and> n \<le> 122)"

definition is_separator :: "char \<Rightarrow> bool" where
  "is_separator c = (let n = of_char c :: nat in
     n < 128 \<and> \<not> (is_letter c \<or> 48 \<le> n \<and> n \<le> 57 \<or> c = CHR ''_''))"

definition to_title :: "char \<Rightarrow> char" where
  "to_title c = (let n = of_char c :: nat in if 97 \<le> n \<and> n \<le> 122 then char_of (n - 32) else c)"

fun title_from :: "char \<Rightarrow> string \<Rightarrow> string" where
  "title_from prev [] = []"
| "title_from prev (c # cs) = (if is_separator prev then to_title c else c) # title_from c cs"

definition title :: "string \<Rightarrow> string" where
  "title s = title_from (CHR '' '') s"

section \<open>The recorder\<close>

definition rec_Event :: "'w env \<Rightarrow> any_object \<Rightarrow> string \<Rightarrow> string \<Rightarrow> ('w, unit) handler" where
  "rec_Event X obj reason message = emit_event X obj Normal (title reason) (Message message)"

definition rec_Eventf ::
    "'w env \<Rightarrow> any_object \<Rightarrow> string \<Rightarrow> string \<Rightarrow> string list \<Rightarrow> ('w, unit) handler" where
  "rec_Eventf X obj reason message args = emit_event X obj Normal (title reason) (Format message args)"

definition rec_Warn :: "'w env \<Rightarrow> any_object \<Rightarrow> string \<Rightarrow> string \<Rightarrow> ('w, unit) handler" where
  "rec_Warn X obj reason message = emit_event X obj Warning (title reason) (Message message)"

definition rec_Warnf ::
    "'w env \<Rightarrow> any_object \<Rightarrow> string \<Rightarrow> string \<Rightarrow> string list \<Rightarrow> ('w, unit) handler" where
  "rec_Warnf X obj reason message args = emit_event X obj Warning (title reason) (Format message args)"

definition rec_EmitEvent ::
    "'w env \<Rightarrow> any_object \<Rightarrow> string \<Rightarrow> go_err option \<Rightarrow> bool \<Rightarrow> ('w, unit) handler" where
  "rec_EmitEvent X obj opName err ignoreSuccess = (case err of
     None \<Rightarrow> (if \<not> ignoreSuccess
              then rec_Event X obj (opName @ ''Success'') (opName @ '' success'') else ret ())
   | Some e \<Rightarrow> rec_Warn X obj (opName @ ''Failure'') (Error e))"

section \<open>Recording is one event\<close>

lemma tr_rec_Event [tr_intros]:
  "Q () [EventCall obj Normal (title reason) (Message msg)] \<Longrightarrow> tr (rec_Event X obj reason msg) Q"
  unfolding rec_Event_def by (rule tr_emit_event)

lemma tr_rec_Eventf [tr_intros]:
  "Q () [EventCall obj Normal (title reason) (Format msg args)] \<Longrightarrow> tr (rec_Eventf X obj reason msg args) Q"
  unfolding rec_Eventf_def by (rule tr_emit_event)

lemma tr_rec_Warn [tr_intros]:
  "Q () [EventCall obj Warning (title reason) (Message msg)] \<Longrightarrow> tr (rec_Warn X obj reason msg) Q"
  unfolding rec_Warn_def by (rule tr_emit_event)

lemma tr_rec_Warnf [tr_intros]:
  "Q () [EventCall obj Warning (title reason) (Format msg args)] \<Longrightarrow> tr (rec_Warnf X obj reason msg args) Q"
  unfolding rec_Warnf_def by (rule tr_emit_event)

lemma makes_rec [footprint_intros]:
  "F (EventCall obj Normal (title reason) (Message msg)) \<Longrightarrow> makes F (rec_Event X obj reason msg)"
  "F (EventCall obj Normal (title reason) (Format msg args)) \<Longrightarrow> makes F (rec_Eventf X obj reason msg args)"
  "F (EventCall obj Warning (title reason) (Message msg)) \<Longrightarrow> makes F (rec_Warn X obj reason msg)"
  "F (EventCall obj Warning (title reason) (Format msg args)) \<Longrightarrow> makes F (rec_Warnf X obj reason msg args)"
  unfolding rec_Event_def rec_Eventf_def rec_Warn_def rec_Warnf_def by (rule makes_emit_event; assumption)+

text \<open>\<^verbatim>\<open>strings.Title\<close> only touches letters at the start of a word.\<close>

lemma title_from_length [simp]: "length (title_from p s) = length s"
  by (induction p s rule: title_from.induct) auto

lemma title_from_word:
  "\<not> is_separator p \<Longrightarrow> \<forall>c \<in> set s. \<not> is_separator c \<Longrightarrow> title_from p s = s"
  by (induction p s rule: title_from.induct) auto

lemma title_word:
  assumes "\<forall>c \<in> set s. \<not> is_separator c"
  shows "title s = (case s of [] \<Rightarrow> [] | c # cs \<Rightarrow> to_title c # cs)"
proof (cases s)
  case (Cons c cs)
  have "is_separator (CHR '' '')" by (simp add: is_separator_def is_letter_def)
  with Cons assms show ?thesis by (simp add: title_def title_from_word)
qed (simp add: title_def)

section \<open>The interface\<close>

text \<open>
  The \<^verbatim>\<open>Recorder\<close> interface is the record of its methods, and \<^verbatim>\<open>New\<close> makes one out of the sink for
  events, which is part of the environment.
\<close>

record 'w recorder_interface =
  r_EmitEvent :: "any_object \<Rightarrow> string \<Rightarrow> go_err option \<Rightarrow> bool \<Rightarrow> ('w, unit) handler"
  r_Event :: "any_object \<Rightarrow> string \<Rightarrow> string \<Rightarrow> ('w, unit) handler"
  r_Eventf :: "any_object \<Rightarrow> string \<Rightarrow> string \<Rightarrow> string list \<Rightarrow> ('w, unit) handler"
  r_Warn :: "any_object \<Rightarrow> string \<Rightarrow> string \<Rightarrow> ('w, unit) handler"
  r_Warnf :: "any_object \<Rightarrow> string \<Rightarrow> string \<Rightarrow> string list \<Rightarrow> ('w, unit) handler"

definition recorder_New :: "'w env \<Rightarrow> 'w recorder_interface" where
  "recorder_New X = \<lparr>r_EmitEvent = rec_EmitEvent X, r_Event = rec_Event X, r_Eventf = rec_Eventf X,
     r_Warn = rec_Warn X, r_Warnf = rec_Warnf X\<rparr>"

text \<open>The outcome of an operation is one event, or none for a success that is not to be told.\<close>

lemma tr_EmitEvent:
  "tr (r_EmitEvent (recorder_New X) obj opName err ignoreSuccess) (\<lambda>_ t. t = (case err of
     Some e \<Rightarrow> [EventCall obj Warning (title (opName @ ''Failure'')) (Message (Error e))]
   | None \<Rightarrow> if ignoreSuccess then []
       else [EventCall obj Normal (title (opName @ ''Success'')) (Message (opName @ '' success''))]))"
  unfolding recorder_New_def recorder_interface.simps rec_EmitEvent_def
  by (intro tr_intros) (auto intro!: tr_intros split: option.splits)

end
