(* ===== verification/Providers.thy ===== *)
theory Providers imports MinioClient Recorder begin

text \<open>
  \<^verbatim>\<open>src/controllers/secret_ref.go\<close> and \<^verbatim>\<open>bucketprovider_controller.go\<close>: reading a credential
  out of a secret, making a MinIO client for a provider, finding the default provider, and
  the reconciliation of a \<^verbatim>\<open>BucketProvider\<close>. The lemmas say which calls each of them makes.
\<close>

section \<open>Common pieces of the controllers\<close>

text \<open>\<^verbatim>\<open>DeletionTimestamp.IsZero()\<close>: the pointer is nil or the time is zero.\<close>

definition is_zero :: "int option \<Rightarrow> bool" where
  "is_zero t = (case t of None \<Rightarrow> True | Some v \<Rightarrow> v = 0)"

text \<open>A \<^verbatim>\<open>metav1.Condition\<close> literal without a transition time.\<close>

definition cond :: "string \<Rightarrow> cond_status \<Rightarrow> string \<Rightarrow> string \<Rightarrow> int \<Rightarrow> condition" where
  "cond ty st reason msg gen = \<lparr>cd_type = ty, cd_status = st, cd_reason = reason, cd_message = msg,
     cd_observedGeneration = gen, cd_lastTransitionTime = 0\<rparr>"

lemma cond_simps [simp]: "cd_type (cond ty st r m g) = ty" "cd_status (cond ty st r m g) = st"
  "cd_reason (cond ty st r m g) = r" "cd_message (cond ty st r m g) = m"
  "cd_observedGeneration (cond ty st r m g) = g"
  by (simp_all add: cond_def)

text \<open>
  The constants \<^verbatim>\<open>finalizer\<close>, \<^verbatim>\<open>prefix\<close> and \<^verbatim>\<open>saSecretSuffix\<close> and the function \<^verbatim>\<open>name\<close>, which
  names the MinIO user of an account and the MinIO policy of a bucket.
\<close>

definition finalizer :: string where
  "finalizer = ''bucket.s3.linka.cloud/finalizer''"

definition prefix_name :: string where
  "prefix_name = ''bucket.s3.linka.cloud/''"

definition name :: "string \<Rightarrow> string" where
  "name n = prefix_name @ n"

definition saSecretSuffix :: string where
  "saSecretSuffix = ''-sa''"

lemma name_inject [simp]: "name m = name n \<longleftrightarrow> m = n"
  by (simp add: name_def)

section \<open>Secret references and clients\<close>

definition fetchSecretRef :: "'w env \<Rightarrow> secret_ref option \<Rightarrow> ('w, go_err + string) handler" where
  "fetchSecretRef X ref = (case ref of
     None \<Rightarrow> ret (Inl (Errorf ''secret ref is nil''))
   | Some r \<Rightarrow> do {
       (err, s) \<leftarrow> api_get (secrets X) SecretCall \<lparr>nn_name = sr_name r, nn_namespace = sr_namespace r\<rparr>
                    (zero_secret\<lparr>sec_meta := new_meta (sr_name r) (sr_namespace r)\<rparr>);
       case err of
         Some e \<Rightarrow> ret (Inl e)
       | None \<Rightarrow>
          (case sec_data s (sr_key r) of
             None \<Rightarrow> ret (Inl (Wrapf (quote (sr_key r) @ '' in secret '' @ om_namespace (sec_meta s)
                              @ ''/'' @ om_name (sec_meta s)) ErrKeyNotFound))
           | Some v \<Rightarrow> ret (Inr v)) })"

definition newClient :: "'w env \<Rightarrow> provider \<Rightarrow> ('w, go_err + mc_client) handler" where
  "newClient X provider = do {
     accessKey \<leftarrow> fetchSecretRef X (Some (ps_accessKey (p_spec provider)));
     case accessKey of
       Inl e \<Rightarrow> ret (Inl e)
     | Inr ak \<Rightarrow> do {
         secretKey \<leftarrow> fetchSecretRef X (Some (ps_secretKey (p_spec provider)));
         case secretKey of
           Inl e \<Rightarrow> ret (Inl e)
         | Inr sk \<Rightarrow>
             ret (New X (ps_endpoint (p_spec provider)) ak sk (\<not> ps_insecure (p_spec provider))) } }"

definition is_default :: "provider \<Rightarrow> bool" where
  "is_default v \<longleftrightarrow> om_annotations (p_meta v) DefaultProviderAnnotation \<noteq> None"

fun first_default :: "provider list \<Rightarrow> provider option" where
  "first_default [] = None"
| "first_default (v # vs) = (if is_default v then Some v else first_default vs)"

definition defaultProvider :: "'w env \<Rightarrow> ('w, go_err + provider option) handler" where
  "defaultProvider X = do {
     (err, items) \<leftarrow> list_providers X None;
     case err of
       Some e \<Rightarrow> ret (Inl e)
     | None \<Rightarrow> ret (Inr (first_default items)) }"

section \<open>Reconciling a provider\<close>

definition p_with_status :: "condition list \<Rightarrow> string \<Rightarrow> provider \<Rightarrow> provider" where
  "p_with_status cs phase p = p\<lparr>p_status := \<lparr>pst_conditions = cs, pst_phase = phase\<rparr>\<rparr>"

definition provider_Reconcile :: "'w env \<Rightarrow> nsname \<Rightarrow> ('w, ctrl_result \<times> go_err option) handler" where
  "provider_Reconcile X req = do {
     (err, p) \<leftarrow> api_get (providers X) ProviderCall req zero_provider;
     if err \<noteq> None then ret (no_requeue, ignore_not_found X err)
     else if \<not> is_zero (om_deletionTimestamp (p_meta p)) then ret (no_requeue, None)
     else if find_condition X (p_conditions p) ProviderConditionError = None
           \<and> find_condition X (p_conditions p) ProviderConditionReady = None
           \<and> \<not> condition_true X (p_conditions p) ProviderConditionCreating
     then do {
       t \<leftarrow> now X;
       (err, _) \<leftarrow> api_status_update (providers X) ProviderCall
         (p_with_status (set_condition X t (p_conditions p)
             (cond ProviderConditionCreating ConditionTrue ''ProviderCreating''
                ''Creating bucket provider'' (om_generation (p_meta p))))
            ProviderConditionCreating p);
       ret (no_requeue, err) }
     else do {
       client \<leftarrow> newClient X p;
       case client of
         Inl e \<Rightarrow> do {
           t \<leftarrow> now X;
           (err, p) \<leftarrow> api_status_update (providers X) ProviderCall
             (p_with_status (set_condition X t (remove_condition X (p_conditions p) ProviderConditionReady)
                 (cond ProviderConditionError ConditionTrue ErrProviderInvalid (Error e)
                    (om_generation (p_meta p))))
                ProviderConditionError p);
           if err \<noteq> None then ret (no_requeue, err)
           else do {
             rec_Warn X (AnyProvider p) ErrProviderInvalid (Error e);
             ret (no_requeue, None) } }
       | Inr client \<Rightarrow> do {
           err \<leftarrow> minio_do X (Client client) ListMinioBuckets;
           case err of
             Some e \<Rightarrow> do {
               t \<leftarrow> now X;
               (err, p) \<leftarrow> api_status_update (providers X) ProviderCall
                 (p_with_status (set_condition X t (remove_condition X (p_conditions p) ProviderConditionReady)
                     (cond ProviderConditionError ConditionTrue ErrProviderUnavailable (Error e)
                        (om_generation (p_meta p))))
                    ErrProviderUnavailable p);
               if err \<noteq> None then ret (no_requeue, err)
               else do {
                 rec_Warn X (AnyProvider p) ErrProviderUnavailable (Error e);
                 ret (no_requeue, None) } }
           | None \<Rightarrow>
               (if \<not> condition_true X (p_conditions p) ProviderConditionReady
                then do {
                  t \<leftarrow> now X;
                  (err, p) \<leftarrow> api_status_update (providers X) ProviderCall
                    (p_with_status (set_condition X t (p_conditions p)
                        (cond ProviderConditionReady ConditionTrue ''ProviderAvailable''
                           ''Bucket provider is available'' (om_generation (p_meta p))))
                       ProviderConditionReady p);
                  if err \<noteq> None then ret (no_requeue, err)
                  else do {
                    rec_Event X (AnyProvider p) ''ProviderAvailable'' ''Bucket provider available'';
                    ret (no_requeue, None) } }
                else ret (no_requeue, None)) } } }"

section \<open>The calls of the helpers\<close>

text \<open>The secrets a reference names, and the answers that give a value for its key.\<close>

definition ref_nsname :: "secret_ref \<Rightarrow> nsname" where
  "ref_nsname r = \<lparr>nn_name = sr_name r, nn_namespace = sr_namespace r\<rparr>"

lemma tr_fetchSecretRef [tr_intros]:
  assumes "\<And>e s. Q (Inl e) [SecretCall (Get (ref_nsname r)) (Some e) s]"
    and "\<And>e s. sec_data s (sr_key r) = None \<Longrightarrow> errors_is e ErrKeyNotFound \<Longrightarrow> (\<exists>t. e = Wrapf t ErrKeyNotFound)
           \<Longrightarrow> Q (Inl e) [SecretCall (Get (ref_nsname r)) None s]"
    and "\<And>s v. sec_data s (sr_key r) = Some v \<Longrightarrow> Q (Inr v) [SecretCall (Get (ref_nsname r)) None s]"
  shows "tr (fetchSecretRef X (Some r)) Q"
  unfolding fetchSecretRef_def using assms
  by (auto simp: ref_nsname_def [symmetric] intro!: tr_intros)

text \<open>A call that only reads a secret.\<close>

fun reads_secret :: "call \<Rightarrow> bool" where
  "reads_secret (SecretCall (Get _) _ _) = True"
| "reads_secret _ = False"

lemma tr_newClient [tr_intros]:
  assumes "\<And>e t. list_all reads_secret t \<Longrightarrow> Q (Inl e) t"
    and "\<And>c t. list_all reads_secret t \<Longrightarrow> Q (Inr c) t"
  shows "tr (newClient X p) Q"
proof -
  have "Q r t" if "list_all reads_secret t" for r t using assms that by (cases r) auto
  then show ?thesis unfolding newClient_def by (auto intro!: tr_intros)
qed

lemma makes_helpers [footprint_intros]:
  "(\<And>c. reads_secret c \<Longrightarrow> F c) \<Longrightarrow> makes F (newClient X p)"
  "(\<And>e l. F (ListProviders None e l)) \<Longrightarrow> makes F (defaultProvider X)"
  unfolding newClient_def fetchSecretRef_def defaultProvider_def by (auto intro!: footprint_intros)

lemma tr_defaultProvider [tr_intros]:
  assumes "\<And>e l. Q (Inl e) [ListProviders None (Some e) l]"
    and "\<And>l. Q (Inr (first_default l)) [ListProviders None None l]"
  shows "tr (defaultProvider X) Q"
  unfolding defaultProvider_def using assms by (auto intro!: tr_intros)

section \<open>What a reconciliation of a provider does\<close>

text \<open>
  The calls a provider reconciliation may make: it reads one provider and secrets, writes
  the status of the provider, asks MinIO for its buckets, and emits events.
\<close>

fun provider_allowed :: "nsname \<Rightarrow> call \<Rightarrow> bool" where
  "provider_allowed req (ProviderCall (Get k) _ _) = (k = req)"
| "provider_allowed req (ProviderCall (StatusUpdate _) _ _) = True"
| "provider_allowed req (SecretCall (Get _) _ _) = True"
| "provider_allowed req (MinioCall _ ListMinioBuckets _) = True"
| "provider_allowed req (EventCall (AnyProvider _) _ _ _) = True"
| "provider_allowed req _ = False"

lemma reads_secret_allowed: "reads_secret c \<Longrightarrow> provider_allowed req c"
  by (cases c rule: reads_secret.cases) auto

lemma provider_footprint:
  "tr (provider_Reconcile X req) (\<lambda>_. list_all (provider_allowed req))"
  unfolding provider_Reconcile_def
  by (intro tr_intros) (auto simp: list_all_iff reads_secret_allowed)

text \<open>
  The facts about a status that is written, from which the properties below follow: whether
  it says ready, and what it says when MinIO answered with an error.
\<close>

definition answered :: "call list \<Rightarrow> go_err option \<Rightarrow> bool" where
  "answered t e \<longleftrightarrow> (\<exists>c. MinioCall c ListMinioBuckets (Done e) \<in> set t)"

lemma provider_status:
  assumes "condition_promise X"
  shows "tr (provider_Reconcile X req) (\<lambda>_ t. \<forall>q e q'. ProviderCall (StatusUpdate q) e q' \<in> set t \<longrightarrow>
     (condition_true X (p_conditions q) ProviderConditionReady \<longleftrightarrow> answered t None)
   \<and> (\<forall>err. answered t (Some err) \<longrightarrow>
        find_condition X (p_conditions q) ProviderConditionReady = None
      \<and> pst_phase (p_status q) = ErrProviderUnavailable
      \<and> (\<exists>d. find_condition X (p_conditions q) ProviderConditionError = Some d
            \<and> same_condition d (cond ProviderConditionError ConditionTrue ErrProviderUnavailable
                 (Error err) (om_generation (p_meta q)))))
   \<and> (\<forall>p. ProviderCall (Get req) None p \<in> set t \<longrightarrow>
        (answered t None \<longrightarrow> \<not> condition_true X (p_conditions p) ProviderConditionReady)
      \<and> (condition_true X (p_conditions p) ProviderConditionError \<longrightarrow>
           condition_true X (p_conditions q) ProviderConditionError)))"
proof -
  have set_same: "\<exists>d. find_condition X (set_condition X t cs (cond ty st r m g)) ty = Some d
      \<and> same_condition d (cond ty st r m g)" for t cs ty st r m g
    using find_set_same [OF assms, of t cs "cond ty st r m g"] by auto
  have quiet: "ProviderCall v e q \<notin> set t" "MinioCall c r a \<notin> set t"
    if "list_all reads_secret t" for v e q t c r a
    using that by (auto simp: list_all_iff)
  have absent: "\<not> condition_true X cs ty" if "find_condition X cs ty = None" for cs ty
    using that by (simp add: condition_true_iff [OF assms])
  show ?thesis
    unfolding provider_Reconcile_def
    by (intro tr_intros)
      (auto simp: p_with_status_def condition_simps [OF assms] set_same quiet absent answered_def)
qed


section \<open>Properties\<close>

text \<open>
  What a reconciliation of a provider can do. Whatever the API server and MinIO answer,
  the run only reads the provider of the request, reads secrets, writes the status of
  providers, lists MinIO's buckets, and emits events about the provider. It never changes
  a spec, a secret, another object or anything in MinIO.
\<close>
theorem provider_reconcile_footprint:
  "list_all (provider_allowed req) (calls (provider_Reconcile X req) s)"
  using trD [OF provider_footprint] .

text \<open>
  C36. A provider's status is truthful. Every status that a run writes has the Ready
  condition true exactly when MinIO answered the probe of that run without an error. When
  MinIO answered with an error, the written status has no Ready condition, the phase
  UnavailableProvider, and an Error condition with that reason, the text of the error and
  the generation that was observed. A provider that is ready already is not written again. An
  Error condition that was true stays true, even next to a Ready condition.
\<close>
theorem provider_status_truthful:
  assumes "condition_promise X"
    and "ProviderCall (StatusUpdate q) e q' \<in> set (calls (provider_Reconcile X req) s)"
  shows "(condition_true X (p_conditions q) ProviderConditionReady
            \<longleftrightarrow> answered (calls (provider_Reconcile X req) s) None)
     \<and> (\<forall>err. answered (calls (provider_Reconcile X req) s) (Some err) \<longrightarrow>
          find_condition X (p_conditions q) ProviderConditionReady = None
        \<and> pst_phase (p_status q) = ErrProviderUnavailable
        \<and> (\<exists>d. find_condition X (p_conditions q) ProviderConditionError = Some d
              \<and> same_condition d (cond ProviderConditionError ConditionTrue ErrProviderUnavailable
                   (Error err) (om_generation (p_meta q)))))
     \<and> (\<forall>p. ProviderCall (Get req) None p \<in> set (calls (provider_Reconcile X req) s) \<longrightarrow>
          (answered (calls (provider_Reconcile X req) s) None \<longrightarrow>
             \<not> condition_true X (p_conditions p) ProviderConditionReady)
        \<and> (condition_true X (p_conditions p) ProviderConditionError \<longrightarrow>
             condition_true X (p_conditions q) ProviderConditionError))"
  using trD [OF provider_status [OF assms(1)], of req s] assms(2) by blast

text \<open>A provider that MinIO did not answer for last time, and its credentials.\<close>

definition demo_secret :: secret where
  "demo_secret = \<lparr>sec_meta = new_meta ''minio-credentials'' ''default'', sec_type = ''Opaque'',
     sec_data = [''accesskey'' \<mapsto> ''minioadmin'', ''secretkey'' \<mapsto> ''minioadmin'']\<rparr>"

definition demo_provider :: provider where
  "demo_provider = \<lparr>p_meta = new_meta ''minio-provider'' '''',
     p_spec = \<lparr>ps_endpoint = ''127.0.0.1:9000'',
       ps_accessKey = \<lparr>sr_name = ''minio-credentials'', sr_namespace = ''default'', sr_key = ''accesskey''\<rparr>,
       ps_secretKey = \<lparr>sr_name = ''minio-credentials'', sr_namespace = ''default'', sr_key = ''secretkey''\<rparr>,
       ps_insecure = True\<rparr>,
     p_status = \<lparr>pst_conditions = [cond ''Error'' ConditionTrue ''UnavailableProvider'' ''down'' 0], pst_phase = ''''\<rparr>\<rparr>"

definition demo_key :: nsname where
  "demo_key = \<lparr>nn_name = ''minio-provider'', nn_namespace = ''''\<rparr>"

definition demo_world :: sim where
  "demo_world = empty_sim\<lparr>sim_providers := [(demo_key, demo_provider)],
     sim_secrets := [(meta_key (sec_meta demo_secret), demo_secret)]\<rparr>"

lemmas provider_run_defs = ref_defs demo_world_def demo_provider_def demo_secret_def demo_key_def
  provider_Reconcile_def newClient_def fetchSecretRef_def New_def cond_def is_zero_def
  p_with_status_def rec_Event_def rec_Warn_def

lemma demo_run:
  "ProviderCall (StatusUpdate q) None q \<in> set (calls (provider_Reconcile ref_env demo_key) (start demo_world))
    \<longleftrightarrow> q = p_with_status (set_condition ref_env 1000 (p_conditions demo_provider)
          (cond ProviderConditionReady ConditionTrue ''ProviderAvailable'' ''Bucket provider is available'' 0))
          ProviderConditionReady demo_provider"
  by (auto simp: provider_run_defs)

theorem provider_status_truthful_witness:
  "\<exists>q. condition_true ref_env (p_conditions q) ProviderConditionReady
     \<and> answered (calls (provider_Reconcile ref_env demo_key) (start demo_world)) None"
proof -
  have "condition_true ref_env (p_conditions (p_with_status (set_condition ref_env 1000 (p_conditions demo_provider)
          (cond ProviderConditionReady ConditionTrue ''ProviderAvailable'' ''Bucket provider is available'' 0))
          ProviderConditionReady demo_provider)) ProviderConditionReady"
    by (simp add: provider_run_defs)
  then show ?thesis
    using provider_status_truthful [OF ref_condition_promise demo_run [THEN iffD2, OF refl]] by blast
qed

text \<open>
  The Error condition of a provider is never taken back. Whatever MinIO answers, a status
  that is written for a provider whose Error condition is true keeps it true. So a provider
  that recovers is written with Ready and Error true at the same time, although the
  conditions are documented as the latest observations.
\<close>
theorem provider_error_sticks:
  assumes "condition_promise X"
    and "ProviderCall (Get req) None p \<in> set (calls (provider_Reconcile X req) s)"
    and "condition_true X (p_conditions p) ProviderConditionError"
    and "ProviderCall (StatusUpdate q) e q' \<in> set (calls (provider_Reconcile X req) s)"
  shows "condition_true X (p_conditions q) ProviderConditionError
     \<and> (answered (calls (provider_Reconcile X req) s) None \<longrightarrow>
          condition_true X (p_conditions q) ProviderConditionReady)"
  using trD [OF provider_status [OF assms(1)], of req s] assms(2-4) by blast

theorem provider_error_sticks_witness:
  "\<exists>q. condition_true ref_env (p_conditions q) ProviderConditionError
     \<and> condition_true ref_env (p_conditions q) ProviderConditionReady"
proof -
  have "ProviderCall (Get demo_key) None demo_provider
      \<in> set (calls (provider_Reconcile ref_env demo_key) (start demo_world))"
    and "condition_true ref_env (p_conditions demo_provider) ProviderConditionError"
    and "answered (calls (provider_Reconcile ref_env demo_key) (start demo_world)) None"
    by (auto simp: provider_run_defs answered_def)
  then show ?thesis
    using provider_error_sticks [OF ref_condition_promise _ _ demo_run [THEN iffD2, OF refl]] by blast
qed

end
