(* ===== verification/OwnerRefs.thy ===== *)
theory OwnerRefs imports Reference_Env begin

text \<open>
  \<^verbatim>\<open>src/controllers/utils.go\<close>: \<^verbatim>\<open>ForceControllerReference\<close>, which makes an object the
  controller of another even when the other already has one, with its helpers
  \<^verbatim>\<open>indexOwnerRef\<close> and \<^verbatim>\<open>referSameObject\<close>. The lemmas show that on owner references the API
  server accepts the new controller is the only one, that the other owners stay, and that
  a second call changes nothing.
\<close>

section \<open>The operations\<close>

text \<open>A \<^verbatim>\<open>metav1.Object\<close>: its metadata, its type's name, and itself as a \<^verbatim>\<open>runtime.Object\<close> if it is one.\<close>

record meta_object =
  mo_meta :: object_meta
  mo_type :: string
  mo_runtime :: "any_object option"

definition referSameObject :: "'w env \<Rightarrow> owner_ref \<Rightarrow> owner_ref \<Rightarrow> bool" where
  "referSameObject X a b =
     (case parse_group_version X (or_apiVersion a) of
        Inl _ \<Rightarrow> False
      | Inr aGV \<Rightarrow>
         (case parse_group_version X (or_apiVersion b) of
            Inl _ \<Rightarrow> False
          | Inr bGV \<Rightarrow>
              gv_group aGV = gv_group bGV \<and> or_kind a = or_kind b \<and> or_name a = or_name b))"

fun index_from :: "'w env \<Rightarrow> int \<Rightarrow> owner_ref list \<Rightarrow> owner_ref \<Rightarrow> int" where
  "index_from X i [] ref = -1"
| "index_from X i (r # rs) ref = (if referSameObject X r ref then i else index_from X (i + 1) rs ref)"

definition indexOwnerRef :: "'w env \<Rightarrow> owner_ref list \<Rightarrow> owner_ref \<Rightarrow> int" where
  "indexOwnerRef X ownerReferences ref = index_from X 0 ownerReferences ref"

text \<open>The loop that cuts the first matching reference out of the slice.\<close>

fun remove_first :: "'w env \<Rightarrow> owner_ref \<Rightarrow> owner_ref list \<Rightarrow> owner_ref list" where
  "remove_first X ref [] = []"
| "remove_first X ref (r # rs) = (if referSameObject X r ref then rs else r # remove_first X ref rs)"

definition controller_ref :: "'w env \<Rightarrow> gvk \<Rightarrow> object_meta \<Rightarrow> owner_ref" where
  "controller_ref X g owner =
     \<lparr>or_apiVersion = group_version_string X (gvk_group_version g), or_kind = gvk_kind g,
      or_name = om_name owner, or_uid = om_uid owner,
      or_controller = Some True, or_blockOwnerDeletion = Some True\<rparr>"

definition force_ref :: "'w env \<Rightarrow> owner_ref \<Rightarrow> owner_ref list \<Rightarrow> owner_ref list" where
  "force_ref X ref refs =
     (let remove = (case get_controller_of X refs of
                      Some existing \<Rightarrow> if \<not> referSameObject X existing ref then Some existing else None
                    | None \<Rightarrow> None);
          owners = (case remove of Some r \<Rightarrow> remove_first X r refs | None \<Rightarrow> refs);
          idx = indexOwnerRef X owners ref
      in if idx = -1 then owners @ [ref] else owners[nat idx := ref])"

definition ForceControllerReference ::
    "'w env \<Rightarrow> meta_object \<Rightarrow> object_meta \<Rightarrow> go_err + object_meta" where
  "ForceControllerReference X owner controlled =
     (case mo_runtime owner of
        None \<Rightarrow> Inl (Errorf (mo_type owner @
                 '' is not a runtime.Object, cannot call SetControllerReference''))
      | Some ro \<Rightarrow>
         (case gvk_for_object X ro of
            Inl e \<Rightarrow> Inl e
          | Inr g \<Rightarrow> Inr (controlled\<lparr>om_ownerReferences :=
                force_ref X (controller_ref X g (mo_meta owner)) (om_ownerReferences controlled)\<rparr>)))"

section \<open>Positions and cuts\<close>

lemma index_from_bounds:
  "0 \<le> i \<Longrightarrow> index_from X i rs ref = -1 \<or> (i \<le> index_from X i rs ref \<and> index_from X i rs ref < i + int (length rs))"
proof (induction X i rs ref rule: index_from.induct)
  case (2 X i r rs ref)
  then show ?case by (cases "referSameObject X r ref") auto
qed simp

lemma index_from_shift:
  "0 \<le> i \<Longrightarrow> index_from X i rs ref = (if index_from X 0 rs ref = -1 then -1 else i + index_from X 0 rs ref)"
proof (induction rs arbitrary: i)
  case (Cons r rs)
  show ?case
    using Cons.IH [of "i + 1"] Cons.IH [of 1] Cons.prems index_from_bounds [of 0 X rs ref] by auto
qed simp

lemma indexOwnerRef_Cons:
  "indexOwnerRef X (r # rs) ref =
     (if referSameObject X r ref then 0
      else if indexOwnerRef X rs ref = -1 then -1 else 1 + indexOwnerRef X rs ref)"
  using index_from_shift [of 1 X rs ref] by (simp add: indexOwnerRef_def)

lemma indexOwnerRef_none:
  "indexOwnerRef X rs ref = -1 \<longleftrightarrow> (\<forall>r \<in> set rs. \<not> referSameObject X r ref)"
proof (induction rs)
  case Nil
  then show ?case by (simp add: indexOwnerRef_def)
next
  case (Cons r rs)
  have "indexOwnerRef X rs ref = -1 \<or> 0 \<le> indexOwnerRef X rs ref"
    using index_from_bounds [of 0 X rs ref] by (auto simp: indexOwnerRef_def)
  with Cons show ?case by (auto simp: indexOwnerRef_Cons)
qed

lemma indexOwnerRef_split:
  assumes "indexOwnerRef X rs ref \<noteq> -1"
  obtains us r vs where "rs = us @ r # vs" and "nat (indexOwnerRef X rs ref) = length us"
    and "referSameObject X r ref" and "\<forall>u \<in> set us. \<not> referSameObject X u ref"
  using assms
proof (induction rs arbitrary: thesis)
  case Nil
  then show ?case by (simp add: indexOwnerRef_def)
next
  case (Cons x xs)
  show ?case
  proof (cases "referSameObject X x ref")
    case True
    then show ?thesis using Cons.prems(1) [of "[]" x xs] by (simp add: indexOwnerRef_Cons)
  next
    case False
    with Cons.prems(2) have n: "indexOwnerRef X xs ref \<noteq> -1"
      by (auto simp: indexOwnerRef_Cons split: if_splits)
    then obtain us r vs where s: "xs = us @ r # vs" "nat (indexOwnerRef X xs ref) = length us"
      "referSameObject X r ref" "\<forall>u \<in> set us. \<not> referSameObject X u ref"
      using Cons.IH by blast
    moreover have "0 \<le> indexOwnerRef X xs ref"
      using n index_from_bounds [of 0 X xs ref] by (auto simp: indexOwnerRef_def)
    ultimately show ?thesis
      using False n Cons.prems(1) [of "x # us" r vs] by (simp add: indexOwnerRef_Cons nat_add_distrib)
  qed
qed

section \<open>Owner references the API server accepts\<close>

definition is_controller :: "owner_ref \<Rightarrow> bool" where
  "is_controller r \<longleftrightarrow> or_controller r = Some True"

text \<open>What \<^verbatim>\<open>referSameObject\<close> compares; \<open>None\<close> where the API version does not parse.\<close>

definition ref_key :: "'w env \<Rightarrow> owner_ref \<Rightarrow> (string \<times> string \<times> string) option" where
  "ref_key X r = (case parse_group_version X (or_apiVersion r) of
     Inl _ \<Rightarrow> None | Inr gv \<Rightarrow> Some (gv_group gv, or_kind r, or_name r))"

text \<open>
  Well-formed owner references: every API version parses, no object is an owner twice, and
  at most one owner is the controller.
\<close>

definition owners_ok :: "'w env \<Rightarrow> owner_ref list \<Rightarrow> bool" where
  "owners_ok X refs \<longleftrightarrow> (\<forall>r \<in> set refs. ref_key X r \<noteq> None) \<and> distinct (map (ref_key X) refs)
     \<and> length (filter is_controller refs) \<le> 1"

lemma referSameObject_key:
  "referSameObject X a b \<longleftrightarrow> ref_key X a \<noteq> None \<and> ref_key X a = ref_key X b"
  by (auto simp: referSameObject_def ref_key_def split: sum.splits)

lemma indexOwnerRef_key:
  assumes "ref_key X ref \<noteq> None"
  shows "indexOwnerRef X os ref = -1 \<longleftrightarrow> ref_key X ref \<notin> ref_key X ` set os"
proof -
  have "referSameObject X r ref \<longleftrightarrow> ref_key X ref = ref_key X r" for r
    using assms by (metis referSameObject_key)
  then show ?thesis unfolding indexOwnerRef_none by (simp add: image_iff)
qed

lemma remove_first_filter:
  assumes "distinct (map (ref_key X) refs)" and "(\<forall>r \<in> set refs. ref_key X r \<noteq> None)"
  shows "remove_first X ex refs = filter (\<lambda>r. ref_key X r \<noteq> ref_key X ex) refs"
  using assms
proof (induction refs)
  case (Cons r rs)
  show ?case
  proof (cases "ref_key X r = ref_key X ex")
    case True
    with Cons.prems have "\<forall>q \<in> set rs. ref_key X q \<noteq> ref_key X ex"
      by (auto simp: image_iff)
    moreover have "ref_key X r \<noteq> None" using Cons.prems(2) by simp
    ultimately show ?thesis using True by (simp add: referSameObject_key)
  next
    case False
    with Cons show ?thesis by (simp add: referSameObject_key)
  qed
qed simp

lemma controllers_le_1:
  assumes "length (filter is_controller refs) \<le> 1" and "List.find is_controller refs = Some ex"
  shows "ex \<in> set refs" and "is_controller ex"
    and "r \<in> set refs \<Longrightarrow> is_controller r \<Longrightarrow> r = ex"
proof -
  show ex: "ex \<in> set refs" "is_controller ex"
    using assms(2) by (auto simp: find_Some_iff)
  assume "r \<in> set refs" "is_controller r"
  then have "r \<in> set (filter is_controller refs)" "ex \<in> set (filter is_controller refs)"
    using ex by simp_all
  moreover obtain y where "set (filter is_controller refs) \<subseteq> {y}"
    using assms(1) by (cases "filter is_controller refs") auto
  ultimately show "r = ex" by blast
qed

lemma update_at_index:
  assumes "distinct (map (ref_key X) os)" and "\<forall>r \<in> set os. ref_key X r \<noteq> None"
    and "indexOwnerRef X os ref \<noteq> -1"
  shows "os[nat (indexOwnerRef X os ref) := ref]
       = map (\<lambda>r. if ref_key X r = ref_key X ref then ref else r) os"
proof -
  obtain us r vs where s: "os = us @ r # vs" "nat (indexOwnerRef X os ref) = length us"
    "referSameObject X r ref"
    using indexOwnerRef_split [OF assms(3)] by metis
  moreover have r: "ref_key X r = ref_key X ref" using s(3) by (simp add: referSameObject_key)
  moreover have "ref_key X q \<noteq> ref_key X ref" if "q \<in> set us \<or> q \<in> set vs" for q
  proof -
    have "ref_key X r \<notin> ref_key X ` (set us \<union> set vs)" using assms(1) s(1) by auto
    then show ?thesis using that r by (metis Un_iff imageI)
  qed
  then have "map (\<lambda>r. if ref_key X r = ref_key X ref then ref else r) us = us"
    and "map (\<lambda>r. if ref_key X r = ref_key X ref then ref else r) vs = vs"
    by (simp_all add: map_idI)
  ultimately show ?thesis by simp
qed

text \<open>
  The specification of the update: every other controller goes, the entry of the owner (if
  there is one) is replaced in place, and otherwise the owner is appended.
\<close>

definition forced :: "'w env \<Rightarrow> owner_ref \<Rightarrow> owner_ref list \<Rightarrow> owner_ref list" where
  "forced X ref refs =
     (let os = filter (\<lambda>r. \<not> is_controller r \<or> ref_key X r = ref_key X ref) refs
      in if ref_key X ref \<in> ref_key X ` set os
         then map (\<lambda>r. if ref_key X r = ref_key X ref then ref else r) os else os @ [ref])"

lemma force_ref_owners:
  assumes "controller_promise X" and "owners_ok X refs"
  shows "(case (case get_controller_of X refs of
                  Some existing \<Rightarrow> if \<not> referSameObject X existing ref then Some existing else None
                | None \<Rightarrow> None) of Some r \<Rightarrow> remove_first X r refs | None \<Rightarrow> refs)
       = filter (\<lambda>r. \<not> is_controller r \<or> ref_key X r = ref_key X ref) refs"
proof -
  have ok: "distinct (map (ref_key X) refs)" "(\<forall>r \<in> set refs. ref_key X r \<noteq> None)"
    "length (filter is_controller refs) \<le> 1"
    using assms(2) by (simp_all add: owners_ok_def)
  have get: "get_controller_of X refs = List.find is_controller refs"
    using assms(1) by (simp add: controller_promise_def is_controller_def [abs_def])
  show ?thesis
  proof (cases "List.find is_controller refs")
    case None
    then have "filter (\<lambda>r. \<not> is_controller r \<or> ref_key X r = ref_key X ref) refs = refs"
      by (simp add: List.find_None_iff filter_id_conv)
    with None show ?thesis by (simp add: get)
  next
    case (Some ex)
    note ex = controllers_le_1 [OF ok(3) Some]
    have key: "ref_key X r = ref_key X ex \<longleftrightarrow> r = ex" if "r \<in> set refs" for r
      using ok(1) ex(1) that by (auto simp: distinct_map inj_on_eq_iff)
    have some: "ref_key X ex \<noteq> None" using ok(2) ex(1) by blast
    have same: "(is_controller r \<longrightarrow> ref_key X r = ref_key X ref) \<longleftrightarrow> ref_key X r \<noteq> ref_key X ex"
      if "r \<in> set refs" "ref_key X ex \<noteq> ref_key X ref" for r
      using that key ex by metis
    show ?thesis
    proof (cases "ref_key X ex = ref_key X ref")
      case True
      then have "filter (\<lambda>r. \<not> is_controller r \<or> ref_key X r = ref_key X ref) refs = refs"
        using ex(3) by (auto simp: filter_id_conv)
      with True some show ?thesis by (simp add: get Some referSameObject_key)
    next
      case False
      with some have "\<not> referSameObject X ex ref" by (simp add: referSameObject_key)
      moreover have "filter (\<lambda>r. ref_key X r \<noteq> ref_key X ex) refs
          = filter (\<lambda>r. \<not> is_controller r \<or> ref_key X r = ref_key X ref) refs"
        using same [OF _ False] by (intro filter_cong) simp_all
      ultimately show ?thesis by (simp add: get Some remove_first_filter [OF ok(1,2)])
    qed
  qed
qed

lemma force_ref_forced:
  assumes "controller_promise X" and "owners_ok X refs" and "ref_key X ref \<noteq> None"
  shows "force_ref X ref refs = forced X ref refs"
proof -
  let ?os = "filter (\<lambda>r. \<not> is_controller r \<or> ref_key X r = ref_key X ref) refs"
  have ok: "distinct (map (ref_key X) ?os)" "\<forall>r \<in> set ?os. ref_key X r \<noteq> None"
    using assms(2) by (simp_all add: owners_ok_def distinct_map_filter)
  have idx: "indexOwnerRef X ?os ref = -1 \<longleftrightarrow> ref_key X ref \<notin> ref_key X ` set ?os"
    by (rule indexOwnerRef_key [OF assms(3)])
  show ?thesis
  proof (cases "ref_key X ref \<in> ref_key X ` set ?os")
    case True
    then have n: "indexOwnerRef X ?os ref \<noteq> -1" using idx by blast
    show ?thesis
      unfolding force_ref_def forced_def Let_def force_ref_owners [OF assms(1,2)]
      by (simp only: n True if_True if_False update_at_index [OF ok n])
  next
    case False
    then have n: "indexOwnerRef X ?os ref = -1" using idx by blast
    show ?thesis
      unfolding force_ref_def forced_def Let_def force_ref_owners [OF assms(1,2)]
      by (simp only: n False if_True if_False refl)
  qed
qed

section \<open>What the update achieves\<close>

lemma forced_owners:
  assumes "owners_ok X refs" and "is_controller ref" and "ref_key X ref \<noteq> None"
  shows "owners_ok X (forced X ref refs)" and "filter is_controller (forced X ref refs) = [ref]"
    and "\<And>r. r \<in> set refs \<Longrightarrow> \<not> is_controller r \<Longrightarrow> ref_key X r \<noteq> ref_key X ref \<Longrightarrow>
           r \<in> set (forced X ref refs)"
    and "set (forced X ref refs) \<subseteq> insert ref (set refs)"
proof -
  let ?os = "filter (\<lambda>r. \<not> is_controller r \<or> ref_key X r = ref_key X ref) refs"
  let ?put = "\<lambda>r. if ref_key X r = ref_key X ref then ref else r"
  have os: "distinct (map (ref_key X) ?os)" "\<forall>r \<in> set refs. ref_key X r \<noteq> None"
    using assms(1) by (simp_all add: owners_ok_def distinct_map_filter)
  have put: "ref_key X (?put r) = ref_key X r" for r by simp
  have only: "filter is_controller (map ?put ?os) = [ref]"
    if hit: "ref_key X ref \<in> ref_key X ` set ?os"
  proof -
    obtain q where q: "q \<in> set ?os" "ref_key X q = ref_key X ref" using hit by auto
    then obtain us vs where s: "?os = us @ q # vs" by (meson split_list)
    have "\<forall>u \<in> set us \<union> set vs. ref_key X u \<noteq> ref_key X ref"
      using os(1) q(2) unfolding s by (force simp: image_iff)
    moreover have "\<forall>u \<in> set ?os. ref_key X u \<noteq> ref_key X ref \<longrightarrow> \<not> is_controller u" by auto
    ultimately have "\<forall>u \<in> set us \<union> set vs. ?put u = u \<and> \<not> is_controller u"
      unfolding s by simp
    then show ?thesis using q(2) assms(2) unfolding s by (simp add: filter_empty_conv)
  qed
  have none: "filter is_controller ?os = []" if "ref_key X ref \<notin> ref_key X ` set ?os"
    using that by (auto simp: filter_empty_conv image_iff)
  show one: "filter is_controller (forced X ref refs) = [ref]"
    using only none assms(2) by (auto simp: forced_def Let_def)
  have "map (ref_key X) (map ?put ?os) = map (ref_key X) ?os" using put by simp
  then have "distinct (map (ref_key X) (forced X ref refs))"
    using os(1) by (auto simp: forced_def Let_def image_iff simp del: map_map)
  moreover have "\<forall>r \<in> set (forced X ref refs). ref_key X r \<noteq> None"
    using os(2) assms(3) by (auto simp: forced_def Let_def)
  ultimately show "owners_ok X (forced X ref refs)" using one by (simp add: owners_ok_def)
  show "r \<in> set (forced X ref refs)"
    if "r \<in> set refs" "\<not> is_controller r" "ref_key X r \<noteq> ref_key X ref" for r
    using that by (force simp: forced_def Let_def image_iff)
  show "set (forced X ref refs) \<subseteq> insert ref (set refs)"
    by (auto simp: forced_def Let_def)
qed

lemma forced_idem:
  assumes "owners_ok X refs" and "is_controller ref" and "ref_key X ref \<noteq> None"
  shows "forced X ref (forced X ref refs) = forced X ref refs"
proof -
  let ?f = "forced X ref refs"
  note f = forced_owners [OF assms]
  have "set (filter is_controller ?f) = {ref}" using f(2) by simp
  then have ref: "ref \<in> set ?f" and only: "r \<in> set ?f \<Longrightarrow> is_controller r \<Longrightarrow> r = ref" for r
    by auto
  have inj: "inj_on (ref_key X) (set ?f)" using f(1) by (simp add: owners_ok_def distinct_map)
  have "filter (\<lambda>r. \<not> is_controller r \<or> ref_key X r = ref_key X ref) ?f = ?f"
    using only by (auto simp: filter_id_conv)
  moreover have "map (\<lambda>r. if ref_key X r = ref_key X ref then ref else r) ?f = ?f"
    using inj ref by (intro map_idI) (simp add: inj_on_eq_iff)
  ultimately show ?thesis using ref by (simp add: forced_def [of X ref ?f] Let_def)
qed

lemma controller_ref_is_controller [simp]: "is_controller (controller_ref X g m)"
  by (simp add: is_controller_def controller_ref_def)

lemma controller_ref_key:
  assumes "group_version_promise X" and "gvk_group_version g = GroupVersion"
  shows "ref_key X (controller_ref X g m) = Some (''s3.linka.cloud'', gvk_kind g, om_name m)"
  using assms by (simp add: group_version_promise_def ref_key_def controller_ref_def GroupVersion_def)

lemma get_controller_filter:
  assumes "controller_promise X" and "filter is_controller rs = [r]"
  shows "get_controller_of X rs = Some r"
proof -
  have "List.find is_controller rs = Some r"
    using assms(2) by (induction rs) (auto split: if_splits)
  then show ?thesis using assms(1) by (simp add: controller_promise_def is_controller_def [abs_def])
qed

section \<open>Properties\<close>

text \<open>
  C37. Taking control of an object. For an owner that is registered under the API group and
  an object whose owner references are well formed, \<^verbatim>\<open>ForceControllerReference\<close> succeeds;
  afterwards the owner is the controller and the only one, the references are well formed
  again, every owner that is neither a controller nor the same object as the new one is
  still there, nothing but the new reference was added, only the owner references changed,
  and calling it again changes nothing.
\<close>
theorem force_controller_reference:
  assumes "controller_promise X" and "group_version_promise X"
    and "mo_runtime owner = Some ro" and "gvk_for_object X ro = Inr g"
    and "gvk_group_version g = GroupVersion" and "owners_ok X (om_ownerReferences m)"
  shows "\<exists>m'. ForceControllerReference X owner m = Inr m'
     \<and> get_controller_of X (om_ownerReferences m') = Some (controller_ref X g (mo_meta owner))
     \<and> filter is_controller (om_ownerReferences m') = [controller_ref X g (mo_meta owner)]
     \<and> owners_ok X (om_ownerReferences m')
     \<and> (\<forall>r \<in> set (om_ownerReferences m). \<not> is_controller r \<and>
          \<not> referSameObject X r (controller_ref X g (mo_meta owner)) \<longrightarrow>
          r \<in> set (om_ownerReferences m'))
     \<and> set (om_ownerReferences m') \<subseteq>
         insert (controller_ref X g (mo_meta owner)) (set (om_ownerReferences m))
     \<and> m'\<lparr>om_ownerReferences := om_ownerReferences m\<rparr> = m
     \<and> ForceControllerReference X owner m' = Inr m'"
proof -
  let ?ref = "controller_ref X g (mo_meta owner)" and ?refs = "om_ownerReferences m"
  have key: "ref_key X ?ref \<noteq> None" using controller_ref_key [OF assms(2,5)] by simp
  have force: "ForceControllerReference X owner m' =
      Inr (m'\<lparr>om_ownerReferences := forced X ?ref (om_ownerReferences m')\<rparr>)"
    if "owners_ok X (om_ownerReferences m')" for m'
    using assms(3,4) by (simp add: ForceControllerReference_def force_ref_forced [OF assms(1) that key])
  note f = forced_owners [OF assms(6) controller_ref_is_controller key]
  have keep: "r \<in> set (forced X ?ref ?refs)"
    if "r \<in> set ?refs" "\<not> is_controller r" "\<not> referSameObject X r ?ref" for r
    using that f(3) assms(6) by (auto simp: referSameObject_key owners_ok_def)
  show ?thesis
    using f(1,2,4) keep forced_idem [OF assms(6) controller_ref_is_controller key]
      get_controller_filter [OF assms(1) f(2)]
    by (intro exI [of _ "m\<lparr>om_ownerReferences := forced X ?ref ?refs\<rparr>"])
      (auto simp: force [OF assms(6)] force)
qed

definition demo_owner :: meta_object where
  "demo_owner = (let a = zero_account\<lparr>a_meta := new_meta ''app'' ''default''\<rparr> in
     \<lparr>mo_meta = a_meta a, mo_type = type_name (AnyAccount a), mo_runtime = Some (AnyAccount a)\<rparr>)"

definition demo_owned :: object_meta where
  "demo_owned = (new_meta ''data'' ''default'')\<lparr>om_ownerReferences :=
     [\<lparr>or_apiVersion = ''s3.linka.cloud/v1alpha1'', or_kind = ''BucketServiceAccount'',
       or_name = ''old'', or_uid = ''1'', or_controller = Some True, or_blockOwnerDeletion = Some True\<rparr>,
      \<lparr>or_apiVersion = ''v1'', or_kind = ''ConfigMap'', or_name = ''cm'', or_uid = ''2'',
       or_controller = None, or_blockOwnerDeletion = None\<rparr>]\<rparr>"

theorem force_controller_reference_witness:
  "\<exists>m'. ForceControllerReference ref_env demo_owner demo_owned = Inr m'
     \<and> (\<exists>r. get_controller_of ref_env (om_ownerReferences m') = Some r \<and> or_name r = ''app'')
     \<and> ForceControllerReference ref_env demo_owner m' = Inr m'"
proof -
  have "owners_ok ref_env (om_ownerReferences demo_owned)"
    by (simp add: owners_ok_def demo_owned_def ref_env_def ref_key_def ref_parse_gv_def is_controller_def)
  moreover have "mo_runtime demo_owner = Some (AnyAccount (zero_account\<lparr>a_meta := new_meta ''app'' ''default''\<rparr>))"
    and "om_name (mo_meta demo_owner) = ''app''"
    by (simp_all add: demo_owner_def Let_def new_meta_def)
  moreover have "gvk_for_object ref_env (AnyAccount a) =
      Inr \<lparr>gvk_group_version = GroupVersion, gvk_kind = ''BucketServiceAccount''\<rparr>" for a
    by (simp add: ref_env_def ref_gvk_def)
  ultimately show ?thesis
    using force_controller_reference [OF ref_controller_promise ref_group_version_promise]
    by (fastforce simp: controller_ref_def)
qed

end
