(* ===== verification/Reporting.thy ===== *)
theory Reporting imports Providers OwnerRefs begin

text \<open>
  What the reconcilers of buckets and of service accounts share: a reconciliation is a
  sequence of steps; a step that does not say to go on ends it, after its error, if there is
  one, was written into the status of the object. The contract of that report is the locale
  \<open>error_report\<close>; the rule for sequencing steps is proved in it once, and both reconcilers
  interpret it.
\<close>

section \<open>Steps\<close>

text \<open>
  The results \<^verbatim>\<open>(ctrl.Result, bool, error)\<close> of a step, with the object the step was given a
  pointer to, as the step leaves it.
\<close>

type_synonym 'o outcome = "(ctrl_result \<times> bool \<times> go_err option) \<times> 'o"

abbreviation stop :: "go_err option \<Rightarrow> 'o \<Rightarrow> 'o outcome" where
  "stop err obj \<equiv> ((no_requeue, False, err), obj)"

abbreviation proceed :: "'o \<Rightarrow> 'o outcome" where
  "proceed obj \<equiv> ((no_requeue, True, None), obj)"

text \<open>A step that always returns, among those that may panic or exit.\<close>

definition returning :: "('s, 'a) state \<Rightarrow> ('s, 'a go) state" where
  "returning m = do { x \<leftarrow> m; ret (Returns x) }"

text \<open>\<^verbatim>\<open>if re, ok, err := step; !ok { return re, r.err(obj, err, reason) }\<close>.\<close>

definition do_step :: "('s, 'o outcome go) state \<Rightarrow> ('o \<Rightarrow> go_err option \<Rightarrow> ('s, go_err option) state) \<Rightarrow>
    ('o \<Rightarrow> ('s, (ctrl_result \<times> go_err option) go) state) \<Rightarrow>
    ('s, (ctrl_result \<times> go_err option) go) state" where
  "do_step act report go_on_with = do {
     r \<leftarrow> act;
     go_on r (\<lambda>((re, ok, err), obj).
       if \<not> ok then do { err \<leftarrow> report obj err; ret (Returns (re, err)) } else go_on_with obj) }"

lemma tr_returning [tr_intros]:
  assumes "tr m (\<lambda>a t. Q (Returns a) t)"
  shows "tr (returning m) Q"
  unfolding returning_def by (rule tr_bind, rule tr_mono [OF assms], rule tr_return) simp

lemma tr_do_step:
  assumes "tr act (\<lambda>r t.
      (\<forall>m. r = Panics m \<longrightarrow> Q (Panics m) t) \<and> (\<forall>m. r = Exits m \<longrightarrow> Q (Exits m) t)
    \<and> (\<forall>re ok err obj. r = Returns ((re, ok, err), obj) \<longrightarrow>
        (if ok then tr (go_on_with obj) (\<lambda>b u. Q b (t @ u))
         else tr (report obj err) (\<lambda>err u. Q (Returns (re, err)) (t @ u)))))"
  shows "tr (do_step act report go_on_with) Q"
proof -
  have go: "tr (go_on r (\<lambda>((re, ok, err), obj).
       if \<not> ok then do { err \<leftarrow> report obj err; ret (Returns (re, err)) } else go_on_with obj))
      (\<lambda>b u. Q b (t @ u))"
    if h: "(\<forall>m. r = Panics m \<longrightarrow> Q (Panics m) t) \<and> (\<forall>m. r = Exits m \<longrightarrow> Q (Exits m) t)
    \<and> (\<forall>re ok err obj. r = Returns ((re, ok, err), obj) \<longrightarrow>
        (if ok then tr (go_on_with obj) (\<lambda>b u. Q b (t @ u))
         else tr (report obj err) (\<lambda>err u. Q (Returns (re, err)) (t @ u))))" for r t
  proof (cases r)
    case (Returns x)
    obtain re ok err obj where x: "x = ((re, ok, err), obj)" by (metis prod.exhaust)
    have o: "if ok then tr (go_on_with obj) (\<lambda>b u. Q b (t @ u))
        else tr (report obj err) (\<lambda>err u. Q (Returns (re, err)) (t @ u))"
      using h Returns x by blast
    show ?thesis
    proof (cases ok)
      case True
      then show ?thesis using o by (simp add: Returns x)
    next
      case False
      then have "tr (report obj err) (\<lambda>err u. Q (Returns (re, err)) (t @ u))" using o by simp
      then have "tr (do { err \<leftarrow> report obj err; ret (Returns (re, err)) }) (\<lambda>b u. Q b (t @ u))"
        by (auto intro!: tr_bind tr_return elim: tr_mono)
      then show ?thesis using False by (simp add: Returns x)
    qed
  qed (use h in \<open>auto intro: tr_return\<close>)
  show ?thesis unfolding do_step_def by (rule tr_bind, rule tr_mono [OF assms], rule go)
qed

lemma makes_steps [footprint_intros]:
  "makes F m \<Longrightarrow> makes F (returning m)"
  "makes F act \<Longrightarrow> (\<And>obj err. makes F (report obj err)) \<Longrightarrow> (\<And>obj. makes F (go_on_with obj)) \<Longrightarrow>
     makes F (do_step act report go_on_with)"
  unfolding returning_def do_step_def by (auto intro!: footprint_intros)

section \<open>The contract of an error report\<close>

text \<open>A list of conditions that says: not ready, because of this error, for this reason.\<close>

definition says_failed :: "'w env \<Rightarrow> condition list \<Rightarrow> string \<Rightarrow> go_err \<Rightarrow> int \<Rightarrow> bool" where
  "says_failed X cs reason e gen \<longleftrightarrow>
     (\<exists>c. find_condition X cs ''Ready'' = Some c \<and> cd_status c = ConditionFalse)
   \<and> (\<exists>d. find_condition X cs ''Error'' = Some d
        \<and> same_condition d (cond ''Error'' ConditionTrue reason (Error e) gen))"

lemma says_failedI:
  assumes "condition_promise X"
  shows "says_failed X (set_condition X t' (set_condition X t cs (cond ''Ready'' ConditionFalse r' m' g))
     ((cond ''Error'' ConditionTrue reason (Error e) g)\<lparr>cd_lastTransitionTime := t'\<rparr>)) reason e g"
proof -
  let ?r = "cond ''Ready'' ConditionFalse r' m' g"
  let ?e = "(cond ''Error'' ConditionTrue reason (Error e) g)\<lparr>cd_lastTransitionTime := t'\<rparr>"
  obtain c where "find_condition X (set_condition X t cs ?r) ''Ready'' = Some c" "same_condition c ?r"
    using find_set_same [OF assms, of t cs ?r] by auto
  moreover obtain d where "find_condition X (set_condition X t' (set_condition X t cs ?r) ?e) ''Error'' = Some d"
    "same_condition d ?e"
    using find_set_same [OF assms, of t' "set_condition X t cs ?r" ?e] by auto
  moreover have "find_condition X (set_condition X t' (set_condition X t cs ?r) ?e) ''Ready''
      = find_condition X (set_condition X t cs ?r) ''Ready''"
    by (rule find_set_other [OF assms]) simp
  ultimately show ?thesis
    by (auto simp: says_failed_def same_condition_def)
qed

lemma title_BucketError: "title ''BucketError'' = ''BucketError''"
  by code_simp

text \<open>
  \<open>report\<close> is told about a step that ended the reconciliation of an object. \<open>write q err q'\<close>
  is the call that writes the status of \<open>q\<close>.
\<close>

locale error_report =
  fixes X :: "'w env"
    and report :: "'o \<Rightarrow> go_err option \<Rightarrow> string \<Rightarrow> ('w, go_err option) handler"
    and conditions :: "'o \<Rightarrow> condition list"
    and generation :: "'o \<Rightarrow> int"
    and "write" :: "'o \<Rightarrow> go_err option \<Rightarrow> 'o \<Rightarrow> call"
    and any :: "'o \<Rightarrow> any_object"
  assumes silent: "report obj None reason = ret None"
    and loud: "condition_promise X \<Longrightarrow> tr (report obj (Some e) reason) (\<lambda>err t. \<exists>q err2 q'.
        says_failed X (conditions q) reason e (generation obj) \<and> generation q = generation obj
      \<and> (case err2 of
           None \<Rightarrow> err = Some e \<and> t = [write q None q', EventCall (any q') Warning ''BucketError'' (Message (Error e))]
         | Some e2 \<Rightarrow> err = combine X [Some e, Some e2] \<and> t = [write q (Some e2) q']))"
begin

lemma tr_report:
  assumes "condition_promise X" and "err = None \<Longrightarrow> Q None []"
    and "\<And>e q q'. err = Some e \<Longrightarrow> says_failed X (conditions q) reason e (generation obj) \<Longrightarrow>
      generation q = generation obj \<Longrightarrow>
      Q (Some e) [write q None q', EventCall (any q') Warning ''BucketError'' (Message (Error e))]"
    and "\<And>e q e2 q'. err = Some e \<Longrightarrow> says_failed X (conditions q) reason e (generation obj) \<Longrightarrow>
      generation q = generation obj \<Longrightarrow>
      Q (combine X [Some e, Some e2]) [write q (Some e2) q']"
  shows "tr (report obj err reason) Q"
proof (cases err)
  case None
  then show ?thesis using assms(2) by (simp add: silent tr_return)
next
  case (Some e)
  show ?thesis unfolding Some
  proof (rule tr_mono [OF loud [OF assms(1), of obj e reason]], elim exE conjE)
    fix err' t q err2 q'
    assume q: "says_failed X (conditions q) reason e (generation obj)" "generation q = generation obj"
      and "case err2 of
           None \<Rightarrow> err' = Some e \<and> t = [write q None q', EventCall (any q') Warning ''BucketError'' (Message (Error e))]
         | Some e2 \<Rightarrow> err' = combine X [Some e, Some e2] \<and> t = [write q (Some e2) q']"
    then show "Q err' t"
      using assms(3) [OF Some q] assms(4) [OF Some q] by (cases err2) auto
  qed
qed

text \<open>A step that ends the run with an error: the run returns an error too.\<close>

lemma reported:
  assumes "condition_promise X" and "combine_promise X"
  shows "result (report obj (Some e) reason) s \<noteq> None"
proof -
  have "tr (report obj (Some e) reason) (\<lambda>err _. err \<noteq> None)"
    using assms(2) by (intro tr_report [OF assms(1)]) (auto simp: combine_promise_def)
  from trD [OF this] show ?thesis .
qed

end

end
