(* ===== verification/Accounts.thy ===== *)
theory Accounts imports Reporting begin

text \<open>
  \<^verbatim>\<open>src/controllers/bucketserviceaccount_controller.go\<close>: the reconciliation of a
  \<^verbatim>\<open>BucketServiceAccount\<close>, its garbage collection, and the field index over the buckets.
  Each function is one definition; the account a function is given a pointer to is passed
  in and returned as the function leaves it.
\<close>

section \<open>Reporting an error\<close>

definition a_with_status :: "condition list \<Rightarrow> string \<Rightarrow> account \<Rightarrow> account" where
  "a_with_status cs phase a = a\<lparr>a_status := (a_status a)\<lparr>ast_conditions := cs, ast_phase := phase\<rparr>\<rparr>"

definition account_err :: "'w env \<Rightarrow> account \<Rightarrow> go_err option \<Rightarrow> string \<Rightarrow> ('w, go_err option) handler" where
  "account_err X a err reason = (case err of
     None \<Rightarrow> ret None
   | Some e \<Rightarrow> do {
       t \<leftarrow> now X;
       t' \<leftarrow> now X;
       (err2, a) \<leftarrow> api_status_update (accounts X) AccountCall
         (a_with_status
            (set_condition X t'
               (set_condition X t (a_conditions a)
                  (cond BucketSAConditionReady ConditionFalse reason ''Service account is not ready''
                     (om_generation (a_meta a))))
               ((cond BucketSAConditionError ConditionTrue reason (Error e)
                   (om_generation (a_meta a)))\<lparr>cd_lastTransitionTime := t'\<rparr>))
            BucketConditionError a);
       case err2 of
         Some e2 \<Rightarrow> ret (combine X [Some e, Some e2])
       | None \<Rightarrow> do {
           rec_Warn X (AnyAccount a) ''BucketError'' (Error e);
           ret (Some e) } })"

section \<open>The MinIO user\<close>

text \<open>
  The arguments of \<^verbatim>\<open>AddUser\<close> are evaluated first: a failing random source ends the process
  before the call.
\<close>

definition reconcileUser :: "'w env \<Rightarrow> mc_client \<Rightarrow> account \<Rightarrow> ('w, account outcome go) handler" where
  "reconcileUser X mc a = do {
     (us, err) \<leftarrow> list_users X (AdminClient mc);
     case err of
       Some e \<Rightarrow> ret (Returns (stop (Some (Wrapf ''unable to list users'' e)) a))
     | None \<Rightarrow>
        (if us (name (a_name a)) \<noteq> None then ret (Returns (proceed a))
         else do {
           password \<leftarrow> GeneratePassword X;
           go_on password (\<lambda>password. do {
             err \<leftarrow> minio_do X (AdminClient mc) (AddUser (name (a_name a)) password);
             case err of
               Some e \<Rightarrow> ret (Returns (stop (Some (Wrapf ''unable to create user'' e)) a))
             | None \<Rightarrow> do {
                 rec_Eventf X (AnyAccount a) ''UserCreated'' ''User %s created'' [name (a_name a)];
                 ret (Returns (proceed a)) } }) }) }"

section \<open>The MinIO service account and its secret\<close>

definition account_secret :: "account \<Rightarrow> secret" where
  "account_secret a = \<lparr>
     sec_meta = (new_meta (a_name a @ saSecretSuffix) (a_namespace a))\<lparr>om_labels :=
       [''app.kubernetes.io/managed-by'' \<mapsto> ''minio-bucket-controller'', ServiceAccountAnnotation \<mapsto> a_name a]\<rparr>,
     sec_type = BucketSASecretType, sec_data = Map.empty\<rparr>"

text \<open>The loop that deletes the service accounts the user has.\<close>

fun delete_accounts :: "'w env \<Rightarrow> mc_client \<Rightarrow> string list \<Rightarrow> ('w, go_err option) handler" where
  "delete_accounts X mc [] = ret None"
| "delete_accounts X mc (v # vs) = do {
     err \<leftarrow> minio_do X (AdminClient mc) (DeleteServiceAccount v);
     case err of Some e \<Rightarrow> ret (Some e) | None \<Rightarrow> delete_accounts X mc vs }"

text \<open>Lines 205 to 223: the new credentials go into the secret \<open>s\<close>.\<close>

definition store_credentials ::
    "'w env \<Rightarrow> mc_client \<Rightarrow> account \<Rightarrow> secret \<Rightarrow> string \<Rightarrow> string \<Rightarrow> ('w, account outcome) handler" where
  "store_credentials X mc a s accessKey secretKey =
     (let s = s\<lparr>sec_data := [MinioAccessKey \<mapsto> accessKey, MinioSecretKey \<mapsto> secretKey]\<rparr> in
      case set_controller_reference X (AnyAccount a) (sec_meta s) of
        (Some e, _) \<Rightarrow> ret (stop (Some e) a)
      | (None, refs) \<Rightarrow> do {
          (err, s) \<leftarrow> api_create (secrets X) SecretCall
            (s\<lparr>sec_meta := (sec_meta s)\<lparr>om_ownerReferences := refs\<rparr>\<rparr>);
          case err of
            Some e \<Rightarrow> do {
              e2 \<leftarrow> minio_do X (AdminClient mc) (DeleteServiceAccount (name (a_name a)));
              ret (stop (combine X [Some (Wrapf ''unable to create secret'' e), e2]) a) }
          | None \<Rightarrow> do {
              (err, a') \<leftarrow> api_status_update (accounts X) AccountCall
                (a\<lparr>a_status := (a_status a)\<lparr>ast_secretName := Some (om_name (sec_meta s))\<rparr>\<rparr>);
              case err of
                Some e \<Rightarrow> do {
                  (e2, _) \<leftarrow> api_delete (secrets X) SecretCall s;
                  e3 \<leftarrow> minio_do X (AdminClient mc) (DeleteServiceAccount (name (a_name a)));
                  ret (stop (combine X [Some (Wrapf ''unable to update bucket status'' e), e2, e3]) a') }
              | None \<Rightarrow> do {
                  rec_Eventf X (AnyAccount a') ''SecretCreated'' ''Secret %s created'' [om_name (sec_meta s)];
                  ret (stop None a') } } })"

text \<open>
  The object \<open>s\<close> the secret is read into is used again after a failed read: the client may
  have written into it, so it is the answer of the call.
\<close>

definition account_reconcileServiceAccount ::
    "'w env \<Rightarrow> mc_client \<Rightarrow> account \<Rightarrow> ('w, account outcome) handler" where
  "account_reconcileServiceAccount X mc a = do {
     (err, s) \<leftarrow> api_get (secrets X) SecretCall
       \<lparr>nn_name = a_name a @ saSecretSuffix, nn_namespace = a_namespace a\<rparr> (account_secret a);
     case err of
       None \<Rightarrow> ret (proceed a)
     | Some e \<Rightarrow>
        (if ignore_not_found X (Some e) \<noteq> None then ret (stop (Some e) a)
         else do {
           (res, err) \<leftarrow> list_service_accounts X (AdminClient mc) (name (a_name a));
           case err of
             Some e \<Rightarrow> ret (stop (Some (Wrapf ''unable to list service accounts'' e)) a)
           | None \<Rightarrow> do {
               err \<leftarrow> delete_accounts X mc res;
               case err of
                 Some e \<Rightarrow> ret (stop (Some (Wrapf ''unable to remove service account'' e)) a)
               | None \<Rightarrow> do {
                   ((accessKey, secretKey), err) \<leftarrow>
                     add_service_account X (AdminClient mc) (name (a_name a));
                   case err of
                     Some e \<Rightarrow> ret (stop (Some (Wrapf ''unable to create service account'' e)) a)
                   | None \<Rightarrow> store_credentials X mc a s accessKey secretKey } } }) }"

section \<open>The policies\<close>

text \<open>A panic of \<^verbatim>\<open>mc2.Policy\<close> comes before the policies are listed.\<close>

definition reconcilePolicy :: "'w env \<Rightarrow> mc_client \<Rightarrow> bucket \<Rightarrow> ('w, (ctrl_result \<times> bool \<times> go_err option) go) handler" where
  "reconcilePolicy X mc bucket = go_on (Policy (b_name bucket)) (\<lambda>want. do {
     (ps, err) \<leftarrow> list_canned_policies X (AdminClient mc);
     case err of
       Some e \<Rightarrow> ret (Returns (no_requeue, False, Some (Wrapf ''unable to list policies'' e)))
     | None \<Rightarrow>
        (let add = do {
             err \<leftarrow> minio_do X (AdminClient mc) (AddCannedPolicy (name (b_name bucket)) want);
             case err of
               Some e \<Rightarrow> ret (Returns (no_requeue, False, Some (Wrapf ''unable to add policy'' e)))
             | None \<Rightarrow> ret (Returns (no_requeue, True, None)) } in
         case ps (name (b_name bucket)) of
           None \<Rightarrow> add
         | Some js \<Rightarrow>
            (case marshal_policy X js of
               Inl e \<Rightarrow> ret (Returns (no_requeue, False, Some (Wrapf ''unable to marshal policy'' e)))
             | Inr got \<Rightarrow> (if got = want then ret (Returns (no_requeue, True, None)) else add))) })"

text \<open>The loop over the buckets of the account: the names of their policies.\<close>

fun each_policy :: "'w env \<Rightarrow> mc_client \<Rightarrow> bucket list \<Rightarrow> ('w, (ctrl_result \<times> go_err option + string list) go) handler" where
  "each_policy X mc [] = ret (Returns (Inr []))"
| "each_policy X mc (b # bs) = do {
     r \<leftarrow> reconcilePolicy X mc b;
     go_on r (\<lambda>(re, ok, err).
       if \<not> ok then ret (Returns (Inl (re, err)))
       else do {
         r \<leftarrow> each_policy X mc bs;
         go_on r (\<lambda>r. case r of
             Inl e \<Rightarrow> ret (Returns (Inl e))
           | Inr policies \<Rightarrow> ret (Returns (Inr (name (b_name b) # policies)))) }) }"

definition ownerKey :: string where
  "ownerKey = ''.metadata.controller''"

text \<open>Lines 255 to 275.\<close>

definition assign_policies ::
    "'w env \<Rightarrow> mc_client \<Rightarrow> account \<Rightarrow> bucket list \<Rightarrow> ('w, account outcome go) handler" where
  "assign_policies X mc a items = do {
     r \<leftarrow> each_policy X mc items;
     go_on r (\<lambda>r. case r of
         Inl (re, err) \<Rightarrow> ret (Returns ((re, False, err), a))
       | Inr policies \<Rightarrow> do {
           err \<leftarrow> minio_do X (AdminClient mc) (SetPolicy (join '','' policies) (name (a_name a)) False);
           case err of
             Some e \<Rightarrow> ret (Returns (stop (Some (Wrapf ''unable to set policy'' e)) a))
           | None \<Rightarrow> do {
               rec_Eventf X (AnyAccount a) ''PolicyConfigured'' ''Policy %s configured'' [name (a_name a)];
               ret (Returns (proceed a)) } }) }"

definition reconcilePolicies :: "'w env \<Rightarrow> mc_client \<Rightarrow> account \<Rightarrow> ('w, account outcome go) handler" where
  "reconcilePolicies X mc a = do {
     (err, items) \<leftarrow> list_buckets X (Some (ownerKey, a_name a));
     case err of
       Some e \<Rightarrow> ret (Returns (stop (Some e) a))
     | None \<Rightarrow>
        (if length items = 0
         then (if \<not> condition_true X (a_conditions a) BucketSAConditionDeletionPending
               then do {
                 t \<leftarrow> now X;
                 (err, a) \<leftarrow> api_status_update (accounts X) AccountCall
                   (a_with_status (set_condition X t (a_conditions a)
                       (cond BucketSAConditionDeletionPending ConditionTrue ''DanglingServiceAccount''
                          ''Service account is not used by any bucket and will be deleted in 1 minute''
                          (om_generation (a_meta a))))
                      BucketSAConditionDeletionPending a);
                 ret (Returns (stop err a)) }
               else assign_policies X mc a items)
         else if condition_true X (a_conditions a) BucketSAConditionDeletionPending
         then do {
           (err, a) \<leftarrow> api_status_update (accounts X) AccountCall
             (a\<lparr>a_status := (a_status a)\<lparr>ast_conditions :=
                remove_condition X (a_conditions a) BucketSAConditionDeletionPending\<rparr>\<rparr>);
           case err of
             Some e \<Rightarrow> ret (Returns (stop (Some e) a))
           | None \<Rightarrow> assign_policies X mc a items }
         else assign_policies X mc a items) }"

section \<open>Deletion\<close>

definition account_reconcileDeletion :: "'w env \<Rightarrow> account \<Rightarrow> ('w, account outcome) handler" where
  "account_reconcileDeletion X a =
     (if \<not> condition_true X (a_conditions a) BucketSAConditionDeleting
      then do {
        t \<leftarrow> now X;
        (err, a) \<leftarrow> api_status_update (accounts X) AccountCall
          (a_with_status (set_condition X t (a_conditions a)
              (cond BucketSAConditionDeleting ConditionTrue ''BucketServiceAccountDeletion''
                 ''BucketServiceAccount is being deleted'' (om_generation (a_meta a))))
             BucketConditionDeleting a);
        ret (stop err a) }
      else do {
        (err, p) \<leftarrow> api_get (providers X) ProviderCall
          \<lparr>nn_name = as_provider (a_spec a), nn_namespace = ''''\<rparr> zero_provider;
        case err of
          Some e \<Rightarrow>
            (if is_not_found X e then ret (proceed a)
             else ret (stop (Some (Wrapf ''unable to get bucket provider'' e)) a))
        | None \<Rightarrow> do {
            mc \<leftarrow> newClient X p;
            case mc of
              Inl e \<Rightarrow> ret (stop (Some (Wrapf ''unable to create minio client'' e)) a)
            | Inr mc \<Rightarrow> do {
                (err, _) \<leftarrow> api_delete (secrets X) SecretCall
                  (zero_secret\<lparr>sec_meta := new_meta (a_name a @ saSecretSuffix) (a_namespace a)\<rparr>);
                if err \<noteq> None \<and> ignore_not_found X err \<noteq> None then ret (stop err a)
                else do {
                  err \<leftarrow> minio_do X (AdminClient mc) (RemoveUser (name (a_name a)));
                  case err of
                    Some e \<Rightarrow>
                      (if admin_code X e = ''XMinioAdminNoSuchUser'' then ret (proceed a)
                       else ret (stop (Some e) a))
                  | None \<Rightarrow> do {
                      rec_Eventf X (AnyAccount a) ''UserDeleted'' ''User %s deleted'' [a_name a];
                      ret (proceed a) } } } } })"

section \<open>Reconcile\<close>

definition account_delete_branch ::
    "'w env \<Rightarrow> account \<Rightarrow> ('w, (ctrl_result \<times> go_err option) go) handler" where
  "account_delete_branch X a = do {
     ((re, ok, err), a) \<leftarrow> account_reconcileDeletion X a;
     if \<not> ok then ret (Returns (re, err))
     else do {
       (err, _) \<leftarrow> api_update (accounts X) AccountCall (a\<lparr>a_meta := (a_meta a)\<lparr>
         om_finalizers := remove_finalizer X (om_finalizers (a_meta a)) finalizer\<rparr>\<rparr>);
       case err of
         Some e \<Rightarrow> ret (Returns (no_requeue, ignore_not_found X (Some e)))
       | None \<Rightarrow> ret (Returns (no_requeue, None)) } }"

text \<open>Lines 126 to 143: every step said to go on.\<close>

definition account_ready :: "'w env \<Rightarrow> account \<Rightarrow> ('w, (ctrl_result \<times> go_err option) go) handler" where
  "account_ready X a =
     (if \<not> condition_true X (a_conditions a) BucketSAConditionReady
       \<and> \<not> condition_true X (a_conditions a) BucketSAConditionDeletionPending
      then do {
        t \<leftarrow> now X;
        (err, _) \<leftarrow> api_status_update (accounts X) AccountCall
          (a_with_status
             (set_condition X t
                (remove_condition X
                   (remove_condition X (a_conditions a) BucketSAConditionCreating)
                   BucketSAConditionError)
                (cond BucketSAConditionReady ConditionTrue BucketSAConditionReady
                   ''BucketServiceAccount is ready'' (om_generation (a_meta a))))
             BucketSAConditionReady a);
        ret (Returns (no_requeue, err)) }
      else ret (Returns (no_requeue, None)))"

text \<open>Lines 102 to 143: the account has its finalizer and a condition.\<close>

definition account_converge :: "'w env \<Rightarrow> account \<Rightarrow> ('w, (ctrl_result \<times> go_err option) go) handler" where
  "account_converge X a = do {
     (err, p) \<leftarrow> api_get (providers X) ProviderCall
       \<lparr>nn_name = as_provider (a_spec a), nn_namespace = ''''\<rparr> zero_provider;
     case err of
       Some e \<Rightarrow>
         (if is_not_found X e then do {
            err \<leftarrow> account_err X a (Some (Errorf (''referenced bucket provider ''
                     @ as_provider (a_spec a) @ '' not found''))) ErrProviderInvalid;
            ret (Returns (no_requeue, err)) }
          else ret (Returns (no_requeue, Some e)))
     | None \<Rightarrow> do {
         mc \<leftarrow> newClient X p;
         case mc of
           Inl e \<Rightarrow> do {
             err \<leftarrow> account_err X a (Some (Wrapf ''unable to create minio client'' e)) ErrProviderInvalid;
             ret (Returns (no_requeue, err)) }
         | Inr mc \<Rightarrow>
             do_step (reconcileUser X mc a)
               (\<lambda>a e. account_err X a e BucketSAConditionReasonErrCreateUser) (\<lambda>a.
             do_step (returning (account_reconcileServiceAccount X mc a))
               (\<lambda>a e. account_err X a e BucketSAConditionReasonErrCreateAccount) (\<lambda>a.
             do_step (reconcilePolicies X mc a)
               (\<lambda>a e. account_err X a e BucketSAConditionReasonErrCreatePolicy) (\<lambda>a.
             account_ready X a))) } }"

definition account_Reconcile :: "'w env \<Rightarrow> nsname \<Rightarrow> ('w, (ctrl_result \<times> go_err option) go) handler" where
  "account_Reconcile X req = do {
     (err, a) \<leftarrow> api_get (accounts X) AccountCall req zero_account;
     case err of
       Some e \<Rightarrow>
         (if ignore_not_found X (Some e) \<noteq> None then ret (Returns (no_requeue, Some e))
          else ret (Returns (no_requeue, None)))
     | None \<Rightarrow>
        (if \<not> is_zero (om_deletionTimestamp (a_meta a)) then account_delete_branch X a
         else case add_finalizer X (om_finalizers (a_meta a)) finalizer of (added, fs) \<Rightarrow>
           if added then do {
             (err, _) \<leftarrow> api_update (accounts X) AccountCall
               (a\<lparr>a_meta := (a_meta a)\<lparr>om_finalizers := fs\<rparr>\<rparr>);
             ret (Returns (no_requeue, err)) }
           else if a_conditions a = [] then do {
             t \<leftarrow> now X;
             (err, a) \<leftarrow> api_status_update (accounts X) AccountCall
               (a\<lparr>a_status := (a_status a)\<lparr>ast_conditions := set_condition X t (a_conditions a)
                   (cond BucketSAConditionCreating ConditionTrue ''Creating''
                      ''BucketServiceAccount is being created'' (om_generation (a_meta a)))\<rparr>\<rparr>);
             case err of
               Some e \<Rightarrow> ret (Returns (no_requeue, Some e))
             | None \<Rightarrow> account_converge X a }
           else account_converge X a) }"

section \<open>Garbage collection\<close>

text \<open>
  The loop over the conditions of an account (lines 399 to 405). \<open>None\<close>: the account is
  skipped by \<^verbatim>\<open>continue iter\<close>; otherwise the value of \<^verbatim>\<open>found\<close> after the loop.
\<close>

fun gc_scan :: "'w env \<Rightarrow> int \<Rightarrow> bool \<Rightarrow> condition list \<Rightarrow> ('w, bool option) handler" where
  "gc_scan X ttl found [] = ret (Some found)"
| "gc_scan X ttl found (v # vs) =
     (let found = (cd_type v = BucketSAConditionDeletionPending \<or> cd_type v = BucketSAConditionDeleting) in
      if found then do {
        t \<leftarrow> now X;
        if cd_lastTransitionTime v + ttl > t then ret None else gc_scan X ttl found vs }
      else gc_scan X ttl found vs)"

definition gc_delete :: "'w env \<Rightarrow> account \<Rightarrow> ('w, unit) handler" where
  "gc_delete X v = do {
     marked \<leftarrow>
       (if \<not> condition_true X (a_conditions v) BucketSAConditionDeleting then do {
          t \<leftarrow> now X;
          (err, v) \<leftarrow> api_status_update (accounts X) AccountCall
            (a_with_status (set_condition X t (a_conditions v)
                (cond BucketSAConditionDeleting ConditionTrue ''BucketServiceAccountDeletion''
                   ''BucketServiceAccount is being deleted'' (om_generation (a_meta v))))
               BucketConditionDeleting v);
          ret (if err = None then Some v else None) }
        else ret (Some v));
     case marked of
       None \<Rightarrow> ret ()
     | Some v \<Rightarrow> do {
         _ \<leftarrow> api_delete (accounts X) AccountCall v;
         ret () } }"

fun gc_each :: "'w env \<Rightarrow> int \<Rightarrow> account list \<Rightarrow> ('w, unit) handler" where
  "gc_each X ttl [] = ret ()"
| "gc_each X ttl (v # vs) = do {
     found \<leftarrow> gc_scan X ttl False (a_conditions v);
     _ \<leftarrow> (if found = Some True then gc_delete X v else ret ());
     gc_each X ttl vs }"

text \<open>One tick of the collector, and the ticks it gets before its context is done.\<close>

definition gc_tick :: "'w env \<Rightarrow> int \<Rightarrow> ('w, unit) handler" where
  "gc_tick X ttl = do {
     (err, items) \<leftarrow> list_accounts X None;
     case err of Some e \<Rightarrow> ret () | None \<Rightarrow> gc_each X ttl items }"

fun gc :: "'w env \<Rightarrow> int \<Rightarrow> nat \<Rightarrow> ('w, unit) handler" where
  "gc X ttl 0 = ret ()"
| "gc X ttl (Suc ticks) = do { _ \<leftarrow> gc_tick X ttl; gc X ttl ticks }"

section \<open>The index of buckets by their account\<close>

definition account_index :: "'w env \<Rightarrow> bucket \<Rightarrow> string list" where
  "account_index X job = (case get_controller_of X (om_ownerReferences (b_meta job)) of
     None \<Rightarrow> []
   | Some owner \<Rightarrow>
      (if or_apiVersion owner \<noteq> group_version_string X GroupVersion \<or> or_kind owner \<noteq> ''BucketServiceAccount''
       then [] else [or_name owner]))"

end
