(* ===== verification/AccountSteps.thy ===== *)
theory AccountSteps imports Accounts begin

text \<open>
  The library of the account reconciler's proofs: what each step of
  \<^verbatim>\<open>src/controllers/bucketserviceaccount_controller.go\<close> calls, in order, and how it can
  end, as rules of the calculus of theory \<open>Prelude\<close>; the interpretation of the report
  contract; the shape of a run; and the grounds on which a run changes MinIO, which are
  segments of its trace.
\<close>

section \<open>Error reports\<close>

text \<open>The account as an error report writes it.\<close>

definition a_failed :: "'w env \<Rightarrow> int \<Rightarrow> int \<Rightarrow> account \<Rightarrow> go_err \<Rightarrow> string \<Rightarrow> account" where
  "a_failed X t t' a e reason = a_with_status
     (set_condition X t' (set_condition X t (a_conditions a)
        (cond BucketSAConditionReady ConditionFalse reason ''Service account is not ready'' (om_generation (a_meta a))))
        ((cond BucketSAConditionError ConditionTrue reason (Error e) (om_generation (a_meta a)))
          \<lparr>cd_lastTransitionTime := t'\<rparr>))
     BucketConditionError a"

interpretation account_report: error_report X "account_err X" a_conditions "\<lambda>a. om_generation (a_meta a)"
    "\<lambda>q. AccountCall (StatusUpdate q)" AnyAccount for X
proof unfold_locales
  fix obj reason
  show "account_err X obj None reason = ret None" by (simp add: account_err_def)
next
  fix obj e reason
  assume "condition_promise X"
  then show "tr (account_err X obj (Some e) reason) (\<lambda>err t. \<exists>q err2 q'.
        says_failed X (a_conditions q) reason e (om_generation (a_meta obj))
      \<and> om_generation (a_meta q) = om_generation (a_meta obj)
      \<and> (case err2 of
           None \<Rightarrow> err = Some e \<and> t = [AccountCall (StatusUpdate q) None q', EventCall (AnyAccount q') Warning ''BucketError'' (Message (Error e))]
         | Some e2 \<Rightarrow> err = combine X [Some e, Some e2] \<and> t = [AccountCall (StatusUpdate q) (Some e2) q']))"
    unfolding account_err_def option.case
    apply (intro tr_intros)
    subgoal for t t' _ _ err2 q'
      by (intro exI [of _ "a_failed X t t' obj e reason"] exI [of _ err2] exI [of _ q'])
        (simp add: a_failed_def a_with_status_def says_failedI title_BucketError)
    subgoal for t t' _ _ err2 q'
      by (intro exI [of _ "a_failed X t t' obj e reason"] exI [of _ err2] exI [of _ q'])
        (simp add: a_failed_def a_with_status_def says_failedI)
    done
qed

section \<open>The user\<close>

lemma tr_reconcileUser:
  fixes a mc
  defines "users \<equiv> \<lambda>us e. MinioCall (AdminClient mc) ListUsers (Users us e)"
    and "added \<equiv> \<lambda>p e. MinioCall (AdminClient mc) (AddUser (name (a_name a)) p) (Done e)"
  assumes there: "\<And>us. us (name (a_name a)) \<noteq> None \<Longrightarrow> Q (Returns (proceed a)) [users us None]"
    and unknown: "\<And>us e. Q (Returns (stop (Some (Wrapf ''unable to list users'' e)) a)) [users us (Some e)]"
    and exits: "\<And>us m. \<not> random_ok X \<Longrightarrow> Q (Exits m) [users us None]"
    and failed: "\<And>us bs e. us (name (a_name a)) = None \<Longrightarrow>
      Q (Returns (stop (Some (Wrapf ''unable to create user'' e)) a)) [users us None, added (encode bs) (Some e)]"
    and created: "\<And>us bs r f args. us (name (a_name a)) = None \<Longrightarrow>
      Q (Returns (proceed a)) [users us None, added (encode bs) None, EventCall (AnyAccount a) Normal r (Format f args)]"
  shows "tr (reconcileUser X mc a) Q"
  unfolding reconcileUser_def by (intro tr_intros) (use assms in auto)

section \<open>The credentials\<close>

definition credentials_key :: "account \<Rightarrow> nsname" where
  "credentials_key a = \<lparr>nn_name = a_name a @ saSecretSuffix, nn_namespace = a_namespace a\<rparr>"

abbreviation key_deleted :: "sdk_client \<Rightarrow> string \<Rightarrow> go_err option \<Rightarrow> call" where
  "key_deleted c k e \<equiv> MinioCall c (DeleteServiceAccount k) (Done e)"

lemma tr_delete_accounts:
  assumes "Q None (map (\<lambda>v. key_deleted (AdminClient mc) v None) vs)"
    and "\<And>us v ws e. vs = us @ v # ws \<Longrightarrow>
      Q (Some e) (map (\<lambda>v. key_deleted (AdminClient mc) v None) us @ [key_deleted (AdminClient mc) v (Some e)])"
  shows "tr (delete_accounts X mc vs) Q"
  using assms
proof (induction vs arbitrary: Q)
  case Nil
  then show ?case by (simp add: tr_return)
next
  case (Cons v vs)
  show ?case
    unfolding delete_accounts.simps
  proof (intro tr_intros)
    fix e :: "go_err option"
    assume "e = None"
    show "tr (delete_accounts X mc vs) (\<lambda>b u. Q b ([key_deleted (AdminClient mc) v e] @ u))"
    proof (rule Cons.IH)
      fix us v' ws e'
      assume "vs = us @ v' # ws"
      then show "Q (Some e') ([key_deleted (AdminClient mc) v e] @
          map (\<lambda>v. key_deleted (AdminClient mc) v None) us @ [key_deleted (AdminClient mc) v' (Some e')])"
        using Cons.prems(2) [of "v # us" v' ws e'] \<open>e = None\<close> by simp
    qed (use Cons.prems(1) \<open>e = None\<close> in simp)
  qed (use Cons.prems(2) [of "[]" v vs] in simp)
qed

text \<open>
  The calls that end with a new service account: the secret is not there, MinIO lists the
  keys of the user, every one of them is deleted, and then the new one is asked for.
\<close>

definition rotation :: "mc_client \<Rightarrow> account \<Rightarrow> go_err \<Rightarrow> secret \<Rightarrow> string list \<Rightarrow> minio_answer \<Rightarrow> call list" where
  "rotation mc a e s keys answer =
     [SecretCall (Get (credentials_key a)) (Some e) s,
      MinioCall (AdminClient mc) (ListServiceAccounts (name (a_name a))) (Accounts keys None)]
     @ map (\<lambda>k. key_deleted (AdminClient mc) k None) keys
     @ [MinioCall (AdminClient mc) (AddServiceAccount (name (a_name a))) answer]"

definition with_credentials :: "secret \<Rightarrow> string \<Rightarrow> string \<Rightarrow> owner_ref list \<Rightarrow> secret" where
  "with_credentials s ak sk refs = s\<lparr>sec_meta := (sec_meta s)\<lparr>om_ownerReferences := refs\<rparr>,
     sec_data := [MinioAccessKey \<mapsto> ak, MinioSecretKey \<mapsto> sk]\<rparr>"

definition with_secret_name :: "account \<Rightarrow> secret \<Rightarrow> account" where
  "with_secret_name a s = a\<lparr>a_status := (a_status a)\<lparr>ast_secretName := Some (om_name (sec_meta s))\<rparr>\<rparr>"

lemma tr_store_credentials:
  fixes a mc s ak sk
  defines "undo \<equiv> \<lambda>e. key_deleted (AdminClient mc) (name (a_name a)) e"
    and "sec \<equiv> with_credentials s ak sk"
  assumes owned: "\<And>e. Q (stop (Some e) a) []"
    and failed: "\<And>refs e e2 s'. Q (stop (combine X [Some (Wrapf ''unable to create secret'' e), e2]) a)
      [SecretCall (Create (sec refs)) (Some e) s', undo e2]"
    and undone: "\<And>refs s' e a' e2 s'' a'' e3. Q (stop (combine X [Some (Wrapf ''unable to update bucket status'' e), e2, e3]) a')
      [SecretCall (Create (sec refs)) None s', AccountCall (StatusUpdate (with_secret_name a s')) (Some e) a',
       SecretCall (Delete s') e2 s'', undo e3]"
    and stored: "\<And>refs s' a' r f args. Q (stop None a') [SecretCall (Create (sec refs)) None s',
       AccountCall (StatusUpdate (with_secret_name a s')) None a', EventCall (AnyAccount a') Normal r (Format f args)]"
  shows "tr (store_credentials X mc a s ak sk) Q"
proof -
  have sec: "s\<lparr>sec_data := [MinioAccessKey \<mapsto> ak, MinioSecretKey \<mapsto> sk],
      sec_meta := (sec_meta s)\<lparr>om_ownerReferences := refs\<rparr>\<rparr> = sec refs" for refs
    by (simp add: sec_def with_credentials_def)
  show ?thesis
    unfolding store_credentials_def Let_def with_secret_name_def [symmetric]
    apply (intro tr_intros)
    apply (simp_all add: sec del: append.simps)
    apply (use owned failed undone stored in \<open>simp_all add: undo_def\<close>)
    done
qed


text \<open>The calls of a run of the step that ends before it asks for new credentials.\<close>

fun looks_up_call :: "mc_client \<Rightarrow> account \<Rightarrow> call \<Rightarrow> bool" where
  "looks_up_call mc a (SecretCall (Get k) _ _) = (k = credentials_key a)"
| "looks_up_call mc a (MinioCall c (ListServiceAccounts u) _) = (c = AdminClient mc \<and> u = name (a_name a))"
| "looks_up_call mc a (MinioCall c (DeleteServiceAccount k) _) = (c = AdminClient mc)"
| "looks_up_call mc a _ = False"

lemma looks_up_deletions [simp]:
  "list_all (looks_up_call mc a) (map (\<lambda>v. key_deleted (AdminClient mc) v None) ks)"
  by (induction ks) auto

lemma tr_account_credentials:
  fixes a mc
  defines "undo \<equiv> \<lambda>e. key_deleted (AdminClient mc) (name (a_name a)) e"
  assumes there: "\<And>s. Q (proceed a) [SecretCall (Get (credentials_key a)) None s]"
    and early: "\<And>e t. list_all (looks_up_call mc a) t \<Longrightarrow> Q (stop (Some e) a) t"
    and refused: "\<And>e0 s keys ak sk e. ignore_not_found X (Some e0) = None \<Longrightarrow> Q (stop (Some (Wrapf ''unable to create service account'' e)) a)
      (rotation mc a e0 s keys (Credentials ak sk (Some e)))"
    and owned: "\<And>e0 s keys ak sk e. ignore_not_found X (Some e0) = None \<Longrightarrow> Q (stop (Some e) a) (rotation mc a e0 s keys (Credentials ak sk None))"
    and failed: "\<And>e0 s keys ak sk refs e e2 s'. ignore_not_found X (Some e0) = None \<Longrightarrow> Q (stop (combine X [Some (Wrapf ''unable to create secret'' e), e2]) a)
      (rotation mc a e0 s keys (Credentials ak sk None) @
       [SecretCall (Create (with_credentials s ak sk refs)) (Some e) s', undo e2])"
    and undone: "\<And>e0 s keys ak sk refs s' e a' e2 s'' e3. ignore_not_found X (Some e0) = None \<Longrightarrow>
      Q (stop (combine X [Some (Wrapf ''unable to update bucket status'' e), e2, e3]) a')
      (rotation mc a e0 s keys (Credentials ak sk None) @
       [SecretCall (Create (with_credentials s ak sk refs)) None s', AccountCall (StatusUpdate (with_secret_name a s')) (Some e) a',
       SecretCall (Delete s') e2 s'', undo e3])"
    and stored: "\<And>e0 s keys ak sk refs s' a' r f args. ignore_not_found X (Some e0) = None \<Longrightarrow> Q (stop None a')
      (rotation mc a e0 s keys (Credentials ak sk None) @
       [SecretCall (Create (with_credentials s ak sk refs)) None s', AccountCall (StatusUpdate (with_secret_name a s')) None a',
       EventCall (AnyAccount a') Normal r (Format f args)])"
  shows "tr (account_reconcileServiceAccount X mc a) Q"
  unfolding account_reconcileServiceAccount_def credentials_key_def [symmetric]
  apply (intro tr_delete_accounts tr_store_credentials tr_intros)
  apply (simp_all add: there early)
  apply clarify
  apply (intro tr_store_credentials tr_intros)
  apply (use refused owned failed undone stored in \<open>simp_all add: undo_def rotation_def\<close>)
  done


section \<open>The policies\<close>

text \<open>The policy of a bucket is there with the right document, or was just added with it.\<close>

definition policy_ensured :: "'w env \<Rightarrow> mc_client \<Rightarrow> bucket \<Rightarrow> call list \<Rightarrow> bool" where
  "policy_ensured X mc b t \<longleftrightarrow> (\<exists>doc. Policy (b_name b) = Returns doc
     \<and> ((\<exists>ps js. MinioCall (AdminClient mc) ListCannedPolicies (Policies ps None) \<in> set t
           \<and> ps (name (b_name b)) = Some js \<and> marshal_policy X js = Inr doc)
       \<or> MinioCall (AdminClient mc) (AddCannedPolicy (name (b_name b)) doc) (Done None) \<in> set t))"

fun policy_call :: "mc_client \<Rightarrow> bucket list \<Rightarrow> call \<Rightarrow> bool" where
  "policy_call mc bs (MinioCall c ListCannedPolicies _) = (c = AdminClient mc)"
| "policy_call mc bs (MinioCall c (AddCannedPolicy n doc) _) =
     (c = AdminClient mc \<and> (\<exists>b \<in> set bs. n = name (b_name b) \<and> Policy (b_name b) = Returns doc))"
| "policy_call mc bs _ = False"

lemma policy_call_mono: "policy_call mc bs c \<Longrightarrow> set bs \<subseteq> set cs \<Longrightarrow> policy_call mc cs c"
  by (cases "(mc, bs, c)" rule: policy_call.cases) auto

lemma policy_calls_mono: "list_all (policy_call mc bs) t \<Longrightarrow> set bs \<subseteq> set cs \<Longrightarrow> list_all (policy_call mc cs) t"
  by (auto simp: list_all_iff policy_call_mono)

lemma policy_ensured_append [simp]:
  "policy_ensured X mc b t \<Longrightarrow> policy_ensured X mc b (t @ u)"
  "policy_ensured X mc b u \<Longrightarrow> policy_ensured X mc b (t @ u)"
  "policy_ensured X mc b t \<Longrightarrow> policy_ensured X mc b (c # t)"
  by (auto simp: policy_ensured_def)

lemma tr_reconcilePolicy:
  assumes "\<And>t. list_all (policy_call mc [b]) t \<Longrightarrow> policy_ensured X mc b t \<Longrightarrow> Q (Returns (no_requeue, True, None)) t"
    and "\<And>e t. list_all (policy_call mc [b]) t \<Longrightarrow> Q (Returns (no_requeue, False, Some e)) t"
    and "\<And>m. Policy (b_name b) = Panics m \<Longrightarrow> Q (Panics m) []"
  shows "tr (reconcilePolicy X mc b) Q"
proof -
  have no_exit: "Policy n \<noteq> Exits m" for n m
    by (simp add: Policy_def split: option.splits)
  show ?thesis
    unfolding reconcilePolicy_def Let_def
    by (intro tr_intros) (auto simp: no_exit policy_ensured_def intro!: assms)
qed

lemma tr_each_policy:
  assumes "\<And>t. list_all (policy_call mc bs) t \<Longrightarrow> \<forall>b \<in> set bs. policy_ensured X mc b t \<Longrightarrow>
      Q (Returns (Inr (map (\<lambda>b. name (b_name b)) bs))) t"
    and "\<And>e t. list_all (policy_call mc bs) t \<Longrightarrow> Q (Returns (Inl (no_requeue, Some e))) t"
    and "\<And>m t. list_all (policy_call mc bs) t \<Longrightarrow> \<exists>b \<in> set bs. Policy (b_name b) = Panics m \<Longrightarrow> Q (Panics m) t"
  shows "tr (each_policy X mc bs) Q"
  using assms
proof (induction bs arbitrary: Q)
  case Nil
  then show ?case by (simp add: tr_return)
next
  case (Cons b bs)
  have here: "list_all (policy_call mc (b # bs)) t" if "list_all (policy_call mc [b]) t" for t
    using that by (rule policy_calls_mono) simp
  have later: "list_all (policy_call mc (b # bs)) t" if "list_all (policy_call mc bs) t" for t
    using that by (rule policy_calls_mono) auto
  show ?case
    unfolding each_policy.simps
  proof (intro tr_reconcilePolicy tr_bind)
    fix t assume t: "list_all (policy_call mc [b]) t" "policy_ensured X mc b t"
    show "tr (go_on (Returns (no_requeue, True, None)) (\<lambda>(re, ok, err).
       if \<not> ok then ret (Returns (Inl (re, err)))
       else do {
         r \<leftarrow> each_policy X mc bs;
         go_on r (\<lambda>r. case r of
             Inl e \<Rightarrow> ret (Returns (Inl e))
           | Inr policies \<Rightarrow> ret (Returns (Inr (name (b_name b) # policies)))) })) (\<lambda>r u. Q r (t @ u))"
      by (simp, rule tr_bind, rule Cons.IH)
        (use t here later Cons.prems(1,2) in \<open>auto intro!: tr_return Cons.prems(3)\<close>)
  qed (use here Cons.prems in \<open>auto intro!: tr_return\<close>)
qed

definition policies_set :: "mc_client \<Rightarrow> account \<Rightarrow> bucket list \<Rightarrow> go_err option \<Rightarrow> call" where
  "policies_set mc a items e = MinioCall (AdminClient mc)
     (SetPolicy (join '','' (map (\<lambda>b. name (b_name b)) items)) (name (a_name a)) False) (Done e)"

lemma tr_assign_policies:
  assumes assigned: "\<And>t r f args. list_all (policy_call mc items) t \<Longrightarrow> \<forall>b \<in> set items. policy_ensured X mc b t \<Longrightarrow>
      Q (Returns (proceed a)) (t @ [policies_set mc a items None, EventCall (AnyAccount a) Normal r (Format f args)])"
    and refused: "\<And>t e. list_all (policy_call mc items) t \<Longrightarrow> \<forall>b \<in> set items. policy_ensured X mc b t \<Longrightarrow>
      Q (Returns (stop (Some (Wrapf ''unable to set policy'' e)) a)) (t @ [policies_set mc a items (Some e)])"
    and failed: "\<And>t e. list_all (policy_call mc items) t \<Longrightarrow> Q (Returns (stop (Some e) a)) t"
    and panicked: "\<And>t m. list_all (policy_call mc items) t \<Longrightarrow> \<exists>b \<in> set items. Policy (b_name b) = Panics m \<Longrightarrow> Q (Panics m) t"
  shows "tr (assign_policies X mc a items) Q"
  unfolding assign_policies_def policies_set_def [symmetric]
  apply (intro tr_each_policy tr_intros)
  apply (use assigned refused failed panicked in \<open>auto simp: policies_set_def\<close>)
  done

text \<open>The account with the condition that it waits for its deletion, and without it.\<close>

definition pending_account :: "'w env \<Rightarrow> int \<Rightarrow> account \<Rightarrow> account" where
  "pending_account X t a = a_with_status (set_condition X t (a_conditions a)
       (cond BucketSAConditionDeletionPending ConditionTrue ''DanglingServiceAccount''
          ''Service account is not used by any bucket and will be deleted in 1 minute''
          (om_generation (a_meta a))))
     BucketSAConditionDeletionPending a"

definition kept_account :: "'w env \<Rightarrow> account \<Rightarrow> account" where
  "kept_account X a = a\<lparr>a_status := (a_status a)\<lparr>ast_conditions :=
     remove_condition X (a_conditions a) BucketSAConditionDeletionPending\<rparr>\<rparr>"

definition listed :: "account \<Rightarrow> go_err option \<Rightarrow> bucket list \<Rightarrow> call" where
  "listed a e items = ListBuckets (Some (ownerKey, a_name a)) e items"

lemma tr_reconcilePolicies:
  assumes unlisted: "\<And>e items. Q (Returns (stop (Some e) a)) [listed a (Some e) items]"
    and dangling: "\<And>t err a'. \<not> condition_true X (a_conditions a) BucketSAConditionDeletionPending \<Longrightarrow>
      Q (Returns (stop err a')) [listed a None [], AccountCall (StatusUpdate (pending_account X t a)) err a']"
    and unkept: "\<And>items e a'. items \<noteq> [] \<Longrightarrow> condition_true X (a_conditions a) BucketSAConditionDeletionPending \<Longrightarrow>
      Q (Returns (stop (Some e) a')) [listed a None items, AccountCall (StatusUpdate (kept_account X a)) (Some e) a']"
    and kept: "\<And>items a'. items \<noteq> [] \<Longrightarrow> condition_true X (a_conditions a) BucketSAConditionDeletionPending \<Longrightarrow>
      tr (assign_policies X mc a' items) (\<lambda>r u. Q r (listed a None items # AccountCall (StatusUpdate (kept_account X a)) None a' # u))"
    and used: "\<And>items. items \<noteq> [] \<longleftrightarrow> \<not> condition_true X (a_conditions a) BucketSAConditionDeletionPending \<Longrightarrow>
      tr (assign_policies X mc a items) (\<lambda>r u. Q r (listed a None items # u))"
  shows "tr (reconcilePolicies X mc a) Q"
  unfolding reconcilePolicies_def listed_def [symmetric] kept_account_def [symmetric] pending_account_def [symmetric]
  apply (intro tr_intros)
  apply (use assms in \<open>auto simp: listed_def\<close>)
  done

section \<open>Deletion\<close>

definition account_provider :: "account \<Rightarrow> nsname" where
  "account_provider a = \<lparr>nn_name = as_provider (a_spec a), nn_namespace = ''''\<rparr>"

definition account_deleted :: "account \<Rightarrow> bool" where
  "account_deleted a \<longleftrightarrow> \<not> is_zero (om_deletionTimestamp (a_meta a))"

definition deleting_account :: "'w env \<Rightarrow> int \<Rightarrow> account \<Rightarrow> account" where
  "deleting_account X t a = a_with_status (set_condition X t (a_conditions a)
     (cond BucketSAConditionDeleting ConditionTrue ''BucketServiceAccountDeletion''
        ''BucketServiceAccount is being deleted'' (om_generation (a_meta a)))) BucketConditionDeleting a"

fun closing_call :: "'w env \<Rightarrow> account \<Rightarrow> call \<Rightarrow> bool" where
  "closing_call X a (AccountCall (StatusUpdate q) _ _) =
     (\<not> condition_true X (a_conditions a) BucketSAConditionDeleting \<and> (\<exists>t. q = deleting_account X t a))"
| "closing_call X a (AccountCall (Update q) _ _) = condition_true X (a_conditions a) BucketSAConditionDeleting"
| "closing_call X a (ProviderCall (Get k) _ _) = (k = account_provider a)"
| "closing_call X a (SecretCall (Get _) _ _) = True"
| "closing_call X a (SecretCall (Delete s) _ _) =
     (s = zero_secret\<lparr>sec_meta := new_meta (a_name a @ saSecretSuffix) (a_namespace a)\<rparr>)"
| "closing_call X a (MinioCall _ (RemoveUser u) _) =
     (condition_true X (a_conditions a) BucketSAConditionDeleting \<and> u = name (a_name a))"
| "closing_call X a (EventCall _ _ _ _) = True"
| "closing_call X a _ = False"

text \<open>The MinIO side of an account is settled: its provider is gone, or MinIO has no such user any more.\<close>

definition user_gone :: "'w env \<Rightarrow> account \<Rightarrow> call list \<Rightarrow> bool" where
  "user_gone X a t \<longleftrightarrow>
     (\<exists>e p. ProviderCall (Get (account_provider a)) (Some e) p \<in> set t \<and> is_not_found X e)
   \<or> (\<exists>c e s e' s'. sublist [SecretCall (Delete s) e s', MinioCall c (RemoveUser (name (a_name a))) (Done e')] t
        \<and> (e \<noteq> None \<longrightarrow> ignore_not_found X e = None)
        \<and> (\<forall>v. e' = Some v \<longrightarrow> admin_code X v = ''XMinioAdminNoSuchUser''))"

lemma reads_secret_closing: "reads_secret c \<Longrightarrow> closing_call X a c"
  by (cases c rule: reads_secret.cases) auto

lemma reads_secrets_closing [simp]: "list_all reads_secret t \<Longrightarrow> list_all (closing_call X a) t"
  by (auto simp: list_all_iff reads_secret_closing)

lemma reads_secret_no_update [simp]: "list_all reads_secret t \<Longrightarrow> AccountCall v e q \<notin> set t"
  by (auto simp: list_all_iff)

lemma user_gone_removed:
  assumes "e \<noteq> None \<longrightarrow> ignore_not_found X e = None" "\<forall>v. e' = Some v \<longrightarrow> admin_code X v = ''XMinioAdminNoSuchUser''"
  shows "user_gone X a (p # t @ SecretCall (Delete s) e s' # MinioCall c (RemoveUser (name (a_name a))) (Done e') # u)"
proof -
  have "sublist [SecretCall (Delete s) e s', MinioCall c (RemoveUser (name (a_name a))) (Done e')]
     ((p # t) @ [SecretCall (Delete s) e s', MinioCall c (RemoveUser (name (a_name a))) (Done e')] @ u)"
    by (rule sublist_appendI)
  then have "sublist [SecretCall (Delete s) e s', MinioCall c (RemoveUser (name (a_name a))) (Done e')]
     (p # t @ SecretCall (Delete s) e s' # MinioCall c (RemoveUser (name (a_name a))) (Done e') # u)" by simp
  then show ?thesis unfolding user_gone_def using assms by blast
qed

lemma user_gone_mono:
  assumes "user_gone X a t" and "sublist t t'"
  shows "user_gone X a t'"
proof -
  have "set t \<subseteq> set t'" using assms(2) by (rule set_mono_sublist)
  moreover have "sublist xs t'" if "sublist xs t" for xs
    using that assms(2) by (rule sublist_order.order_trans)
  ultimately show ?thesis using assms(1) unfolding user_gone_def by blast
qed

lemma user_gone_later: "user_gone X a t \<Longrightarrow> user_gone X a (t @ u)" "user_gone X a t \<Longrightarrow> user_gone X a (c # t)"
  by (erule user_gone_mono, simp add: sublist_Cons_right)+

lemma tr_account_reconcileDeletion:
  assumes closed: "\<And>t. list_all (closing_call X a) t \<Longrightarrow> user_gone X a t \<Longrightarrow>
      condition_true X (a_conditions a) BucketSAConditionDeleting \<Longrightarrow>
      (\<And>v e q'. AccountCall v e q' \<notin> set t) \<Longrightarrow> Q (proceed a) t"
    and "\<And>e a' t. list_all (closing_call X a) t \<Longrightarrow> (\<And>q e q'. AccountCall (Update q) e q' \<notin> set t) \<Longrightarrow> Q (stop e a') t"
  shows "tr (account_reconcileDeletion X a) Q"
  unfolding account_reconcileDeletion_def account_provider_def [symmetric] deleting_account_def [symmetric]
  apply (intro tr_intros)
  apply (auto intro!: assms user_gone_removed)
  apply (auto simp: user_gone_def)
  done

lemma tr_account_delete_branch:
  assumes "\<And>r t. list_all (closing_call X a) t \<Longrightarrow> (\<And>q e q'. AccountCall (Update q) e q' \<in> set t \<Longrightarrow>
      user_gone X a t \<and> q = a\<lparr>a_meta := (a_meta a)\<lparr>
        om_finalizers := remove_finalizer X (om_finalizers (a_meta a)) finalizer\<rparr>\<rparr>) \<Longrightarrow> Q (Returns r) t"
  shows "tr (account_delete_branch X a) Q"
  unfolding account_delete_branch_def
  apply (rule tr_bind, rule tr_account_reconcileDeletion)
  subgoal by (simp, intro tr_intros) (auto intro!: assms user_gone_later)
  subgoal by (simp, intro tr_intros) (auto intro!: assms)
  done

section \<open>The run as a whole\<close>

definition account_finalized :: "'w env \<Rightarrow> account \<Rightarrow> bool" where
  "account_finalized X a \<longleftrightarrow> \<not> fst (add_finalizer X (om_finalizers (a_meta a)) finalizer)"

definition creating_account :: "'w env \<Rightarrow> int \<Rightarrow> account \<Rightarrow> account" where
  "creating_account X t a = a\<lparr>a_status := (a_status a)\<lparr>ast_conditions := set_condition X t (a_conditions a)
     (cond BucketSAConditionCreating ConditionTrue ''Creating'' ''BucketServiceAccount is being created''
        (om_generation (a_meta a)))\<rparr>\<rparr>"

text \<open>
  The account \<open>b\<close> a run converges on, after the calls \<open>pre\<close>: the one that was read, or the
  answer to the first write of its status.
\<close>

definition current :: "'w env \<Rightarrow> nsname \<Rightarrow> account \<Rightarrow> call list \<Rightarrow> bool" where
  "current X req b pre \<longleftrightarrow> (\<exists>a. \<not> account_deleted a \<and> account_finalized X a
     \<and> (pre = [AccountCall (Get req) None a] \<and> b = a
      \<or> (\<exists>t. pre = [AccountCall (Get req) None a, AccountCall (StatusUpdate (creating_account X t a)) None b])))"

lemma tr_account_Reconcile:
  assumes unread: "\<And>e a r. Q (Returns r) [AccountCall (Get req) (Some e) a]"
    and gone: "\<And>a. account_deleted a \<Longrightarrow> tr (account_delete_branch X a) (\<lambda>r u. Q r (AccountCall (Get req) None a # u))"
    and adding: "\<And>a fs e a' r. \<not> account_deleted a \<Longrightarrow> add_finalizer X (om_finalizers (a_meta a)) finalizer = (True, fs) \<Longrightarrow>
      Q (Returns r) [AccountCall (Get req) None a, AccountCall (Update (a\<lparr>a_meta := (a_meta a)\<lparr>om_finalizers := fs\<rparr>\<rparr>)) e a']"
    and creating: "\<And>a t e a'. \<not> account_deleted a \<Longrightarrow> account_finalized X a \<Longrightarrow>
      Q (Returns (no_requeue, Some e)) [AccountCall (Get req) None a, AccountCall (StatusUpdate (creating_account X t a)) (Some e) a']"
    and converging: "\<And>b pre. current X req b pre \<Longrightarrow> tr (account_converge X b) (\<lambda>r u. Q r (pre @ u))"
  shows "tr (account_Reconcile X req) Q"
proof -
  have conv: "tr (account_converge X a) (\<lambda>r u. Q r (AccountCall (Get req) None a # u))"
    if "\<not> account_deleted a" "account_finalized X a" for a
  proof -
    have "current X req a [AccountCall (Get req) None a]" using that by (auto simp: current_def)
    from converging [OF this] show ?thesis by simp
  qed
  have conv2: "tr (account_converge X b) (\<lambda>r u. Q r (AccountCall (Get req) None a #
      AccountCall (StatusUpdate (creating_account X t a)) None b # u))"
    if "\<not> account_deleted a" "account_finalized X a" for a b t
  proof -
    have "current X req b [AccountCall (Get req) None a, AccountCall (StatusUpdate (creating_account X t a)) None b]"
      using that by (auto simp: current_def)
    from converging [OF this] show ?thesis by simp
  qed
  show ?thesis
    unfolding account_Reconcile_def account_deleted_def [symmetric] creating_account_def [symmetric]
    apply (intro tr_intros)
    apply (auto intro!: unread gone adding creating conv conv2 simp: account_finalized_def)
    done
qed

text \<open>The steps in sequence: what is left to show after each way a step can end.\<close>

lemma tr_do_user_step:
  fixes a mc
  defines "users \<equiv> \<lambda>us e. MinioCall (AdminClient mc) ListUsers (Users us e)"
    and "added \<equiv> \<lambda>p e. MinioCall (AdminClient mc) (AddUser (name (a_name a)) p) (Done e)"
  assumes there: "\<And>us. us (name (a_name a)) \<noteq> None \<Longrightarrow> tr (go_on_with a) (\<lambda>r u. Q r (users us None # u))"
    and unknown: "\<And>us e. tr (report a (Some (Wrapf ''unable to list users'' e)))
      (\<lambda>e' u. Q (Returns (no_requeue, e')) (users us (Some e) # u))"
    and exits: "\<And>us m. \<not> random_ok X \<Longrightarrow> Q (Exits m) [users us None]"
    and failed: "\<And>us bs e. us (name (a_name a)) = None \<Longrightarrow> tr (report a (Some (Wrapf ''unable to create user'' e)))
      (\<lambda>e' u. Q (Returns (no_requeue, e')) (users us None # added (encode bs) (Some e) # u))"
    and created: "\<And>us bs r f args. us (name (a_name a)) = None \<Longrightarrow>
      tr (go_on_with a) (\<lambda>r' u. Q r' (users us None # added (encode bs) None # EventCall (AnyAccount a) Normal r (Format f args) # u))"
  shows "tr (do_step (reconcileUser X mc a) report go_on_with) Q"
  by (rule tr_do_step, rule tr_reconcileUser) (use assms in simp_all)

lemma tr_do_credentials_step:
  fixes a mc
  defines "undo \<equiv> \<lambda>e. key_deleted (AdminClient mc) (name (a_name a)) e"
  assumes there: "\<And>s. tr (go_on_with a) (\<lambda>r u. Q r (SecretCall (Get (credentials_key a)) None s # u))"
    and early: "\<And>e t. list_all (looks_up_call mc a) t \<Longrightarrow> tr (report a (Some e)) (\<lambda>e' u. Q (Returns (no_requeue, e')) (t @ u))"
    and refused: "\<And>e0 s keys ak sk e. ignore_not_found X (Some e0) = None \<Longrightarrow> tr (report a (Some (Wrapf ''unable to create service account'' e)))
      (\<lambda>e' u. Q (Returns (no_requeue, e')) (rotation mc a e0 s keys (Credentials ak sk (Some e)) @ u))"
    and owned: "\<And>e0 s keys ak sk e. ignore_not_found X (Some e0) = None \<Longrightarrow> tr (report a (Some e))
      (\<lambda>e' u. Q (Returns (no_requeue, e')) (rotation mc a e0 s keys (Credentials ak sk None) @ u))"
    and failed: "\<And>e0 s keys ak sk refs e e2 s'. ignore_not_found X (Some e0) = None \<Longrightarrow> tr (report a (combine X [Some (Wrapf ''unable to create secret'' e), e2]))
      (\<lambda>e' u. Q (Returns (no_requeue, e')) (rotation mc a e0 s keys (Credentials ak sk None) @
       SecretCall (Create (with_credentials s ak sk refs)) (Some e) s' # undo e2 # u))"
    and undone: "\<And>e0 s keys ak sk refs s' e a' e2 s'' e3. ignore_not_found X (Some e0) = None \<Longrightarrow>
      tr (report a' (combine X [Some (Wrapf ''unable to update bucket status'' e), e2, e3]))
      (\<lambda>e' u. Q (Returns (no_requeue, e')) (rotation mc a e0 s keys (Credentials ak sk None) @
       SecretCall (Create (with_credentials s ak sk refs)) None s' # AccountCall (StatusUpdate (with_secret_name a s')) (Some e) a' #
       SecretCall (Delete s') e2 s'' # undo e3 # u))"
    and stored: "\<And>e0 s keys ak sk refs s' a' r f args. ignore_not_found X (Some e0) = None \<Longrightarrow> tr (report a' None)
      (\<lambda>e' u. Q (Returns (no_requeue, e')) (rotation mc a e0 s keys (Credentials ak sk None) @
       SecretCall (Create (with_credentials s ak sk refs)) None s' # AccountCall (StatusUpdate (with_secret_name a s')) None a' #
       EventCall (AnyAccount a') Normal r (Format f args) # u))"
  shows "tr (do_step (returning (account_reconcileServiceAccount X mc a)) report go_on_with) Q"
  by (rule tr_do_step, rule tr_returning, rule tr_account_credentials) (use assms in simp_all)

text \<open>
  What the policies step does before it looks at the policies: it lists the buckets
  \<open>items\<close> of the account, and takes the pending condition back when there are some; it
  goes on with \<open>b\<close>.
\<close>

definition policies_start :: "'w env \<Rightarrow> account \<Rightarrow> account \<Rightarrow> bucket list \<Rightarrow> call list \<Rightarrow> bool" where
  "policies_start X a b items mid \<longleftrightarrow>
     items \<noteq> [] \<and> condition_true X (a_conditions a) BucketSAConditionDeletionPending
       \<and> mid = [listed a None items, AccountCall (StatusUpdate (kept_account X a)) None b]
   \<or> (items \<noteq> [] \<longleftrightarrow> \<not> condition_true X (a_conditions a) BucketSAConditionDeletionPending)
       \<and> b = a \<and> mid = [listed a None items]"

lemma tr_do_policies_step:
  assumes unlisted: "\<And>e items. tr (report a (Some e)) (\<lambda>e' u. Q (Returns (no_requeue, e')) (listed a (Some e) items # u))"
    and dangling: "\<And>t err a'. \<not> condition_true X (a_conditions a) BucketSAConditionDeletionPending \<Longrightarrow>
      tr (report a' err) (\<lambda>e' u. Q (Returns (no_requeue, e'))
        (listed a None [] # AccountCall (StatusUpdate (pending_account X t a)) err a' # u))"
    and unkept: "\<And>items e a'. items \<noteq> [] \<Longrightarrow> condition_true X (a_conditions a) BucketSAConditionDeletionPending \<Longrightarrow>
      tr (report a' (Some e)) (\<lambda>e' u. Q (Returns (no_requeue, e'))
        (listed a None items # AccountCall (StatusUpdate (kept_account X a)) (Some e) a' # u))"
    and assigned: "\<And>b items mid t r f args. policies_start X a b items mid \<Longrightarrow> list_all (policy_call mc items) t \<Longrightarrow>
      \<forall>b \<in> set items. policy_ensured X mc b t \<Longrightarrow>
      tr (go_on_with b) (\<lambda>r' u. Q r' (mid @ t @ policies_set mc b items None # EventCall (AnyAccount b) Normal r (Format f args) # u))"
    and refused: "\<And>b items mid t e. policies_start X a b items mid \<Longrightarrow> list_all (policy_call mc items) t \<Longrightarrow>
      \<forall>b \<in> set items. policy_ensured X mc b t \<Longrightarrow>
      tr (report b (Some (Wrapf ''unable to set policy'' e)))
        (\<lambda>e' u. Q (Returns (no_requeue, e')) (mid @ t @ policies_set mc b items (Some e) # u))"
    and failed: "\<And>b items mid t e. policies_start X a b items mid \<Longrightarrow> list_all (policy_call mc items) t \<Longrightarrow>
      tr (report b (Some e)) (\<lambda>e' u. Q (Returns (no_requeue, e')) (mid @ t @ u))"
    and panicked: "\<And>b items mid t m. policies_start X a b items mid \<Longrightarrow> list_all (policy_call mc items) t \<Longrightarrow>
      \<exists>b \<in> set items. Policy (b_name b) = Panics m \<Longrightarrow> Q (Panics m) (mid @ t)"
  shows "tr (do_step (reconcilePolicies X mc a) report go_on_with) Q"
proof (rule tr_do_step, rule tr_reconcilePolicies)
  fix items :: "bucket list" and a'
  assume "items \<noteq> []" "condition_true X (a_conditions a) BucketSAConditionDeletionPending"
  then have s: "policies_start X a a' items [listed a None items, AccountCall (StatusUpdate (kept_account X a)) None a']"
    by (simp add: policies_start_def)
  note rules = assigned [OF s] refused [OF s] failed [OF s] panicked [OF s]
  show "tr (assign_policies X mc a' items) (\<lambda>r u. (\<forall>m. r = Panics m \<longrightarrow> Q (Panics m) (listed a None items # AccountCall (StatusUpdate (kept_account X a)) None a' # u))
    \<and> (\<forall>m. r = Exits m \<longrightarrow> Q (Exits m) (listed a None items # AccountCall (StatusUpdate (kept_account X a)) None a' # u))
    \<and> (\<forall>re ok err obj. r = Returns ((re, ok, err), obj) \<longrightarrow>
        (if ok then tr (go_on_with obj) (\<lambda>b ua. Q b ((listed a None items # AccountCall (StatusUpdate (kept_account X a)) None a' # u) @ ua))
         else tr (report obj err) (\<lambda>err ua. Q (Returns (re, err)) ((listed a None items # AccountCall (StatusUpdate (kept_account X a)) None a' # u) @ ua)))))"
    by (rule tr_assign_policies) (use rules in simp_all)
next
  fix items :: "bucket list"
  assume "(items \<noteq> []) = (\<not> condition_true X (a_conditions a) BucketSAConditionDeletionPending)"
  then have s: "policies_start X a a items [listed a None items]"
    by (simp add: policies_start_def)
  note rules = assigned [OF s] refused [OF s] failed [OF s] panicked [OF s]
  show "tr (assign_policies X mc a items) (\<lambda>r u. (\<forall>m. r = Panics m \<longrightarrow> Q (Panics m) (listed a None items # u))
    \<and> (\<forall>m. r = Exits m \<longrightarrow> Q (Exits m) (listed a None items # u))
    \<and> (\<forall>re ok err obj. r = Returns ((re, ok, err), obj) \<longrightarrow>
        (if ok then tr (go_on_with obj) (\<lambda>b ua. Q b ((listed a None items # u) @ ua))
         else tr (report obj err) (\<lambda>err ua. Q (Returns (re, err)) ((listed a None items # u) @ ua)))))"
    by (rule tr_assign_policies) (use rules in simp_all)
qed (use unlisted dangling unkept in simp_all)

section \<open>What the run calls while it converges\<close>

fun serving_call :: "account \<Rightarrow> call \<Rightarrow> bool" where
  "serving_call a (ProviderCall (Get k) _ _) = (k = account_provider a)"
| "serving_call a (SecretCall (Get _) _ _) = True"
| "serving_call a (SecretCall (Create _) _ _) = True"
| "serving_call a (SecretCall (Delete _) _ _) = True"
| "serving_call a (AccountCall (StatusUpdate q) _ _) = True"
| "serving_call a (ListBuckets sel _ _) = (sel = Some (ownerKey, a_name a))"
| "serving_call a (MinioCall _ ListUsers _) = True"
| "serving_call a (MinioCall _ (AddUser u _) _) = (u = name (a_name a))"
| "serving_call a (MinioCall _ (ListServiceAccounts u) _) = (u = name (a_name a))"
| "serving_call a (MinioCall _ (DeleteServiceAccount _) _) = True"
| "serving_call a (MinioCall _ (AddServiceAccount u) _) = (u = name (a_name a))"
| "serving_call a (MinioCall _ ListCannedPolicies _) = True"
| "serving_call a (MinioCall _ (AddCannedPolicy _ _) _) = True"
| "serving_call a (MinioCall _ (SetPolicy _ _ grp) _) = (\<not> grp)"
| "serving_call a (EventCall _ _ _ _) = True"
| "serving_call a _ = False"

lemma reads_secret_serving: "reads_secret c \<Longrightarrow> serving_call a c"
  by (cases c rule: reads_secret.cases) auto

lemma looks_up_serving: "looks_up_call mc a c \<Longrightarrow> serving_call a c"
  by (cases "(mc, a, c)" rule: looks_up_call.cases) auto

lemma policy_serving: "policy_call mc bs c \<Longrightarrow> serving_call a c"
  by (cases "(mc, bs, c)" rule: policy_call.cases) auto

lemma serving_calls [simp]:
  "list_all reads_secret t \<Longrightarrow> list_all (serving_call a) t"
  "list_all (looks_up_call mc a) t \<Longrightarrow> list_all (serving_call a) t"
  "list_all (policy_call mc bs) t \<Longrightarrow> list_all (serving_call a) t"
  "list_all (serving_call a) (map (\<lambda>k. key_deleted c k None) ks)"
  "list_all (serving_call a) (rotation mc a e s ks ans)"
  by (auto simp: list_all_iff rotation_def reads_secret_serving looks_up_serving policy_serving)

lemma serving_listed [simp]: "serving_call a (listed a e items)"
  by (simp add: listed_def)

lemma serving_policies_set [simp]: "serving_call a (policies_set mc b items e)"
  by (simp add: policies_set_def)

lemma serving_start [simp]: "policies_start X a b items mid \<Longrightarrow> list_all (serving_call a) mid"
  by (auto simp: policies_start_def)

lemma account_converge_calls:
  assumes cp: "condition_promise X"
  shows "tr (account_converge X a) (\<lambda>r. list_all (serving_call a))"
  unfolding account_converge_def account_provider_def [symmetric] account_ready_def
  by (intro tr_do_user_step tr_do_credentials_step tr_do_policies_step account_report.tr_report [OF cp] tr_intros)
    auto

section \<open>Which calls a part of a trace does not have\<close>

lemma rotation_calls [simp]:
  "MinioCall c (AddServiceAccount u) x \<in> set (rotation mc a e s ks ans) \<longleftrightarrow>
     c = AdminClient mc \<and> u = name (a_name a) \<and> x = ans"
  "SecretCall (Create q) e' s' \<notin> set (rotation mc a e s ks ans)"
  "AccountCall v e' b \<notin> set (rotation mc a e s ks ans)"
  "ListBuckets sel e' l \<notin> set (rotation mc a e s ks ans)"
  "MinioCall c (AddUser u p) x \<notin> set (rotation mc a e s ks ans)"
  "MinioCall c (SetPolicy ps u g) x \<notin> set (rotation mc a e s ks ans)"
  "MinioCall c (AddCannedPolicy n d) x \<notin> set (rotation mc a e s ks ans)"
  by (auto simp: rotation_def)

lemma looks_up_quiet [simp]:
  assumes "list_all (looks_up_call mc a) t"
  shows "MinioCall c (AddServiceAccount u) x \<notin> set t" "SecretCall (Create q) e s \<notin> set t"
    "AccountCall v e b \<notin> set t" "ListBuckets sel e l \<notin> set t" "MinioCall c (AddUser u p) x \<notin> set t"
    "MinioCall c (SetPolicy ps u g) x \<notin> set t" "MinioCall c (AddCannedPolicy n d) x \<notin> set t"
  using assms by (auto simp: list_all_iff)

lemma policy_quiet [simp]:
  assumes "list_all (policy_call mc bs) t"
  shows "MinioCall c (AddServiceAccount u) x \<notin> set t" "SecretCall v' e s \<notin> set t"
    "AccountCall v e b \<notin> set t" "ListBuckets sel e l \<notin> set t" "MinioCall c (AddUser u p) x \<notin> set t"
    "MinioCall c (SetPolicy ps u g) x \<notin> set t"
  using assms by (auto simp: list_all_iff)

lemma reads_secret_quiet_account [simp]:
  assumes "list_all reads_secret t"
  shows "MinioCall c r x \<notin> set t" "SecretCall (Create q) e s \<notin> set t" "ListBuckets sel e l \<notin> set t"
  using assms by (auto simp: list_all_iff)

lemma start_quiet [simp]:
  assumes "policies_start X a b items mid"
  shows "MinioCall c r x \<notin> set mid" "SecretCall v e s \<notin> set mid"
  using assms by (auto simp: policies_start_def listed_def)

lemma listed_other [simp]:
  "MinioCall c r x \<noteq> listed a e items" "SecretCall v e' s \<noteq> listed a e items" "AccountCall v' e' b \<noteq> listed a e items"
  by (simp_all add: listed_def)

lemma policies_set_other [simp]:
  "SecretCall v e' s \<noteq> policies_set mc a items e" "AccountCall v' e' b \<noteq> policies_set mc a items e"
  "ListBuckets sel e' l \<noteq> policies_set mc a items e"
  "MinioCall c (AddUser u p) x \<noteq> policies_set mc a items e"
  "MinioCall c (AddServiceAccount u) x \<noteq> policies_set mc a items e"
  "MinioCall c (AddCannedPolicy n d) x \<noteq> policies_set mc a items e"
  by (simp_all add: policies_set_def)

section \<open>The grounds of the calls that change MinIO\<close>

fun grounds :: "'w env \<Rightarrow> account \<Rightarrow> call \<Rightarrow> call list \<Rightarrow> bool" where
  "grounds X a (MinioCall c (AddUser u p) x) xs = (u = name (a_name a) \<and> decode p \<noteq> None
     \<and> (\<exists>us. us u = None \<and> xs = [MinioCall c ListUsers (Users us None), MinioCall c (AddUser u p) x]))"
| "grounds X a (MinioCall c (AddServiceAccount u) x) xs = (u = name (a_name a)
     \<and> (\<exists>mc e s keys. c = AdminClient mc \<and> ignore_not_found X (Some e) = None \<and> xs = rotation mc a e s keys x))"
| "grounds X a (SecretCall (Create q) e' s') xs =
     (\<exists>mc e s keys ak sk refs. ignore_not_found X (Some e) = None \<and> q = with_credentials s ak sk refs
        \<and> xs = rotation mc a e s keys (Credentials ak sk None) @ [SecretCall (Create q) e' s'])"
| "grounds X a (MinioCall c (AddCannedPolicy n d) x) xs =
     (\<exists>mc b items mid t. policies_start X a b items mid \<and> list_all (policy_call mc items) t
        \<and> policy_call mc items (MinioCall c (AddCannedPolicy n d) x)
        \<and> xs = mid @ t @ [MinioCall c (AddCannedPolicy n d) x])"
| "grounds X a (MinioCall c (SetPolicy ps u g) x) xs =
     (\<exists>mc b items mid t e. policies_start X a b items mid \<and> list_all (policy_call mc items) t
        \<and> (\<forall>i \<in> set items. policy_ensured X mc i t) \<and> MinioCall c (SetPolicy ps u g) x = policies_set mc b items e
        \<and> xs = mid @ t @ [policies_set mc b items e])"
| "grounds X a (MinioCall c (RemoveUser u) x) xs = (u = name (a_name a) \<and> (\<exists>s e s'. om_name (sec_meta s) = a_name a @ saSecretSuffix
     \<and> om_namespace (sec_meta s) = a_namespace a \<and> (e \<noteq> None \<longrightarrow> ignore_not_found X e = None)
     \<and> xs = [SecretCall (Delete s) e s', MinioCall c (RemoveUser u) x]))"
| "grounds X a _ xs = True"

lemma calm_read: "reads_secret c \<Longrightarrow> grounds X a c []"
  by (cases c rule: reads_secret.cases) simp_all

lemma calm_look: "looks_up_call mc a c \<Longrightarrow> grounds X a c []"
  by (cases "(mc, a, c)" rule: looks_up_call.cases) simp_all

lemma calm_lookups [simp]:
  "list_all reads_secret t \<Longrightarrow> list_all (\<lambda>c. grounds X a c []) t"
  "list_all (looks_up_call mc a) t \<Longrightarrow> list_all (\<lambda>c. grounds X a c []) t"
  by (auto simp: list_all_iff calm_read calm_look)

lemma calm_start [simp]: "policies_start X a b items mid \<Longrightarrow> list_all (\<lambda>c. grounds X a c []) mid"
  by (auto simp: policies_start_def listed_def)

lemma calm_listed [simp]: "grounds X a (listed a e items) []"
  by (simp add: listed_def)

lemma grounded_user:
  assumes "us (name (a_name a)) = None" and "justified (grounds X a) u"
  shows "justified (grounds X a) (MinioCall c ListUsers (Users us None) # MinioCall c (AddUser (name (a_name a)) (encode bs)) x # u)"
proof -
  have "justified (grounds X a) ([MinioCall c ListUsers (Users us None)] @ [MinioCall c (AddUser (name (a_name a)) (encode bs)) x])"
    by (rule justified_last) (use assms(1) in \<open>auto simp: justified_calm decode_encode\<close>)
  from justified_append [OF this assms(2)] show ?thesis by simp
qed

lemma grounded_rotation_only:
  assumes "ignore_not_found X (Some e) = None"
  shows "justified (grounds X a) (rotation mc a e s keys x)"
proof -
  have "justified (grounds X a) ((SecretCall (Get (credentials_key a)) (Some e) s
      # MinioCall (AdminClient mc) (ListServiceAccounts (name (a_name a))) (Accounts keys None)
      # map (\<lambda>k. key_deleted (AdminClient mc) k None) keys)
     @ [MinioCall (AdminClient mc) (AddServiceAccount (name (a_name a))) x])"
    by (rule justified_last, rule justified_calm) (use assms in \<open>auto simp: list_all_iff rotation_def\<close>)
  then show ?thesis by (simp add: rotation_def)
qed

lemma grounded_rotation:
  assumes "ignore_not_found X (Some e) = None" and "justified (grounds X a) u"
  shows "justified (grounds X a) (rotation mc a e s keys x @ u)"
  by (rule justified_append [OF grounded_rotation_only [OF assms(1)] assms(2)])

lemma grounded_secret:
  assumes "ignore_not_found X (Some e) = None" and "justified (grounds X a) u"
  shows "justified (grounds X a) (rotation mc a e s keys (Credentials ak sk None)
     @ SecretCall (Create (with_credentials s ak sk refs)) e' s' # u)"
proof -
  have "justified (grounds X a) (rotation mc a e s keys (Credentials ak sk None)
     @ [SecretCall (Create (with_credentials s ak sk refs)) e' s'])"
    by (rule justified_last [OF grounded_rotation_only [OF assms(1)]]) (use assms(1) in \<open>simp, blast\<close>)
  from justified_append [OF this assms(2)] show ?thesis by simp
qed

lemma grounded_policy_call:
  assumes "policies_start X a b items mid" and "list_all (policy_call mc items) t" and "policy_call mc items c"
  shows "grounds X a c (mid @ t @ [c])"
proof -
  consider cl x where "c = MinioCall cl ListCannedPolicies x"
    | cl n d x where "c = MinioCall cl (AddCannedPolicy n d) x"
    using assms(3) by (cases "(mc, items, c)" rule: policy_call.cases) simp_all
  then show ?thesis
  proof cases
    case 2
    then show ?thesis using assms unfolding \<open>c = MinioCall cl (AddCannedPolicy n d) x\<close> grounds.simps(4) by blast
  qed simp
qed

lemma grounded_policies_only:
  assumes s: "policies_start X a b items mid" and t: "list_all (policy_call mc items) t"
  shows "justified (grounds X a) (mid @ t)"
proof -
  have "\<exists>xs. grounds X a c xs \<and> sublist xs (mid @ t)" if "c \<in> set t" for c
  proof -
    from split_list [OF that] obtain t1 t2 where d: "t = t1 @ c # t2" by blast
    have sl: "sublist (mid @ t1 @ [c]) (mid @ t)" unfolding d by (metis append.assoc append_Cons append_Nil sublist_append_rightI)
    have "list_all (policy_call mc items) t1" "policy_call mc items c" using t d by simp_all
    then have "grounds X a c (mid @ t1 @ [c])" by (rule grounded_policy_call [OF s])
    with sl show ?thesis by blast
  qed
  moreover have "\<exists>xs. grounds X a c xs \<and> sublist xs (mid @ t)" if "c \<in> set mid" for c
    using calm_start [OF s] that by (auto simp: list_all_iff intro: exI [of _ "[]"])
  ultimately show ?thesis by (auto simp: justified_def)
qed

lemma grounded_policies:
  assumes "policies_start X a b items mid" and "list_all (policy_call mc items) t" and "justified (grounds X a) u"
  shows "justified (grounds X a) (mid @ t @ u)"
  using justified_append [OF grounded_policies_only [OF assms(1,2)] assms(3)] by simp

lemma grounded_assigned:
  assumes "policies_start X a b items mid" and "list_all (policy_call mc items) t"
    and "\<forall>i \<in> set items. policy_ensured X mc i t" and "justified (grounds X a) u"
  shows "justified (grounds X a) (mid @ t @ policies_set mc b items e # u)"
proof -
  have "grounds X a (policies_set mc b items e) (mid @ t @ [policies_set mc b items e])"
    unfolding policies_set_def [of mc b items e] grounds.simps
    using assms(1-3) by (intro exI conjI) (auto simp: policies_set_def)
  then have "justified (grounds X a) ((mid @ t) @ [policies_set mc b items e])"
    by (intro justified_last grounded_policies_only [OF assms(1,2)]) simp
  from justified_append [OF this assms(4)] show ?thesis by simp
qed

lemma grounded_lookups:
  "list_all reads_secret t \<Longrightarrow> justified (grounds X a) u \<Longrightarrow> justified (grounds X a) (t @ u)"
  "list_all (looks_up_call mc a) t \<Longrightarrow> justified (grounds X a) u \<Longrightarrow> justified (grounds X a) (t @ u)"
  by (simp_all add: justified_append justified_calm)

lemma converge_grounds:
  assumes cp: "condition_promise X"
  shows "tr (account_converge X a) (\<lambda>_. justified (grounds X a))"
  unfolding account_converge_def account_ready_def
  apply (intro tr_do_user_step tr_do_credentials_step tr_do_policies_step account_report.tr_report [OF cp] tr_intros)
  apply simp_all
  apply ((rule grounded_assigned, assumption, assumption, assumption)
    | (rule grounded_policies, assumption, assumption)
    | (rule grounded_policies_only, assumption, assumption)
    | (rule grounded_user, assumption) | (rule grounded_secret, assumption) | (rule grounded_rotation, assumption)
    | (rule grounded_rotation_only, assumption) | (rule grounded_lookups, assumption)
    | (rule justified_Cons, simp; fail) | (rule justified_Cons, simp) | (rule justified_calm, simp; fail))+
  done

lemma grounded_removal:
  assumes "e = None \<or> ignore_not_found X e = None" and "justified (grounds X a) u"
  shows "justified (grounds X a) (SecretCall (Delete (zero_secret\<lparr>sec_meta := new_meta (a_name a @ saSecretSuffix) (a_namespace a)\<rparr>)) e s'
     # MinioCall c (RemoveUser (name (a_name a))) x # u)"
proof -
  let ?s = "zero_secret\<lparr>sec_meta := new_meta (a_name a @ saSecretSuffix) (a_namespace a)\<rparr>"
  have "om_name (sec_meta ?s) = a_name a @ saSecretSuffix" "om_namespace (sec_meta ?s) = a_namespace a"
    by (simp_all add: new_meta_def)
  then have "grounds X a (MinioCall c (RemoveUser (name (a_name a))) x)
      ([SecretCall (Delete ?s) e s'] @ [MinioCall c (RemoveUser (name (a_name a))) x])"
    using assms(1) unfolding grounds.simps by force
  then have "justified (grounds X a) ([SecretCall (Delete ?s) e s'] @ [MinioCall c (RemoveUser (name (a_name a))) x])"
    by (intro justified_last justified_calm) simp_all
  from justified_append [OF this assms(2)] show ?thesis by simp
qed

lemma deletion_grounds: "tr (account_reconcileDeletion X a) (\<lambda>_. justified (grounds X a))"
  unfolding account_reconcileDeletion_def
  apply (intro tr_intros)
  apply simp_all
  apply ((rule grounded_removal, assumption) | (rule grounded_lookups, assumption)
    | (rule justified_Cons, simp; fail) | (rule justified_Cons, simp) | (rule justified_calm, simp; fail))+
  done

lemma closing_grounds: "tr (account_delete_branch X a) (\<lambda>_. justified (grounds X a))"
proof -
  have rest: "tr (case r of (x, b) \<Rightarrow> (case x of (re, ok, err) \<Rightarrow> \<lambda>a.
     if \<not> ok then ret (Returns (re, err))
     else do {
       (err, _) \<leftarrow> api_update (accounts X) AccountCall (a\<lparr>a_meta := (a_meta a)\<lparr>
         om_finalizers := remove_finalizer X (om_finalizers (a_meta a)) finalizer\<rparr>\<rparr>);
       case err of
         Some e \<Rightarrow> ret (Returns (no_requeue, ignore_not_found X (Some e)))
       | None \<Rightarrow> ret (Returns (no_requeue, None)) }) b) (\<lambda>b u. justified (grounds X a) (t @ u))"
    if "justified (grounds X a) t" for r t
    using that by (auto intro!: tr_intros justified_append justified_Cons split: prod.splits)
  show ?thesis
    unfolding account_delete_branch_def
    by (rule tr_bind, rule tr_mono [OF deletion_grounds], rule rest)
qed

section \<open>The shape of a run\<close>

text \<open>
  How a run of \<open>account_Reconcile\<close> can go, with its result and its trace; \<open>P\<close> is what is
  known of its converging part.
\<close>

inductive account_runs :: "'w env \<Rightarrow> nsname \<Rightarrow> (account \<Rightarrow> (ctrl_result \<times> go_err option) go \<Rightarrow> call list \<Rightarrow> bool) \<Rightarrow>
    (ctrl_result \<times> go_err option) go \<Rightarrow> call list \<Rightarrow> bool" for X req P where
  unread: "account_runs X req P (Returns r) [AccountCall (Get req) (Some e) a]"
| closing: "account_deleted a \<Longrightarrow> list_all (closing_call X a) u \<Longrightarrow> justified (grounds X a) u \<Longrightarrow>
    (\<And>q e q'. AccountCall (Update q) e q' \<in> set u \<Longrightarrow> user_gone X a u
       \<and> q = a\<lparr>a_meta := (a_meta a)\<lparr>om_finalizers := remove_finalizer X (om_finalizers (a_meta a)) finalizer\<rparr>\<rparr>) \<Longrightarrow>
    account_runs X req P (Returns r) (AccountCall (Get req) None a # u)"
| adding: "\<not> account_deleted a \<Longrightarrow> add_finalizer X (om_finalizers (a_meta a)) finalizer = (True, fs) \<Longrightarrow>
    account_runs X req P (Returns r) [AccountCall (Get req) None a,
      AccountCall (Update (a\<lparr>a_meta := (a_meta a)\<lparr>om_finalizers := fs\<rparr>\<rparr>)) e a']"
| creating: "\<not> account_deleted a \<Longrightarrow> account_finalized X a \<Longrightarrow>
    account_runs X req P (Returns (no_requeue, Some e)) [AccountCall (Get req) None a,
      AccountCall (StatusUpdate (creating_account X t a)) (Some e) a']"
| serving: "current X req b pre \<Longrightarrow> list_all (serving_call b) u \<Longrightarrow> justified (grounds X b) u \<Longrightarrow> P b r u \<Longrightarrow>
    account_runs X req P r (pre @ u)"

lemma tr_delete_branch_all:
  "tr (account_delete_branch X a) (\<lambda>r t. (\<exists>v. r = Returns v) \<and> list_all (closing_call X a) t \<and> justified (grounds X a) t
     \<and> (\<forall>q e q'. AccountCall (Update q) e q' \<in> set t \<longrightarrow> user_gone X a t \<and> q = a\<lparr>a_meta := (a_meta a)\<lparr>
        om_finalizers := remove_finalizer X (om_finalizers (a_meta a)) finalizer\<rparr>\<rparr>))"
proof -
  have "tr (account_delete_branch X a) (\<lambda>r t. (\<exists>v. r = Returns v) \<and> list_all (closing_call X a) t
     \<and> (\<forall>q e q'. AccountCall (Update q) e q' \<in> set t \<longrightarrow> user_gone X a t \<and> q = a\<lparr>a_meta := (a_meta a)\<lparr>
        om_finalizers := remove_finalizer X (om_finalizers (a_meta a)) finalizer\<rparr>\<rparr>))"
    by (rule tr_account_delete_branch) blast
  from tr_conj [OF this closing_grounds] show ?thesis by (rule tr_mono) blast
qed

lemma account_run:
  assumes cp: "condition_promise X" and P: "\<And>b. tr (account_converge X b) (P b)"
  shows "tr (account_Reconcile X req) (account_runs X req P)"
proof (rule tr_account_Reconcile)
  fix a assume d: "account_deleted a"
  show "tr (account_delete_branch X a) (\<lambda>r u. account_runs X req P r (AccountCall (Get req) None a # u))"
    by (rule tr_mono [OF tr_delete_branch_all]) (use d account_runs.closing in blast)
next
  fix b pre assume c: "current X req b pre"
  show "tr (account_converge X b) (\<lambda>r u. account_runs X req P r (pre @ u))"
    by (rule tr_mono [OF tr_conj [OF tr_conj [OF account_converge_calls [OF cp] converge_grounds [OF cp]] P]])
      (use c account_runs.serving in blast)
qed (rule account_runs.unread account_runs.adding account_runs.creating; assumption)+

end
