(* ===== verification/AccountRuns.thy ===== *)
theory AccountRuns imports AccountSteps begin

text \<open>
  What holds of the converging part of every run of the account reconciler: how it ends,
  what a Ready status means, what the run makes of the buckets it was told of, and which
  keys it deletes when it rolls back; and how such facts reach a whole run.
\<close>

section \<open>How a converging run ends\<close>

lemma converge_returns:
  assumes cp: "condition_promise X" and rd: "random_ok X"
  shows "tr (account_converge X a) (\<lambda>r t. returned r \<or> (\<exists>m items i. r = Panics m
     \<and> listed a None items \<in> set t \<and> i \<in> set items \<and> Policy (b_name i) = Panics m))"
proof -
  have l: "listed a None items \<in> set mid" if "policies_start X a b items mid" for b items mid
    using that by (auto simp: policies_start_def)
  show ?thesis
    unfolding account_converge_def account_ready_def
    apply (intro tr_do_user_step tr_do_credentials_step tr_do_policies_step account_report.tr_report [OF cp] tr_intros)
    apply (simp_all add: rd)
    apply (use l in blast)+
    done
qed

section \<open>Ready\<close>

text \<open>
  Everything an account needs was there: its user was found or added, its secret was read,
  and its user was given the policies of the buckets that were listed, each of which was
  found right or written.
\<close>

definition user_there :: "account \<Rightarrow> call list \<Rightarrow> bool" where
  "user_there a t \<longleftrightarrow> (\<exists>c us. MinioCall c ListUsers (Users us None) \<in> set t \<and> (us (name (a_name a)) \<noteq> None
     \<or> (\<exists>p. MinioCall c (AddUser (name (a_name a)) p) (Done None) \<in> set t)))"

definition served :: "'w env \<Rightarrow> account \<Rightarrow> call list \<Rightarrow> bool" where
  "served X a t \<longleftrightarrow> user_there a t
     \<and> (\<exists>s. SecretCall (Get (credentials_key a)) None s \<in> set t)
     \<and> (\<exists>mc b items. listed a None items \<in> set t \<and> policies_set mc b items None \<in> set t
          \<and> (b = a \<or> (\<exists>q. AccountCall (StatusUpdate q) None b \<in> set t))
          \<and> (\<forall>i \<in> set items. policy_ensured X mc i t))"

lemma policy_ensured_mono: "policy_ensured X mc i t \<Longrightarrow> set t \<subseteq> set u \<Longrightarrow> policy_ensured X mc i u"
  unfolding policy_ensured_def by blast

lemma served_intro:
  assumes "us (name (a_name a)) \<noteq> None \<or> (\<exists>bs. MinioCall c (AddUser (name (a_name a)) (encode bs)) (Done None) \<in> set t)"
    and "MinioCall c ListUsers (Users us None) \<in> set t" and "SecretCall (Get (credentials_key a)) None s \<in> set t"
    and "policies_start X a b items mid" and "\<forall>i \<in> set items. policy_ensured X mc i p"
    and "set mid \<union> set p \<union> {policies_set mc b items None} \<subseteq> set t"
  shows "served X a t"
proof -
  have "\<forall>i \<in> set items. policy_ensured X mc i t" using assms(5,6) policy_ensured_mono by fastforce
  moreover have "listed a None items \<in> set t" "b = a \<or> (\<exists>q. AccountCall (StatusUpdate q) None b \<in> set t)"
    using assms(4,6) by (auto simp: policies_start_def)
  moreover have "user_there a t" using assms(1,2) by (auto simp: user_there_def)
  ultimately show ?thesis using assms(3,6) unfolding served_def by blast
qed

text \<open>Statuses that leave Ready as it was in \<open>a\<close>, and those that say Ready with all it means.\<close>

fun unready :: "'w env \<Rightarrow> account \<Rightarrow> call \<Rightarrow> bool" where
  "unready X a (AccountCall (StatusUpdate q) _ _) =
     (condition_true X (a_conditions q) BucketSAConditionReady \<longrightarrow> condition_true X (a_conditions a) BucketSAConditionReady)"
| "unready X a _ = True"

definition says_ready :: "'w env \<Rightarrow> account \<Rightarrow> bool" where
  "says_ready X q \<longleftrightarrow> ast_phase (a_status q) = BucketSAConditionReady
     \<and> find_condition X (a_conditions q) BucketSAConditionError = None
     \<and> find_condition X (a_conditions q) BucketSAConditionCreating = None
     \<and> \<not> condition_true X (a_conditions q) BucketSAConditionDeletionPending"

definition account_ready_sound :: "'w env \<Rightarrow> account \<Rightarrow> call list \<Rightarrow> bool" where
  "account_ready_sound X a t \<longleftrightarrow> (\<forall>q e q'. AccountCall (StatusUpdate q) e q' \<in> set t
       \<and> condition_true X (a_conditions q) BucketSAConditionReady
       \<and> \<not> condition_true X (a_conditions a) BucketSAConditionReady \<longrightarrow> served X a t \<and> says_ready X q)"

lemma unready_sound: "list_all (unready X a) t \<Longrightarrow> account_ready_sound X a t"
  by (force simp: account_ready_sound_def list_all_iff)

lemma ready_sound_end:
  assumes "served X a t" and "says_ready X q" and "\<And>c. c \<in> set t \<Longrightarrow> unready X a c \<or> (\<exists>e q'. c = AccountCall (StatusUpdate q) e q')"
  shows "account_ready_sound X a t"
  unfolding account_ready_sound_def
proof (intro allI impI)
  fix r e r'
  assume r: "AccountCall (StatusUpdate r) e r' \<in> set t \<and> condition_true X (a_conditions r) BucketSAConditionReady
    \<and> \<not> condition_true X (a_conditions a) BucketSAConditionReady"
  then have "r = q" using assms(3) [of "AccountCall (StatusUpdate r) e r'"] by auto
  then show "served X a t \<and> says_ready X r" using assms(1,2) by simp
qed

lemma unready_read: "reads_secret c \<Longrightarrow> unready X a c"
  by (cases c rule: reads_secret.cases) simp_all

lemma unready_look: "looks_up_call mc a c \<Longrightarrow> unready X a c"
  by (cases "(mc, a, c)" rule: looks_up_call.cases) simp_all

lemma unready_policy: "policy_call mc bs c \<Longrightarrow> unready X a c"
  by (cases "(mc, bs, c)" rule: policy_call.cases) simp_all

lemmas unready_calls = unready_read unready_look unready_policy

lemma says_failed_unready:
  "condition_promise X \<Longrightarrow> says_failed X cs reason e g \<Longrightarrow> \<not> condition_true X cs BucketSAConditionReady"
  by (auto simp: says_failed_def condition_true_iff)

text \<open>What the steps do to the conditions they do not set.\<close>

lemma account_conditions:
  assumes "condition_promise X"
  shows "a_conditions (with_secret_name a s) = a_conditions a"
    "ty \<noteq> BucketSAConditionDeletionPending \<Longrightarrow>
       condition_true X (a_conditions (pending_account X k a)) ty = condition_true X (a_conditions a) ty"
    "condition_true X (a_conditions (pending_account X k a)) BucketSAConditionDeletionPending"
    "ty \<noteq> BucketSAConditionDeletionPending \<Longrightarrow>
       condition_true X (a_conditions (kept_account X a)) ty = condition_true X (a_conditions a) ty"
    "\<not> condition_true X (a_conditions (kept_account X a)) BucketSAConditionDeletionPending"
  by (simp_all add: with_secret_name_def kept_account_def pending_account_def a_with_status_def condition_simps [OF assms])

lemma unready_parts:
  assumes "condition_promise X"
  shows "list_all reads_secret t \<Longrightarrow> list_all (unready X a) t"
    "list_all (looks_up_call mc a) t \<Longrightarrow> list_all (unready X a) t"
    "list_all (policy_call mc bs) t \<Longrightarrow> list_all (unready X a) t"
    "list_all (unready X a) (rotation mc a e s ks ans)"
    "policies_start X a b items mid \<Longrightarrow> list_all (unready X a) mid"
    "unready X a (listed a e' items)" "unready X a (policies_set mc b items e')"
  by (auto simp: list_all_iff unready_calls rotation_def policies_start_def listed_def policies_set_def account_conditions [OF assms])

lemma ready_sound_served:
  fixes a b mc X k
  defines "q \<equiv> a_with_status (set_condition X k (remove_condition X (remove_condition X (a_conditions b)
      BucketSAConditionCreating) BucketSAConditionError)
      (cond BucketSAConditionReady ConditionTrue BucketSAConditionReady ''BucketServiceAccount is ready''
         (om_generation (a_meta b)))) BucketSAConditionReady b"
  assumes cp: "condition_promise X" and us: "us (name (a_name a)) \<noteq> None \<or> added = [MinioCall c (AddUser (name (a_name a)) (encode bs)) (Done None), ev]"
    and parts: "list_all (unready X a) (added @ t)" "policies_start X a b items mid" "list_all (policy_call mc items) p"
      "\<forall>i \<in> set items. policy_ensured X mc i p"
      "\<not> condition_true X (a_conditions b) BucketSAConditionDeletionPending"
  shows "account_ready_sound X a (ProviderCall v e' x # t @ MinioCall c ListUsers (Users us None) # added
      @ SecretCall (Get (credentials_key a)) None s # mid @ p @ [policies_set mc b items None,
        EventCall (AnyAccount b) ty r m, AccountCall (StatusUpdate q) err q'])"
proof (rule ready_sound_end [where q = q])
  let ?t = "ProviderCall v e' x # t @ MinioCall c ListUsers (Users us None) # added
      @ SecretCall (Get (credentials_key a)) None s # mid @ p @ [policies_set mc b items None,
        EventCall (AnyAccount b) ty r m, AccountCall (StatusUpdate q) err q']"
  show "served X a ?t" by (rule served_intro [OF _ _ _ parts(2,4)]) (use us in auto)
  show "says_ready X q" using parts(5) by (simp add: q_def says_ready_def a_with_status_def condition_simps [OF cp])
  have "list_all (unready X a) mid" "list_all (unready X a) p" using parts(2,3) unready_parts [OF cp] by blast+
  then show "unready X a c' \<or> (\<exists>e q'. c' = AccountCall (StatusUpdate q) e q')" if "c' \<in> set ?t" for c'
    using that parts(1) unready_parts(7) [OF cp] by (auto simp: list_all_iff)
qed

lemmas ready_sound_found = ready_sound_served [where added = "[]", unfolded append_Nil]
  and ready_sound_added = ready_sound_served [where added = "[u, v]" for u v, unfolded append_Cons append_Nil]

lemma converge_account_ready:
  assumes cp: "condition_promise X"
  shows "tr (account_converge X a) (\<lambda>_. account_ready_sound X a)"
    unfolding account_converge_def account_ready_def
    apply (intro tr_do_user_step tr_do_credentials_step tr_do_policies_step account_report.tr_report [OF cp] tr_intros)
    apply (simp_all)
    apply ((rule unready_sound; simp add: unready_parts [OF cp] account_conditions [OF cp] says_failed_unready [OF cp]; fail)
      | (rule ready_sound_found [OF cp]; simp add: unready_parts [OF cp]; fail)
      | (rule ready_sound_added [OF cp]; simp add: unready_parts [OF cp]; fail))+
    done

section \<open>Dangling accounts\<close>

text \<open>What a run makes of the buckets it was told of.\<close>

definition account_pending_sound :: "'w env \<Rightarrow> account \<Rightarrow> call list \<Rightarrow> bool" where
  "account_pending_sound X a t \<longleftrightarrow> (\<forall>items. listed a None items \<in> set t \<longrightarrow>
     (items = [] \<and> \<not> condition_true X (a_conditions a) BucketSAConditionDeletionPending \<longrightarrow>
        (\<exists>k e q'. AccountCall (StatusUpdate (pending_account X k a)) e q' \<in> set t)
      \<and> (\<forall>c ps u g x. MinioCall c (SetPolicy ps u g) x \<notin> set t))
   \<and> (items \<noteq> [] \<and> condition_true X (a_conditions a) BucketSAConditionDeletionPending \<longrightarrow>
        (\<exists>e q'. AccountCall (StatusUpdate (kept_account X a)) e q' \<in> set t))
   \<and> (\<forall>c ps u g x. MinioCall c (SetPolicy ps u g) x \<in> set t \<longrightarrow> ps = join '','' (map (\<lambda>b. name (b_name b)) items)))"

lemma listed_inject [simp]: "listed a e l = listed a e' l' \<longleftrightarrow> e = e' \<and> l = l'"
  by (auto simp: listed_def)

lemma listed_neq [simp]:
  "listed a e l \<noteq> AccountCall v e' b" "listed a e l \<noteq> SecretCall v' e' s" "listed a e l \<noteq> MinioCall c r x"
  "listed a e l \<noteq> ProviderCall w e' p" "listed a e l \<noteq> EventCall obj ty reason m"
  by (simp_all add: listed_def)

lemma listed_quiet [simp]:
  "list_all reads_secret t \<Longrightarrow> listed a e l \<notin> set t" "list_all (looks_up_call mc a) t \<Longrightarrow> listed a e l \<notin> set t"
  "list_all (policy_call mc bs) t \<Longrightarrow> listed a e l \<notin> set t" "listed a e l \<notin> set (rotation mc a' e' s ks ans)"
  "policies_start X a b items mid \<Longrightarrow> listed a e l \<in> set mid \<longleftrightarrow> e = None \<and> l = items"
  by (auto simp: listed_def policies_start_def)

lemma start_conditions:
  "policies_start X a b items mid \<Longrightarrow> items = [] \<Longrightarrow> condition_true X (a_conditions a) BucketSAConditionDeletionPending"
  "policies_start X a b items mid \<Longrightarrow> items \<noteq> [] \<Longrightarrow> condition_true X (a_conditions a) BucketSAConditionDeletionPending \<Longrightarrow>
     AccountCall (StatusUpdate (kept_account X a)) None b \<in> set mid"
  by (auto simp: policies_start_def)

lemma policies_set_is [simp]:
  "MinioCall c (SetPolicy ps u g) x = policies_set mc b items e \<longleftrightarrow> c = AdminClient mc
     \<and> ps = join '','' (map (\<lambda>b. name (b_name b)) items) \<and> u = name (a_name b) \<and> \<not> g \<and> x = Done e"
  "listed a e' l \<noteq> policies_set mc b items e"
  by (auto simp: policies_set_def listed_def)

lemma pending_sound_start:
  assumes "policies_start X a b items mid" and "set mid \<subseteq> set t"
    and "\<And>l. listed a None l \<in> set t \<Longrightarrow> l = items"
    and "\<And>c ps u g x. MinioCall c (SetPolicy ps u g) x \<in> set t \<Longrightarrow> ps = join '','' (map (\<lambda>b. name (b_name b)) items)"
  shows "account_pending_sound X a t"
  using assms start_conditions [OF assms(1)] unfolding account_pending_sound_def by blast

lemma pending_sound_none: "(\<And>l. listed a None l \<notin> set t) \<Longrightarrow> account_pending_sound X a t"
  by (simp add: account_pending_sound_def)

lemma pending_sound_marked:
  assumes "AccountCall (StatusUpdate (pending_account X k a)) e q' \<in> set t" "\<not> condition_true X (a_conditions a) BucketSAConditionDeletionPending"
    and "\<And>c ps u g x. MinioCall c (SetPolicy ps u g) x \<notin> set t"
  shows "account_pending_sound X a t"
  using assms unfolding account_pending_sound_def by blast

lemma pending_sound_kept:
  assumes "AccountCall (StatusUpdate (kept_account X a)) e q' \<in> set t" "condition_true X (a_conditions a) BucketSAConditionDeletionPending"
    and "\<And>c ps u g x. MinioCall c (SetPolicy ps u g) x \<notin> set t"
  shows "account_pending_sound X a t"
  using assms unfolding account_pending_sound_def by blast

lemma converge_pending:
  assumes cp: "condition_promise X"
  shows "tr (account_converge X a) (\<lambda>_. account_pending_sound X a)"
  unfolding account_converge_def account_ready_def
  apply (intro tr_do_user_step tr_do_credentials_step tr_do_policies_step account_report.tr_report [OF cp] tr_intros)
  apply (simp_all)
  apply ((rule pending_sound_none; simp add: listed_def; fail) | (rule pending_sound_none; simp; fail)
    | ((rule pending_sound_start, assumption); auto; fail)
    | (rule pending_sound_marked; auto; fail)
    | (rule pending_sound_kept; auto; fail))+
  done

section \<open>Rolling back\<close>

text \<open>Which keys a run deletes: the ones that were listed before, or the user's own name.\<close>

definition rollback_sound :: "account \<Rightarrow> call list \<Rightarrow> bool" where
  "rollback_sound a t \<longleftrightarrow> (\<forall>q e s'. SecretCall (Create q) (Some e) s' \<in> set t \<longrightarrow>
     (\<exists>c ak sk keys. MinioCall c (AddServiceAccount (name (a_name a))) (Credentials ak sk None) \<in> set t
        \<and> MinioCall c (ListServiceAccounts (name (a_name a))) (Accounts keys None) \<in> set t
        \<and> sec_data q = [MinioAccessKey \<mapsto> ak, MinioSecretKey \<mapsto> sk]
        \<and> (\<forall>c' k x. MinioCall c' (DeleteServiceAccount k) x \<in> set t \<longrightarrow> k \<in> set keys \<or> k = name (a_name a))))"

lemma rollback_none: "(\<And>q e s'. SecretCall (Create q) (Some e) s' \<notin> set t) \<Longrightarrow> rollback_sound a t"
  by (simp add: rollback_sound_def)

lemma rotation_deletes [simp]:
  "MinioCall c (DeleteServiceAccount k) x \<in> set (rotation mc a e s ks ans) \<longleftrightarrow> c = AdminClient mc \<and> k \<in> set ks \<and> x = Done None"
  by (auto simp: rotation_def)

lemma rollback_failed:
  assumes "set (rotation mc a e0 s keys (Credentials ak sk None)) \<subseteq> set t"
    and "\<And>q e s'. SecretCall (Create q) (Some e) s' \<in> set t \<Longrightarrow> \<exists>refs. q = with_credentials s ak sk refs"
    and "\<And>c k x. MinioCall c (DeleteServiceAccount k) x \<in> set t \<Longrightarrow> k \<in> set keys \<or> k = name (a_name a)"
  shows "rollback_sound a t"
  unfolding rollback_sound_def
proof (intro allI impI)
  fix q e s' assume "SecretCall (Create q) (Some e) s' \<in> set t"
  then have "sec_data q = [MinioAccessKey \<mapsto> ak, MinioSecretKey \<mapsto> sk]"
    using assms(2) by (fastforce simp: with_credentials_def)
  then show "\<exists>c ak sk keys. MinioCall c (AddServiceAccount (name (a_name a))) (Credentials ak sk None) \<in> set t
        \<and> MinioCall c (ListServiceAccounts (name (a_name a))) (Accounts keys None) \<in> set t
        \<and> sec_data q = [MinioAccessKey \<mapsto> ak, MinioSecretKey \<mapsto> sk]
        \<and> (\<forall>c' k x. MinioCall c' (DeleteServiceAccount k) x \<in> set t \<longrightarrow> k \<in> set keys \<or> k = name (a_name a))"
    using assms(1,3) by (intro exI [of _ "AdminClient mc"] exI [of _ ak] exI [of _ sk] exI [of _ keys]) (auto simp: rotation_def)
qed

lemma converge_rollback:
  assumes cp: "condition_promise X"
  shows "tr (account_converge X a) (\<lambda>_. rollback_sound a)"
  unfolding account_converge_def account_ready_def
  apply (intro tr_do_user_step tr_do_credentials_step tr_do_policies_step account_report.tr_report [OF cp] tr_intros)
  apply (simp_all)
  apply ((rule rollback_none; simp; fail) | (rule rollback_failed; auto; fail))+
  done

section \<open>Reading facts off a run\<close>

text \<open>The answers to status updates keep the identity of the object.\<close>

definition names_kept :: "call list \<Rightarrow> bool" where
  "names_kept t \<longleftrightarrow> (\<forall>q q'. AccountCall (StatusUpdate q) None q' \<in> set t \<longrightarrow>
     a_name q' = a_name q \<and> a_namespace q' = a_namespace q)"

lemma current_account:
  assumes "current X req b pre" and "names_kept (pre @ u)"
  obtains a where "AccountCall (Get req) None a \<in> set (pre @ u)" "\<not> account_deleted a" "account_finalized X a"
    "a_name b = a_name a" "a_namespace b = a_namespace a"
proof -
  from assms(1) obtain a where a: "\<not> account_deleted a" "account_finalized X a"
    and p: "pre = [AccountCall (Get req) None a] \<and> b = a
      \<or> (\<exists>t. pre = [AccountCall (Get req) None a, AccountCall (StatusUpdate (creating_account X t a)) None b])"
    unfolding current_def by blast
  from p show ?thesis
  proof
    assume "pre = [AccountCall (Get req) None a] \<and> b = a"
    then show ?thesis using a by (intro that [of a]) simp_all
  next
    assume "\<exists>t. pre = [AccountCall (Get req) None a, AccountCall (StatusUpdate (creating_account X t a)) None b]"
    then obtain t where pre: "pre = [AccountCall (Get req) None a, AccountCall (StatusUpdate (creating_account X t a)) None b]" ..
    then have "AccountCall (StatusUpdate (creating_account X t a)) None b \<in> set (pre @ u)" by simp
    then have "a_name b = a_name (creating_account X t a)" "a_namespace b = a_namespace (creating_account X t a)"
      using assms(2) unfolding names_kept_def by blast+
    then show ?thesis using a pre by (intro that [of a]) (simp_all add: creating_account_def)
  qed
qed

lemma current_calls: "current X req b pre \<Longrightarrow> c \<in> set pre \<Longrightarrow> \<exists>v e a. c = AccountCall v e a"
  by (auto simp: current_def)

lemma current_told:
  assumes "current X req b pre"
  obtains v a where "AccountCall v None b \<in> set pre" and "AccountCall (Get req) None a \<in> set pre"
    and "v = Get req \<or> (\<exists>t. v = StatusUpdate (creating_account X t a))"
    and "\<And>q e q'. AccountCall (StatusUpdate q) e q' \<in> set pre \<Longrightarrow> \<exists>t. q = creating_account X t a"
proof -
  from assms obtain a where "pre = [AccountCall (Get req) None a] \<and> b = a
      \<or> (\<exists>t. pre = [AccountCall (Get req) None a, AccountCall (StatusUpdate (creating_account X t a)) None b])"
    unfolding current_def by blast
  then show thesis
  proof
    assume "pre = [AccountCall (Get req) None a] \<and> b = a"
    then show thesis by (intro that [of "Get req" a]) simp_all
  next
    assume "\<exists>t. pre = [AccountCall (Get req) None a, AccountCall (StatusUpdate (creating_account X t a)) None b]"
    then obtain t where "pre = [AccountCall (Get req) None a, AccountCall (StatusUpdate (creating_account X t a)) None b]" ..
    then show thesis by (intro that [of "StatusUpdate (creating_account X t a)" a]) auto
  qed
qed

lemma account_serving_call:
  assumes cp: "condition_promise X" and P: "\<And>b. tr (account_converge X b) (P b)"
    and c: "c \<in> set (calls (account_Reconcile X req) s)"
    and only: "\<And>v e b. c \<noteq> AccountCall v e b" "\<And>a. \<not> closing_call X a c"
  obtains b pre u where "calls (account_Reconcile X req) s = pre @ u" and "current X req b pre" and "c \<in> set u"
    and "list_all (serving_call b) u" and "justified (grounds X b) u" and "P b (result (account_Reconcile X req) s) u"
proof -
  from trD [OF account_run [OF cp P]]
  have "account_runs X req P (result (account_Reconcile X req) s) (calls (account_Reconcile X req) s)" .
  then show thesis
  proof cases
    case (serving b pre u)
    have "c \<notin> set pre" using current_calls [OF serving(2)] only(1) by blast
    then have "c \<in> set u" using c serving(1) by simp
    then show ?thesis using that serving by blast
  next
    case (closing a u)
    then have "c \<in> set u" using c only(1) by simp
    then show ?thesis using closing(4) only(2) by (auto simp: list_all_iff)
  qed (use c only(1) in auto)
qed

text \<open>A call of a run that deletes the account.\<close>

lemma account_closing_call:
  assumes cp: "condition_promise X"
    and c: "c \<in> set (calls (account_Reconcile X req) s)"
    and only: "\<And>v e b. c \<noteq> AccountCall v e b" "\<And>a. \<not> serving_call a c"
  obtains a u where "calls (account_Reconcile X req) s = AccountCall (Get req) None a # u" and "account_deleted a"
    and "c \<in> set u" and "list_all (closing_call X a) u" and "justified (grounds X a) u"
proof -
  have "tr (account_converge X b) (\<lambda>_ _. True)" for b
    by (rule tr_mono [OF account_converge_calls [OF cp]]) simp
  from trD [OF account_run [OF cp this]]
  have "account_runs X req (\<lambda>_ _ _. True) (result (account_Reconcile X req) s) (calls (account_Reconcile X req) s)" .
  then show thesis
  proof cases
    case (closing a u)
    then show ?thesis using that c only(1) by simp
  next
    case (serving b pre u)
    have "c \<notin> set pre" using current_calls [OF serving(2)] only(1) by blast
    then have "c \<in> set u" using c serving(1) by simp
    then show ?thesis using serving(3) only(2) by (auto simp: list_all_iff)
  qed (use c only(1) in auto)
qed

end
