(* ===== verification/AccountWorlds.thy ===== *)
theory AccountWorlds imports AccountRuns begin

text \<open>
  Worlds of the reference environment in which the account reconciler is run, and what
  happens in these runs: a new account, one whose bucket appeared, one without a bucket,
  one under deletion, and a cluster that has no room for another secret.
\<close>

section \<open>Accounts and worlds\<close>

text \<open>An account with given conditions, its bucket, its secret, and worlds around them.\<close>

definition live_account :: "condition list \<Rightarrow> account" where
  "live_account cs = \<lparr>a_meta = (new_meta ''app'' ''default'')\<lparr>om_finalizers := [finalizer]\<rparr>,
     a_spec = \<lparr>as_provider = ''minio-provider''\<rparr>,
     a_status = \<lparr>ast_secretName = None, ast_conditions = cs, ast_phase = ''''\<rparr>\<rparr>"

definition creating_condition :: condition where
  "creating_condition = cond ''Creating'' ConditionTrue ''Creating'' ''BucketServiceAccount is being created'' 0"

definition deleting_condition :: condition where
  "deleting_condition = cond ''Deleting'' ConditionTrue ''BucketServiceAccountDeletion'' ''BucketServiceAccount is being deleted'' 0"

definition closed_account :: account where
  "closed_account = (live_account [deleting_condition])\<lparr>a_meta := (a_meta (live_account []))\<lparr>om_deletionTimestamp := Some 7\<rparr>\<rparr>"

definition owned_bucket :: bucket where
  "owned_bucket = zero_bucket\<lparr>b_meta := (new_meta ''data'' ''default'')\<lparr>
     om_ownerReferences := [ref_owner (AnyAccount (live_account []))]\<rparr>\<rparr>"

definition account_credentials :: secret where
  "account_credentials = \<lparr>sec_meta = new_meta ''app-sa'' ''default'', sec_type = BucketSASecretType,
     sec_data = [MinioAccessKey \<mapsto> ''AK'', MinioSecretKey \<mapsto> ''SK'']\<rparr>"

definition app_key :: nsname where
  "app_key = \<lparr>nn_name = ''app'', nn_namespace = ''default''\<rparr>"

text \<open>The policy of the bucket, which the runs need not look into.\<close>

definition data_policy :: string where
  "data_policy = compact_head @ ''data'' @ compact_middle @ ''data'' @ compact_tail"

lemma Policy_data: "Policy ''data'' = Returns data_policy"
  unfolding data_policy_def by (rule Policy_plain) (simp add: plain_def)

text \<open>The user has an old key that no secret has; or its secret is there.\<close>

definition new_account_world :: sim where
  "new_account_world = demo_world\<lparr>sim_accounts := [(app_key, live_account [creating_condition])],
     sim_keys_of := [(name ''app'', ''OLD'')]\<rparr>"

definition served_world :: "account \<Rightarrow> bucket list \<Rightarrow> sim" where
  "served_world a bs = demo_world\<lparr>sim_accounts := [(app_key, a)], sim_users := [name ''app''],
     sim_buckets := map (\<lambda>b. (meta_key (b_meta b), b)) bs,
     sim_secrets := (meta_key (sec_meta account_credentials), account_credentials) # sim_secrets demo_world\<rparr>"

text \<open>The reference environment, without room for a new secret.\<close>

definition full_env :: "sim env" where
  "full_env = ref_env\<lparr>secrets := secret_store\<lparr>k_create := (\<lambda>s w. ((Some (External 9 ''quota exceeded''), s), w))\<rparr>\<rparr>"

lemma full_condition_promise: "condition_promise full_env"
proof -
  have "condition_promise full_env = condition_promise ref_env"
    by (simp add: condition_promise_def set_condition_promise_def remove_condition_promise_def find_condition_promise_def full_env_def)
  then show ?thesis using ref_condition_promise by simp
qed

lemma ref_random_ok: "random_ok ref_env"
  by (simp add: random_ok_def ref_env_def)

lemmas account_run_defs = provider_run_defs Policy_data account_Reconcile_def account_delete_branch_def
  account_reconcileDeletion_def account_converge_def do_step_def returning_def reconcileUser_def
  account_reconcileServiceAccount_def account_secret_def store_credentials_def reconcilePolicies_def
  assign_policies_def reconcilePolicy_def account_err_def account_ready_def a_with_status_def GeneratePassword_def
  rec_Eventf_def ownerKey_def name_def prefix_name_def finalizer_def saSecretSuffix_def
  live_account_def creating_condition_def deleting_condition_def closed_account_def owned_bucket_def
  account_credentials_def app_key_def new_account_world_def served_world_def full_env_def

abbreviation app_run :: "sim env \<Rightarrow> sim \<Rightarrow> call list" where
  "app_run X w \<equiv> calls (account_Reconcile X app_key) (start w)"

abbreviation used_world :: sim where "used_world \<equiv> served_world (live_account [creating_condition]) [owned_bucket]"

abbreviation unused_world :: sim where "unused_world \<equiv> served_world (live_account [creating_condition]) []"

abbreviation closed_world :: sim where "closed_world \<equiv> served_world closed_account []"

lemma new_account_run:
  "names_kept (app_run ref_env new_account_world)"
  "\<exists>c p. MinioCall c (AddUser (name ''app'') p) (Done None) \<in> set (app_run ref_env new_account_world)"
  "\<exists>c x. MinioCall c (AddServiceAccount (name ''app'')) x \<in> set (app_run ref_env new_account_world)"
  "\<exists>q s'. SecretCall (Create q) None s' \<in> set (app_run ref_env new_account_world)"
  by (simp_all add: account_run_defs names_kept_def del: encode.simps)

lemma full_run:
  "\<exists>q ak s'. SecretCall (Create q) (Some (External 9 ''quota exceeded'')) s' \<in> set (app_run full_env new_account_world)
     \<and> sec_data q MinioAccessKey = Some ak
     \<and> (\<forall>c u keys. MinioCall c (ListServiceAccounts u) (Accounts keys None) \<in> set (app_run full_env new_account_world) \<longrightarrow>
           ak \<notin> set keys \<and> ak \<noteq> u)"
  by (simp add: account_run_defs del: encode.simps)

lemma used_run:
  "names_kept (app_run ref_env used_world)"
  "\<exists>c ps. MinioCall c (SetPolicy ps (name ''app'') False) (Done None) \<in> set (app_run ref_env used_world)"
  by (simp_all add: account_run_defs names_kept_def)

lemma used_run_lists:
  "ListBuckets sel None items \<in> set (app_run ref_env used_world) \<Longrightarrow>
     items = [owned_bucket]"
  by (simp add: account_run_defs)

lemma used_run_ready:
  "\<exists>q. (\<exists>e q'. AccountCall (StatusUpdate q) e q' \<in> set (app_run ref_env used_world))
     \<and> condition_true ref_env (a_conditions q) BucketSAConditionReady
     \<and> (\<forall>v a. AccountCall v None a \<in> set (app_run ref_env used_world) \<longrightarrow>
          v \<noteq> StatusUpdate q \<longrightarrow> \<not> condition_true ref_env (a_conditions a) BucketSAConditionReady)"
  by (simp add: account_run_defs)

lemma dangling_run:
  "names_kept (app_run ref_env unused_world)"
  "\<exists>sel. ListBuckets sel None [] \<in> set (app_run ref_env unused_world)"
  by (simp_all add: account_run_defs names_kept_def)

lemma closed_run:
  "\<exists>q e q'. AccountCall (Update q) e q' \<in> set (app_run ref_env closed_world)
     \<and> finalizer \<notin> set (om_finalizers (a_meta q))"
  "\<exists>c x. MinioCall c (RemoveUser (name ''app'')) x \<in> set (app_run ref_env closed_world)"
  by (simp_all add: account_run_defs)

end
