(* ===== verification/AccountProperties.thy ===== *)
theory AccountProperties imports AccountWorlds begin

text \<open>
  The properties of the account reconciler
  (\<^verbatim>\<open>src/controllers/bucketserviceaccount_controller.go\<close>): when it adds and removes MinIO
  users, how it replaces keys, which policies it sets, what Ready and the finalizer promise,
  and what it leaves behind. Their witnesses run the model on the reference environment.
\<close>

section \<open>Properties\<close>



text \<open>
  C16. New credentials replace all the old ones. When a run asks MinIO for a service account,
  the calls before it are, in this order: the secret of the account was looked for and is
  absent, MinIO listed the keys of the account's user, and each of these keys was deleted
  without an error. So a user never keeps a key that is in no secret, except by failure.
\<close>
theorem account_rotation:
  assumes "condition_promise X" and "names_kept (calls (account_Reconcile X req) s)"
    and "MinioCall c (AddServiceAccount u) x \<in> set (calls (account_Reconcile X req) s)"
  shows "\<exists>a e s' keys. AccountCall (Get req) None a \<in> set (calls (account_Reconcile X req) s)
     \<and> \<not> account_deleted a \<and> u = name (a_name a) \<and> ignore_not_found X (Some e) = None
     \<and> sublist ([SecretCall (Get \<lparr>nn_name = a_name a @ saSecretSuffix, nn_namespace = a_namespace a\<rparr>) (Some e) s',
                 MinioCall c (ListServiceAccounts u) (Accounts keys None)]
              @ map (\<lambda>k. MinioCall c (DeleteServiceAccount k) (Done None)) keys
              @ [MinioCall c (AddServiceAccount u) x]) (calls (account_Reconcile X req) s)"
proof (rule account_serving_call [OF assms(1) account_converge_calls [OF assms(1)] assms(3)])
  fix b pre u'
  assume t: "calls (account_Reconcile X req) s = pre @ u'" and cur: "current X req b pre"
    and c: "MinioCall c (AddServiceAccount u) x \<in> set u'" and g: "justified (grounds X b) u'"
  obtain a where a: "AccountCall (Get req) None a \<in> set (pre @ u')" "\<not> account_deleted a" "a_name b = a_name a"
      "a_namespace b = a_namespace a"
    using current_account [OF cur assms(2) [unfolded t]] by metis
  from justifiedD [OF g c] obtain mc e s' keys where "u = name (a_name b)" "c = AdminClient mc"
      "ignore_not_found X (Some e) = None" "sublist (rotation mc b e s' keys x) u'" by auto
  then show ?thesis using a sublist_later [of "rotation mc b e s' keys x" u' pre] unfolding t
    by (intro exI [of _ a] exI [of _ e] exI [of _ s'] exI [of _ keys]) (simp add: rotation_def credentials_key_def)
qed simp_all

theorem account_rotation_witness:
  "\<exists>c keys x. sublist (map (\<lambda>k. MinioCall c (DeleteServiceAccount k) (Done None)) keys
      @ [MinioCall c (AddServiceAccount (name ''app'')) x]) (app_run ref_env new_account_world)"
proof -
  obtain c x where "MinioCall c (AddServiceAccount (name ''app'')) x \<in> set (app_run ref_env new_account_world)"
    using new_account_run(3) by blast
  from account_rotation [OF ref_condition_promise new_account_run(1) this] show ?thesis
    by (blast dest: sublist_order.order_trans [OF sublist_append_leftI])
qed

text \<open>
  C17. What is in the secret of an account. Every secret that a run creates holds exactly the
  access key and the secret key that MinIO answered in the call just before, for the user of
  the account that was read.
\<close>
theorem account_secret_created:
  assumes "condition_promise X" and "names_kept (calls (account_Reconcile X req) s)"
    and "SecretCall (Create q) e s' \<in> set (calls (account_Reconcile X req) s)"
  shows "\<exists>a c ak sk. AccountCall (Get req) None a \<in> set (calls (account_Reconcile X req) s)
     \<and> sec_data q = [MinioAccessKey \<mapsto> ak, MinioSecretKey \<mapsto> sk]
     \<and> sublist [MinioCall c (AddServiceAccount (name (a_name a))) (Credentials ak sk None), SecretCall (Create q) e s']
         (calls (account_Reconcile X req) s)"
proof (rule account_serving_call [OF assms(1) account_converge_calls [OF assms(1)] assms(3)])
  fix b pre u'
  assume t: "calls (account_Reconcile X req) s = pre @ u'" and cur: "current X req b pre"
    and c: "SecretCall (Create q) e s' \<in> set u'" and g: "justified (grounds X b) u'"
  obtain a where a: "AccountCall (Get req) None a \<in> set (pre @ u')" "a_name b = a_name a"
    using current_account [OF cur assms(2) [unfolded t]] by metis
  from justifiedD [OF g c] obtain mc e0 s0 keys ak sk refs where q: "q = with_credentials s0 ak sk refs"
    and sl: "sublist (rotation mc b e0 s0 keys (Credentials ak sk None) @ [SecretCall (Create q) e s']) u'" by auto
  have "sublist [MinioCall (AdminClient mc) (AddServiceAccount (name (a_name a))) (Credentials ak sk None), SecretCall (Create q) e s']
     (rotation mc b e0 s0 keys (Credentials ak sk None) @ [SecretCall (Create q) e s'])"
    unfolding rotation_def a(2) append.assoc append_Cons append_Nil
    by (rule sublist_later [of _ _ "_ # _ # map _ keys", unfolded append_Cons]) simp
  with sl have "sublist [MinioCall (AdminClient mc) (AddServiceAccount (name (a_name a))) (Credentials ak sk None), SecretCall (Create q) e s'] (pre @ u')"
    by (meson sublist_later sublist_order.order_trans)
  then show ?thesis using a q unfolding t by (auto simp: with_credentials_def)
qed simp_all

theorem account_secret_created_witness:
  "\<exists>q ak sk. sec_data q = [MinioAccessKey \<mapsto> ak, MinioSecretKey \<mapsto> sk]
     \<and> (\<exists>s'. SecretCall (Create q) None s' \<in> set (app_run ref_env new_account_world))"
proof -
  obtain q s' where q: "SecretCall (Create q) None s' \<in> set (app_run ref_env new_account_world)"
    using new_account_run(4) by blast
  from account_secret_created [OF ref_condition_promise new_account_run(1) this] q show ?thesis by metis
qed

text \<open>
  C18. Which policies an account gets. When a run sets the policy of a user, the user is the
  one of the account that was read, and the list is made of the names of exactly the buckets
  that the API server listed for this account, in that order; for each of them MinIO was
  seen to have the right policy document, or accepted it, earlier in the run.
\<close>
theorem account_policies:
  assumes "condition_promise X" and "names_kept (calls (account_Reconcile X req) s)"
    and "MinioCall c (SetPolicy ps u g) x \<in> set (calls (account_Reconcile X req) s)"
  shows "\<exists>a items mc. AccountCall (Get req) None a \<in> set (calls (account_Reconcile X req) s)
     \<and> ListBuckets (Some (''.metadata.controller'', a_name a)) None items \<in> set (calls (account_Reconcile X req) s)
     \<and> ps = join '','' (map (\<lambda>i. name (b_name i)) items) \<and> u = name (a_name a) \<and> \<not> g \<and> c = AdminClient mc
     \<and> (\<forall>i \<in> set items. policy_ensured X mc i (calls (account_Reconcile X req) s))"
proof (rule account_serving_call [OF assms(1) account_converge_calls [OF assms(1)] assms(3)])
  fix b pre u'
  assume t: "calls (account_Reconcile X req) s = pre @ u'" and cur: "current X req b pre"
    and c: "MinioCall c (SetPolicy ps u g) x \<in> set u'" and gr: "justified (grounds X b) u'"
  obtain a where a: "AccountCall (Get req) None a \<in> set (pre @ u')" "a_name b = a_name a"
    using current_account [OF cur assms(2) [unfolded t]] by metis
  from justifiedD [OF gr c] obtain mc b' items mid p e where st: "policies_start X b b' items mid"
    and en: "\<forall>i \<in> set items. policy_ensured X mc i p"
    and ps: "MinioCall c (SetPolicy ps u g) x = policies_set mc b' items e"
    and sl: "sublist (mid @ p @ [policies_set mc b' items e]) u'" unfolding grounds.simps by blast
  have sub: "set mid \<union> set p \<subseteq> set (pre @ u')" using set_mono_sublist [OF sl] by auto
  have "\<forall>i \<in> set items. policy_ensured X mc i (pre @ u')" using en sub policy_ensured_mono by blast
  moreover have "ListBuckets (Some (''.metadata.controller'', a_name a)) None items \<in> set (pre @ u')"
    using st sub a(2) by (auto simp: policies_start_def listed_def ownerKey_def)
  moreover have "a_name b' = a_name a"
  proof -
    have "a_name b' = a_name b"
      using st sub assms(2) [unfolded t names_kept_def, rule_format, of "kept_account X b" b']
      by (auto simp: policies_start_def kept_account_def)
    then show ?thesis using a(2) by simp
  qed
  ultimately show ?thesis using ps a(1) unfolding t by auto
qed simp_all

theorem account_policies_witness:
  "\<exists>items mc. ListBuckets (Some (''.metadata.controller'', ''app'')) None items \<in> set (app_run ref_env used_world)
     \<and> (\<forall>i \<in> set items. policy_ensured ref_env mc i (app_run ref_env used_world))"
proof -
  obtain c ps where "MinioCall c (SetPolicy ps (name ''app'') False) (Done None) \<in> set (app_run ref_env used_world)"
    using used_run(2) by blast
  have name: "name x = name y \<longleftrightarrow> x = y" for x y by (simp add: name_def prefix_name_def)
  from account_policies [OF ref_condition_promise used_run(1) \<open>MinioCall _ _ _ \<in> _\<close>] show ?thesis
    unfolding name by metis
qed

text \<open>
  C19. The finalizer protects the MinIO user. Every update of an account that a run sends
  without the controller's finalizer removes exactly that finalizer, from an account that is
  being deleted, and after, in the same run, the provider was found to be gone, or the secret
  of the account was deleted or absent and MinIO has removed the user or knows no such user.
\<close>
theorem account_finalizer_kept:
  assumes "condition_promise X" and "finalizer_promise X"
    and "AccountCall (Update q) e q' \<in> set (calls (account_Reconcile X req) s)"
    and "finalizer \<notin> set (om_finalizers (a_meta q))"
  shows "\<exists>a. AccountCall (Get req) None a \<in> set (calls (account_Reconcile X req) s)
     \<and> \<not> is_zero (om_deletionTimestamp (a_meta a))
     \<and> user_gone X a (calls (account_Reconcile X req) s)
     \<and> set (om_finalizers (a_meta q)) = set (om_finalizers (a_meta a)) - {finalizer}
     \<and> a_spec q = a_spec a \<and> a_status q = a_status a"
proof -
  from trD [OF account_run [OF assms(1) account_converge_calls [OF assms(1)]]]
  have "account_runs X req (\<lambda>b r. list_all (serving_call b)) (result (account_Reconcile X req) s) (calls (account_Reconcile X req) s)" .
  then show ?thesis
  proof cases
    case (closing a u)
    then have "AccountCall (Update q) e q' \<in> set u" using assms(3) by simp
    then have "user_gone X a u" "q = a\<lparr>a_meta := (a_meta a)\<lparr>om_finalizers := remove_finalizer X (om_finalizers (a_meta a)) finalizer\<rparr>\<rparr>"
      using closing(6) by blast+
    then show ?thesis using closing assms(2) user_gone_later(2)
      by (intro exI [of _ a]) (auto simp: account_deleted_def finalizer_promise_def)
  next
    case (adding a fs r e' a')
    then have "q = a\<lparr>a_meta := (a_meta a)\<lparr>om_finalizers := fs\<rparr>\<rparr>" using assms(3) by auto
    moreover have "finalizer \<in> set fs"
      using assms(2) adding(4) unfolding finalizer_promise_def by (metis insertI1 snd_conv)
    ultimately show ?thesis using assms(4) by simp
  next
    case (serving b pre u)
    then show ?thesis using assms(3) by (auto simp: current_def list_all_iff)
  qed (use assms(3) in auto)
qed

theorem account_finalizer_kept_witness:
  "\<exists>a (q :: account). finalizer \<notin> set (om_finalizers (a_meta q)) \<and> user_gone ref_env a (app_run ref_env closed_world)"
proof -
  obtain q e q' where q: "AccountCall (Update q) e q' \<in> set (app_run ref_env closed_world)" "finalizer \<notin> set (om_finalizers (a_meta q))"
    using closed_run(1) by blast
  obtain a where "user_gone ref_env a (app_run ref_env closed_world)"
    using account_finalizer_kept [OF ref_condition_promise ref_finalizer_promise q] by (elim exE conjE)
  then show ?thesis using q(2) by blast
qed

text \<open>
  C20. When a user is removed. A run removes a MinIO user only for an account with a deletion
  timestamp whose Deleting condition is true already; the user is the account's own, and in
  the call just before, the secret of the account was deleted or was absent. Such a run asks
  nothing else of MinIO.
\<close>
theorem account_user_removed:
  assumes "condition_promise X"
    and "MinioCall c (RemoveUser u) x \<in> set (calls (account_Reconcile X req) s)"
  shows "\<exists>a sec e s'. AccountCall (Get req) None a \<in> set (calls (account_Reconcile X req) s)
     \<and> \<not> is_zero (om_deletionTimestamp (a_meta a)) \<and> condition_true X (a_conditions a) BucketSAConditionDeleting
     \<and> u = name (a_name a) \<and> om_name (sec_meta sec) = a_name a @ saSecretSuffix
     \<and> (e = None \<or> ignore_not_found X e = None)
     \<and> sublist [SecretCall (Delete sec) e s', MinioCall c (RemoveUser u) x] (calls (account_Reconcile X req) s)
     \<and> (\<forall>c' r x'. MinioCall c' r x' \<in> set (calls (account_Reconcile X req) s) \<longrightarrow> r = RemoveUser u)"
proof (rule account_closing_call [OF assms])
  fix a u'
  assume t: "calls (account_Reconcile X req) s = AccountCall (Get req) None a # u'" and d: "account_deleted a"
    and c: "MinioCall c (RemoveUser u) x \<in> set u'" and cl: "list_all (closing_call X a) u'" and g: "justified (grounds X a) u'"
  have u: "condition_true X (a_conditions a) BucketSAConditionDeleting" "u = name (a_name a)"
    using c cl by (auto simp: list_all_iff)
  have "r = RemoveUser (name (a_name a))" if "MinioCall c' r x' \<in> set u'" for c' r x'
    using that cl by (cases r) (auto simp: list_all_iff)
  moreover obtain sec e s' where "om_name (sec_meta sec) = a_name a @ saSecretSuffix" "e \<noteq> None \<longrightarrow> ignore_not_found X e = None"
      "sublist [SecretCall (Delete sec) e s', MinioCall c (RemoveUser u) x] u'"
    using justifiedD [OF g c] by auto
  ultimately show ?thesis using d u sublist_later [of _ u' "[AccountCall (Get req) None a]"] unfolding t account_deleted_def
    by (intro exI [of _ a] exI [of _ sec] exI [of _ e] exI [of _ s']) auto
qed simp_all

theorem account_user_removed_witness:
  "\<exists>c sec e s' x. sublist [SecretCall (Delete sec) e s', MinioCall c (RemoveUser (name ''app'')) x] (app_run ref_env closed_world)"
proof -
  obtain c x where "MinioCall c (RemoveUser (name ''app'')) x \<in> set (app_run ref_env closed_world)"
    using closed_run(2) by blast
  from account_user_removed [OF ref_condition_promise this] show ?thesis by blast
qed

text \<open>
  C21. Ready means served. When a run that was told of no ready account writes a status with
  Ready true, then in this run its user was found or added, its secret was read, and its
  user was given the policies of the buckets of the account; the status has the phase Ready,
  no Error and no Creating condition, and does not wait for its deletion.
\<close>
theorem account_ready_means_served:
  assumes "condition_promise X"
    and "AccountCall (StatusUpdate q) e q' \<in> set (calls (account_Reconcile X req) s)"
    and "condition_true X (a_conditions q) BucketSAConditionReady"
    and "\<And>v a. AccountCall v None a \<in> set (calls (account_Reconcile X req) s) \<Longrightarrow> v \<noteq> StatusUpdate q \<Longrightarrow>
           \<not> condition_true X (a_conditions a) BucketSAConditionReady"
  shows "\<exists>v b. AccountCall v None b \<in> set (calls (account_Reconcile X req) s)
     \<and> served X b (calls (account_Reconcile X req) s) \<and> says_ready X q"
proof -
  note cp = assms(1)
  have same: "condition_true X (a_conditions (creating_account X t a)) BucketSAConditionReady = condition_true X (a_conditions a) BucketSAConditionReady"
    "condition_true X (a_conditions (deleting_account X t a)) BucketSAConditionReady = condition_true X (a_conditions a) BucketSAConditionReady" for t a
    by (simp_all add: creating_account_def deleting_account_def a_with_status_def condition_simps [OF cp])
  have later: "served X b (pre @ u)" if "served X b u" for b pre u
    using that policy_ensured_append(2) unfolding served_def user_there_def by (metis Un_iff set_append)
  from trD [OF account_run [OF cp converge_account_ready [OF cp]]]
  have "account_runs X req (\<lambda>b r. account_ready_sound X b) (result (account_Reconcile X req) s) (calls (account_Reconcile X req) s)" .
  then show ?thesis
  proof cases
    case (closing a u)
    then obtain t where "q = deleting_account X t a" using assms(2) by (fastforce simp: list_all_iff)
    then show ?thesis using assms(3) assms(4) [of "Get req" a] closing(2) same by simp
  next
    case (creating a err t a')
    then have "q = creating_account X t a" using assms(2) by simp
    then show ?thesis using assms(3) assms(4) [of "Get req" a] creating(2) same by simp
  next
    case (serving b pre u)
    obtain v a where b: "AccountCall v None b \<in> set pre" "AccountCall (Get req) None a \<in> set pre"
      and v: "v = Get req \<or> (\<exists>t. v = StatusUpdate (creating_account X t a))"
      and only: "\<And>q e q'. AccountCall (StatusUpdate q) e q' \<in> set pre \<Longrightarrow> \<exists>t. q = creating_account X t a"
      using current_told [OF serving(2)] by metis
    have "\<not> condition_true X (a_conditions a) BucketSAConditionReady" using assms(4) b(2) serving(1) by auto
    then have q: "q \<noteq> creating_account X t a" for t using assms(3) same by auto
    then have "v \<noteq> StatusUpdate q" and pre: "AccountCall (StatusUpdate q) e q' \<notin> set pre" using v only by blast+
    then have "\<not> condition_true X (a_conditions b) BucketSAConditionReady" using assms(4) [of v b] b(1) serving(1) by simp
    moreover have "AccountCall (StatusUpdate q) e q' \<in> set u" using assms(2) pre serving(1) by simp
    ultimately have "served X b u \<and> says_ready X q" using serving(5) assms(3) unfolding account_ready_sound_def by blast
    then show ?thesis using b(1) later unfolding serving(1) by (intro exI [of _ v] exI [of _ b]) simp
  qed (use assms(2) in auto)
qed

theorem account_ready_means_served_witness:
  "\<exists>b q. served ref_env b (app_run ref_env used_world) \<and> says_ready ref_env q"
proof -
  obtain q e q' where "AccountCall (StatusUpdate q) e q' \<in> set (app_run ref_env used_world)"
    and "condition_true ref_env (a_conditions q) BucketSAConditionReady"
    and "\<And>v a. AccountCall v None a \<in> set (app_run ref_env used_world) \<Longrightarrow> v \<noteq> StatusUpdate q \<Longrightarrow>
       \<not> condition_true ref_env (a_conditions a) BucketSAConditionReady"
    using used_run_ready by blast
  from account_ready_means_served [OF ref_condition_promise this(1,2)] this(3) show ?thesis by metis
qed

text \<open>
  C22. Dangling accounts are marked, used ones are not. When the API server lists the buckets
  of an account: if there is none and the account does not wait for its deletion yet, the run
  writes that it does, and gives its user no policy; if there are some and it waits, the run
  writes that it does not wait any more; and the policies that are set, if any, are those of
  the listed buckets (so none at all for an account that waits and still has no bucket).
\<close>
theorem account_pending:
  assumes "condition_promise X" and "names_kept (calls (account_Reconcile X req) s)"
    and "ListBuckets sel None items \<in> set (calls (account_Reconcile X req) s)"
  shows "\<exists>v b. AccountCall v None b \<in> set (calls (account_Reconcile X req) s) \<and> sel = Some (''.metadata.controller'', a_name b)
     \<and> (items = [] \<and> \<not> condition_true X (a_conditions b) BucketSAConditionDeletionPending \<longrightarrow>
          (\<exists>q e q'. AccountCall (StatusUpdate q) e q' \<in> set (calls (account_Reconcile X req) s)
             \<and> condition_true X (a_conditions q) BucketSAConditionDeletionPending)
        \<and> (\<forall>c ps u g x. MinioCall c (SetPolicy ps u g) x \<notin> set (calls (account_Reconcile X req) s)))
     \<and> (items \<noteq> [] \<and> condition_true X (a_conditions b) BucketSAConditionDeletionPending \<longrightarrow>
          (\<exists>q e q'. AccountCall (StatusUpdate q) e q' \<in> set (calls (account_Reconcile X req) s)
             \<and> \<not> condition_true X (a_conditions q) BucketSAConditionDeletionPending))
     \<and> (\<forall>c ps u g x. MinioCall c (SetPolicy ps u g) x \<in> set (calls (account_Reconcile X req) s) \<longrightarrow>
          ps = join '','' (map (\<lambda>i. name (b_name i)) items))"
proof (rule account_serving_call [OF assms(1) converge_pending [OF assms(1)] assms(3)])
  fix b pre u
  assume t: "calls (account_Reconcile X req) s = pre @ u" and cur: "current X req b pre"
    and c: "ListBuckets sel None items \<in> set u" and sv: "list_all (serving_call b) u" and p: "account_pending_sound X b u"
  have sel: "sel = Some (ownerKey, a_name b)" using sv c by (auto simp: list_all_iff)
  then have l: "listed b None items \<in> set u" using c by (simp add: listed_def)
  have "MinioCall c r x \<notin> set pre" for c r x using current_calls [OF cur] by blast
  then have m: "MinioCall c r x \<in> set (pre @ u) \<longleftrightarrow> MinioCall c r x \<in> set u" for c r x by simp
  obtain v where "AccountCall v None b \<in> set pre" using current_told [OF cur] by metis
  then show ?thesis
    using p [unfolded account_pending_sound_def, rule_format, OF l] account_conditions(3,5) [OF assms(1)] sel
    unfolding t m by (intro exI [of _ v] exI [of _ b]) (fastforce simp: ownerKey_def)
qed simp_all

theorem account_pending_witness:
  "\<exists>sel v b. ListBuckets sel None [] \<in> set (app_run ref_env unused_world) \<and> AccountCall v None b \<in> set (app_run ref_env unused_world)
     \<and> (\<not> condition_true ref_env (a_conditions b) BucketSAConditionDeletionPending \<longrightarrow>
          (\<exists>q e q'. AccountCall (StatusUpdate q) e q' \<in> set (app_run ref_env unused_world)
             \<and> condition_true ref_env (a_conditions q) BucketSAConditionDeletionPending))"
proof -
  obtain sel where l: "ListBuckets sel None [] \<in> set (app_run ref_env unused_world)" using dangling_run(2) by blast
  from account_pending [OF ref_condition_promise dangling_run(1) l] l show ?thesis by blast
qed

text \<open>
  C23. Reconciling an account returns. When the random source works and the names of the
  listed buckets are plain (no quotes, backslashes or control characters), a run neither
  panics nor ends the process, whatever Kubernetes and MinIO answer.
\<close>
theorem account_reconcile_returns:
  assumes "condition_promise X" and "random_ok X"
    and "\<And>sel items i. ListBuckets sel None items \<in> set (calls (account_Reconcile X req) s) \<Longrightarrow>
           i \<in> set items \<Longrightarrow> \<forall>c \<in> set (b_name i). plain c"
  shows "\<exists>re err. result (account_Reconcile X req) s = Returns (re, err)"
proof -
  from trD [OF account_run [OF assms(1) converge_returns [OF assms(1,2)]]]
  have "account_runs X req (\<lambda>b r t. returned r \<or> (\<exists>m items i. r = Panics m
     \<and> listed b None items \<in> set t \<and> i \<in> set items \<and> Policy (b_name i) = Panics m))
     (result (account_Reconcile X req) s) (calls (account_Reconcile X req) s)" .
  then have "returned (result (account_Reconcile X req) s)"
  proof cases
    case (serving b pre u)
    show ?thesis
    proof (rule ccontr)
      assume "\<not> returned (result (account_Reconcile X req) s)"
      then obtain m items i where "listed b None items \<in> set u" "i \<in> set items" "Policy (b_name i) = Panics m"
        using serving(5) by blast
      then show False using assms(3) [of "Some (ownerKey, a_name b)" items i] serving(1) Policy_plain by (simp add: listed_def)
    qed
  qed auto
  then show ?thesis by (cases "result (account_Reconcile X req) s") auto
qed

theorem account_reconcile_returns_witness:
  "\<exists>re err. result (account_Reconcile ref_env app_key) (start used_world) = Returns (re, err)"
proof (rule account_reconcile_returns [OF ref_condition_promise ref_random_ok])
  fix sel items i
  assume "ListBuckets sel None items \<in> set (app_run ref_env used_world)" and "i \<in> set items"
  then have "i = owned_bucket" using used_run_lists by fastforce
  then show "\<forall>c \<in> set (b_name i). plain c" by (simp add: owned_bucket_def plain_def new_meta_def)
qed

text \<open>
  C24. A rolled back service account stays behind in MinIO. When a run made a service account
  and could not create its secret, it deletes no key but those MinIO listed before and the
  name of the user: the new access key, which is neither, stays valid, and no secret has it.
\<close>
theorem account_rollback_leaks:
  assumes "condition_promise X"
    and "SecretCall (Create q) (Some e) s' \<in> set (calls (account_Reconcile X req) s)"
    and "sec_data q MinioAccessKey = Some ak"
    and "\<And>c u keys. MinioCall c (ListServiceAccounts u) (Accounts keys None) \<in> set (calls (account_Reconcile X req) s) \<Longrightarrow>
           ak \<notin> set keys \<and> ak \<noteq> u"
  shows "(\<exists>c u sk. MinioCall c (AddServiceAccount u) (Credentials ak sk None) \<in> set (calls (account_Reconcile X req) s))
     \<and> (\<forall>c x. MinioCall c (DeleteServiceAccount ak) x \<notin> set (calls (account_Reconcile X req) s))"
proof (rule account_serving_call [OF assms(1) converge_rollback [OF assms(1)] assms(2)])
  fix b pre u
  assume t: "calls (account_Reconcile X req) s = pre @ u" and cur: "current X req b pre"
    and c: "SecretCall (Create q) (Some e) s' \<in> set u" and r: "rollback_sound b u"
  from r c obtain cl ak' sk keys where k: "MinioCall cl (AddServiceAccount (name (a_name b))) (Credentials ak' sk None) \<in> set u"
      "MinioCall cl (ListServiceAccounts (name (a_name b))) (Accounts keys None) \<in> set u"
      "sec_data q = [MinioAccessKey \<mapsto> ak', MinioSecretKey \<mapsto> sk]"
      "\<And>c' k x. MinioCall c' (DeleteServiceAccount k) x \<in> set u \<Longrightarrow> k \<in> set keys \<or> k = name (a_name b)"
    unfolding rollback_sound_def by metis
  have "ak' = ak" using k(3) assms(3) by simp
  moreover have "ak \<notin> set keys \<and> ak \<noteq> name (a_name b)" using assms(4) k(2) t by auto
  moreover have "MinioCall c r x \<notin> set pre" for c r x using current_calls [OF cur] by blast
  ultimately show ?thesis using k(1,4) unfolding t set_append by blast
qed simp_all

theorem account_rollback_leaks_witness:
  "\<exists>ak. \<forall>c x. MinioCall c (DeleteServiceAccount ak) x \<notin> set (app_run full_env new_account_world)"
proof -
  obtain q ak s' where "SecretCall (Create q) (Some (External 9 ''quota exceeded'')) s' \<in> set (app_run full_env new_account_world)"
    and "sec_data q MinioAccessKey = Some ak"
    and "\<And>c u keys. MinioCall c (ListServiceAccounts u) (Accounts keys None) \<in> set (app_run full_env new_account_world) \<Longrightarrow>
           ak \<notin> set keys \<and> ak \<noteq> u"
    using full_run by blast
  from account_rollback_leaks [OF full_condition_promise this(1,2)] this(3) show ?thesis by metis
qed

end
