(* ===== verification/Admission.thy ===== *)
theory Admission imports Providers begin

text \<open>
  What the admission webhooks share: the errors they answer with, and the contract of a
  validator. A validator decides on the objects it is shown and on what it reads; it changes
  nothing. The contract is the locale \<open>validator\<close>, which the webhooks of the three kinds
  interpret.
\<close>

section \<open>Errors of the webhooks\<close>

text \<open>
  \<^verbatim>\<open>field.Invalid\<close> with its path, the rejected value and the detail, and the status errors of
  \<^verbatim>\<open>apierrors\<close>. A group resource is the pair of the group and the resource. Any other error
  is \<open>Plain\<close>. The webhooks return no warnings.
\<close>

datatype bad_value = BadString string | BadSecretRef secret_ref | BadTemplate "(string \<times> string) list"

datatype admission_error =
    Plain go_err
  | FieldInvalid "string list" bad_value string
  | BadRequest string
  | Forbidden "string \<times> string" string string
  | NotFoundError "string \<times> string" string
  | Conflict "string \<times> string" string string
  | InternalError go_err

definition WithResource :: "string \<Rightarrow> string \<times> string" where
  "WithResource resource = (gv_group GroupVersion, resource)"

section \<open>The contract of a validator\<close>

text \<open>A call that changes nothing, in Kubernetes or in MinIO.\<close>

fun read_only :: "call \<Rightarrow> bool" where
  "read_only (BucketCall (Get _) _ _) = True"
| "read_only (AccountCall (Get _) _ _) = True"
| "read_only (ProviderCall (Get _) _ _) = True"
| "read_only (SecretCall (Get _) _ _) = True"
| "read_only (ListBuckets _ _ _) = True"
| "read_only (ListAccounts _ _ _) = True"
| "read_only (ListProviders _ _ _) = True"
| "read_only (MinioCall _ ListUsers _) = True"
| "read_only _ = False"

lemma reads_secret_read_only: "reads_secret c \<Longrightarrow> read_only c"
  by (cases c rule: reads_secret.cases) auto

lemma reads_secrets_read_only [simp]: "list_all reads_secret t \<Longrightarrow> list_all read_only t"
  by (auto simp: list_all_iff reads_secret_read_only)

text \<open>
  A validator answers a request with an error or admits it, which its result \<open>admits\<close> says.
  \<open>acceptable r t\<close> says, of a request and of the calls made to judge it, that it is to be
  admitted.
\<close>

locale validator =
  fixes check :: "'r \<Rightarrow> ('w, 'a) handler"
    and admits :: 'a
    and acceptable :: "'r \<Rightarrow> call list \<Rightarrow> bool"
  assumes decides: "tr (check r) (\<lambda>a t. a = admits \<longleftrightarrow> acceptable r t)"
    and reads: "tr (check r) (\<lambda>_. list_all read_only)"
begin

lemma admitted_iff: "result (check r) s = admits \<longleftrightarrow> acceptable r (calls (check r) s)"
  using trD [OF decides] .

lemma changes_nothing: "c \<in> set (calls (check r) s) \<Longrightarrow> read_only c"
  using trD [OF reads, of r s] by (simp add: list_all_iff)

lemma contract:
  "(result (check r) s = admits \<longleftrightarrow> acceptable r (calls (check r) s))
     \<and> list_all read_only (calls (check r) s)"
  using admitted_iff changes_nothing by (auto simp: list_all_iff)

end

end
