(* ===== verification/ProviderWebhook.thy ===== *)
theory ProviderWebhook imports Admission begin

text \<open>
  \<^verbatim>\<open>src/controllers/bucketprovider_webhook.go\<close>: the validation of bucket providers. The
  lemmas characterise exactly which providers are admitted, and show what the update and
  delete webhooks really look at.
\<close>

section \<open>The webhooks\<close>

text \<open>
  Lines 83 to 95 of the file and, for the secret key, lines 96 to 108: reading one of the
  two credentials and translating what may be wrong with it.
\<close>

definition check_credential ::
    "'w env \<Rightarrow> string \<Rightarrow> string \<Rightarrow> secret_ref \<Rightarrow> ('w, admission_error option) handler" where
  "check_credential X fld what ref = do {
     key \<leftarrow> fetchSecretRef X (Some ref);
     case key of
       Inl e \<Rightarrow>
         (if is_not_found X e
          then ret (Some (FieldInvalid [''spec'', fld, ''name''] (BadString (sr_name ref)) ''secret not found''))
          else if errors_is e ErrKeyNotFound
          then ret (Some (FieldInvalid [''spec'', fld, ''key''] (BadString (sr_key ref)) ''key not found in secret''))
          else ret (Some (Plain (Errorf (''unable to fetch '' @ what @ '' from secret reference'')))))
     | Inr v \<Rightarrow>
         (if v = '''' then ret (Some (FieldInvalid [''spec'', fld] (BadSecretRef ref) (what @ '' cannot be empty'')))
          else ret None) }"

definition provider_validate :: "'w env \<Rightarrow> provider \<Rightarrow> ('w, admission_error option) handler" where
  "provider_validate X p = do {
     d \<leftarrow> defaultProvider X;
     case d of
       Inl e \<Rightarrow> ret (Some (Plain e))
     | Inr d \<Rightarrow>
         (if (case d of Some d \<Rightarrow> p_name d \<noteq> p_name p | None \<Rightarrow> False)
          then ret (Some (FieldInvalid [''metadata'', ''annotations'', DefaultProviderAnnotation]
                 (BadString (p_name p)) ''only one default bucket provider is allowed''))
          else if ps_endpoint (p_spec p) = ''''
          then ret (Some (FieldInvalid [''spec'', ''endpoint''] (BadString (ps_endpoint (p_spec p)))
                 ''endpoint cannot be empty''))
          else if has_prefix (ps_endpoint (p_spec p)) ''http://''
                \<or> has_prefix (ps_endpoint (p_spec p)) ''https://''
          then ret (Some (FieldInvalid [''spec'', ''endpoint''] (BadString (ps_endpoint (p_spec p)))
                 ''endpoint must not contain http:// or https:// prefix''))
          else do {
            bad \<leftarrow> check_credential X ''accessKey'' ''access key'' (ps_accessKey (p_spec p));
            case bad of
              Some e \<Rightarrow> ret (Some e)
            | None \<Rightarrow> check_credential X ''secretKey'' ''secret key'' (ps_secretKey (p_spec p)) }) }"

text \<open>The unchecked type assertion \<^verbatim>\<open>o.(*v1alpha1.BucketProvider)\<close> panics on another type.\<close>

definition provider_ValidateCreate ::
    "'w env \<Rightarrow> any_object \<Rightarrow> ('w, admission_error option go) handler" where
  "provider_ValidateCreate X obj = (case obj of
     AnyProvider p \<Rightarrow> do { e \<leftarrow> provider_validate X p; ret (Returns e) }
   | _ \<Rightarrow> ret (Panics ''interface conversion''))"

definition provider_ValidateUpdate ::
    "'w env \<Rightarrow> any_object \<Rightarrow> any_object \<Rightarrow> ('w, admission_error option go) handler" where
  "provider_ValidateUpdate X old new = (case old of
     AnyProvider p \<Rightarrow> do { e \<leftarrow> provider_validate X p; ret (Returns e) }
   | _ \<Rightarrow> ret (Panics ''interface conversion''))"

definition provider_ValidateDelete ::
    "'w env \<Rightarrow> any_object \<Rightarrow> ('w, admission_error option go) handler" where
  "provider_ValidateDelete X obj = (case obj of
     AnyProvider p \<Rightarrow> do {
       (err, items) \<leftarrow> list_buckets X (Some (''metadata.name'', p_name p));
       case err of
         Some e \<Rightarrow> ret (Returns (Some (Plain e)))
       | None \<Rightarrow>
           (if length items > 0
            then ret (Returns (Some (FieldInvalid [''metadata'', ''name''] (BadString (p_name p))
                   ''cannot delete bucket provider while buckets are still referencing it'')))
            else ret (Returns None)) }
   | _ \<Rightarrow> ret (Panics ''interface conversion''))"

section \<open>What the webhooks decide\<close>

definition credential_ok :: "secret_ref \<Rightarrow> secret \<Rightarrow> bool" where
  "credential_ok ref s = (case sec_data s (sr_key ref) of None \<Rightarrow> False | Some v \<Rightarrow> v \<noteq> '''')"

text \<open>
  A provider is acceptable when no other provider is the default, its endpoint is a bare host,
  and both credentials are there.
\<close>

definition provider_acceptable :: "provider \<Rightarrow> call list \<Rightarrow> bool" where
  "provider_acceptable p t \<longleftrightarrow> (\<exists>l s1 s2.
     t = [ListProviders None None l,
          SecretCall (Get (ref_nsname (ps_accessKey (p_spec p)))) None s1,
          SecretCall (Get (ref_nsname (ps_secretKey (p_spec p)))) None s2]
   \<and> (\<forall>d. first_default l = Some d \<longrightarrow> p_name d = p_name p)
   \<and> ps_endpoint (p_spec p) \<noteq> ''''
   \<and> \<not> has_prefix (ps_endpoint (p_spec p)) ''http://''
   \<and> \<not> has_prefix (ps_endpoint (p_spec p)) ''https://''
   \<and> credential_ok (ps_accessKey (p_spec p)) s1 \<and> credential_ok (ps_secretKey (p_spec p)) s2)"

lemma tr_check_credential [tr_intros]:
  assumes "\<And>s. credential_ok ref s \<Longrightarrow> Q None [SecretCall (Get (ref_nsname ref)) None s]"
    and "\<And>e err s. err \<noteq> None \<or> \<not> credential_ok ref s \<Longrightarrow>
           Q (Some e) [SecretCall (Get (ref_nsname ref)) err s]"
  shows "tr (check_credential X fld what ref) Q"
  unfolding check_credential_def using assms
  by (auto simp: credential_ok_def intro!: tr_intros)

lemma provider_validate_decides:
  "tr (provider_validate X p) (\<lambda>e t. e = None \<longleftrightarrow> provider_acceptable p t)"
  unfolding provider_validate_def
  by (intro tr_intros) (auto simp: provider_acceptable_def split: option.splits)

lemma provider_validate_reads: "tr (provider_validate X p) (\<lambda>_. list_all read_only)"
  unfolding provider_validate_def by (intro tr_intros) auto

lemma tr_provider_validate [tr_intros]:
  assumes "\<And>e t. e = None \<longleftrightarrow> provider_acceptable p t \<Longrightarrow> list_all read_only t \<Longrightarrow> Q e t"
  shows "tr (provider_validate X p) Q"
  using tr_conj [OF provider_validate_decides provider_validate_reads, of X p]
  by (rule tr_mono) (use assms in auto)

definition provider_create_acceptable :: "any_object \<Rightarrow> call list \<Rightarrow> bool" where
  "provider_create_acceptable obj t = (case obj of AnyProvider p \<Rightarrow> provider_acceptable p t | _ \<Rightarrow> False)"

definition provider_delete_acceptable :: "any_object \<Rightarrow> call list \<Rightarrow> bool" where
  "provider_delete_acceptable obj t = (case obj of
     AnyProvider p \<Rightarrow> t = [ListBuckets (Some (''metadata.name'', p_name p)) None []] | _ \<Rightarrow> False)"

interpretation provider_create: validator "provider_ValidateCreate X" "Returns None" provider_create_acceptable for X
  by unfold_locales
    (auto simp: provider_ValidateCreate_def provider_create_acceptable_def split: any_object.splits
      intro!: tr_intros)

interpretation provider_update: validator "\<lambda>(old, new). provider_ValidateUpdate X old new"
    "Returns None" "\<lambda>(old, new). provider_create_acceptable old" for X
  by unfold_locales
    (auto simp: provider_ValidateUpdate_def provider_create_acceptable_def split: any_object.splits
      intro!: tr_intros)

interpretation provider_delete: validator "provider_ValidateDelete X" "Returns None" provider_delete_acceptable for X
  by unfold_locales
    (auto simp: provider_ValidateDelete_def provider_delete_acceptable_def split: any_object.splits
      intro!: tr_intros)

section \<open>Properties\<close>

text \<open>
  C35. Which providers are admitted. The creation of a provider is admitted exactly when the
  listing of the providers showed no default provider of another name, the endpoint is not
  empty and carries no http or https prefix, and each of the two secret references led to a
  secret that has the key with a value that is not empty. Judging it changes nothing.
\<close>
theorem provider_admitted_iff:
  "(result (provider_ValidateCreate X (AnyProvider p)) s = Returns None
      \<longleftrightarrow> provider_acceptable p (calls (provider_ValidateCreate X (AnyProvider p)) s))
   \<and> list_all read_only (calls (provider_ValidateCreate X (AnyProvider p)) s)"
  using provider_create.contract [of X "AnyProvider p" s]
  by (simp add: provider_create_acceptable_def)

definition plain_provider :: provider where
  "plain_provider = demo_provider\<lparr>p_status := \<lparr>pst_conditions = [], pst_phase = ''''\<rparr>\<rparr>"

lemmas provider_webhook_defs = provider_run_defs provider_ValidateCreate_def provider_ValidateUpdate_def
  provider_ValidateDelete_def provider_validate_def check_credential_def defaultProvider_def
  plain_provider_def is_default_def has_prefix_def quote_def

text \<open>
  One default provider shuts out every other provider. As soon as the listing shows a
  default provider, a provider of another name is refused with the complaint that only one
  default is allowed, whatever its own annotations are. The check should only concern
  providers that carry the annotation themselves.
\<close>
theorem second_provider_refused:
  assumes "ListProviders None None l \<in> set (calls (provider_ValidateCreate X (AnyProvider p)) s)"
    and "first_default l = Some d" and "p_name d \<noteq> p_name p"
  shows "result (provider_ValidateCreate X (AnyProvider p)) s =
    Returns (Some (FieldInvalid [''metadata'', ''annotations'', DefaultProviderAnnotation]
      (BadString (p_name p)) ''only one default bucket provider is allowed''))"
proof -
  have "tr (provider_ValidateCreate X (AnyProvider p)) (\<lambda>r t. ListProviders None None l \<in> set t \<longrightarrow>
      r = Returns (Some (FieldInvalid [''metadata'', ''annotations'', DefaultProviderAnnotation]
      (BadString (p_name p)) ''only one default bucket provider is allowed'')))"
    unfolding provider_ValidateCreate_def provider_validate_def any_object.case
    by (intro tr_bind tr_defaultProvider tr_case_sum tr_if tr_case_option tr_check_credential tr_return)
      (auto simp: assms(2,3) split: option.splits)
  from trD [OF this] assms(1) show ?thesis by blast
qed

definition other_default :: provider where
  "other_default = plain_provider\<lparr>p_meta :=
     (new_meta ''main'' '''')\<lparr>om_annotations := [DefaultProviderAnnotation \<mapsto> ''true'']\<rparr>\<rparr>"

theorem second_provider_refused_witness:
  "om_annotations (p_meta plain_provider) DefaultProviderAnnotation = None
   \<and> result (provider_ValidateCreate ref_env (AnyProvider plain_provider))
       (start (demo_world\<lparr>sim_providers := [(meta_key (p_meta other_default), other_default)]\<rparr>))
     \<noteq> Returns None"
proof -
  have "ListProviders None None [other_default] \<in> set (calls
      (provider_ValidateCreate ref_env (AnyProvider plain_provider))
      (start (demo_world\<lparr>sim_providers := [(meta_key (p_meta other_default), other_default)]\<rparr>)))"
    by (simp add: provider_webhook_defs other_default_def)
  moreover have "first_default [other_default] = Some other_default"
    and "p_name other_default \<noteq> p_name plain_provider"
    by (simp_all add: provider_webhook_defs other_default_def)
  ultimately show ?thesis
    using second_provider_refused [of "[other_default]" ref_env plain_provider]
    by (fastforce simp: plain_provider_def demo_provider_def new_meta_def)
qed

text \<open>
  The update webhook judges the old object. An update of a provider is admitted exactly
  when the provider as it was before is acceptable, whatever the new object is; there are a
  state and an update to an empty endpoint that is admitted although creating the new object
  is refused.
\<close>
theorem provider_update_judges_old:
  "(result (provider_ValidateUpdate X (AnyProvider old) new) s = Returns None
      \<longleftrightarrow> provider_acceptable old (calls (provider_ValidateUpdate X (AnyProvider old) new) s))
   \<and> (\<exists>w old new. ps_endpoint (p_spec new) = ''''
        \<and> result (provider_ValidateUpdate ref_env (AnyProvider old) (AnyProvider new)) (start w) = Returns None
        \<and> result (provider_ValidateCreate ref_env (AnyProvider new)) (start w) \<noteq> Returns None)"
proof -
  let ?new = "plain_provider\<lparr>p_spec := p_spec plain_provider\<lparr>ps_endpoint := ''''\<rparr>\<rparr>"
  have "result (provider_ValidateUpdate ref_env (AnyProvider plain_provider) (AnyProvider ?new))
      (start demo_world) = Returns None"
    and "result (provider_ValidateCreate ref_env (AnyProvider ?new)) (start demo_world) \<noteq> Returns None"
    by (simp_all add: provider_webhook_defs)
  moreover have "ps_endpoint (p_spec ?new) = ''''" by simp
  ultimately show ?thesis
    using provider_update.contract [of X "(AnyProvider old, new)" s]
    unfolding provider_create_acceptable_def any_object.case prod.case by blast
qed

text \<open>
  The delete webhook looks for buckets by their name. The deletion of a provider is
  admitted exactly when no bucket is named like the provider; there are a state with a
  bucket whose spec references the provider and in which the deletion is admitted.
\<close>
theorem provider_delete_by_name:
  "(result (provider_ValidateDelete X (AnyProvider p)) s = Returns None
      \<longleftrightarrow> calls (provider_ValidateDelete X (AnyProvider p)) s
            = [ListBuckets (Some (''metadata.name'', p_name p)) None []])
   \<and> (\<exists>w p b. b \<in> snd ` set (sim_buckets w) \<and> bs_provider (b_spec b) = p_name p
        \<and> p \<in> snd ` set (sim_providers w)
        \<and> result (provider_ValidateDelete ref_env (AnyProvider p)) (start w) = Returns None)"
proof -
  let ?b = "zero_bucket\<lparr>b_meta := new_meta ''data'' ''default'',
    b_spec := (b_spec zero_bucket)\<lparr>bs_provider := ''minio-provider''\<rparr>\<rparr>"
  let ?w = "demo_world\<lparr>sim_buckets := [(meta_key (b_meta ?b), ?b)]\<rparr>"
  have "result (provider_ValidateDelete ref_env (AnyProvider demo_provider)) (start ?w) = Returns None"
    and "?b \<in> snd ` set (sim_buckets ?w)" and "bs_provider (b_spec ?b) = p_name demo_provider"
    and "demo_provider \<in> snd ` set (sim_providers ?w)"
    by (simp_all add: provider_webhook_defs)
  then show ?thesis
    using provider_delete.contract [of X "AnyProvider p" s]
    unfolding provider_delete_acceptable_def any_object.case by blast
qed

end
