(* ===== verification/BucketWebhook.thy ===== *)
theory BucketWebhook imports ProviderWebhook begin

text \<open>
  \<^verbatim>\<open>src/controllers/bucket_webhook.go\<close>: the defaulting and the validation of buckets. The
  lemmas show that defaulting completes a spec without touching what the user wrote, and
  characterise the buckets and updates that are admitted.
\<close>

section \<open>The webhooks\<close>

definition expected_bucket :: "any_object \<Rightarrow> go_err" where
  "expected_bucket obj = Errorf (''expected a Bucket but got a '' @ type_name obj)"

text \<open>Filling in the fields the user left empty, once the provider is known.\<close>

definition fill_defaults :: "string \<Rightarrow> bucket \<Rightarrow> bucket" where
  "fill_defaults provider bucket = bucket\<lparr>b_spec := (b_spec bucket)\<lparr>
     bs_provider := provider,
     bs_reclaimPolicy := (if bs_reclaimPolicy (b_spec bucket) = '''' then BucketReclaimRetain
                          else bs_reclaimPolicy (b_spec bucket)),
     bs_secretName := (if bs_secretName (b_spec bucket) = None \<or> bs_secretName (b_spec bucket) = Some ''''
                       then Some (b_name bucket @ ''-bucket-credentials'')
                       else bs_secretName (b_spec bucket)),
     bs_serviceAccount := (if bs_serviceAccount (b_spec bucket) = '''' then b_name bucket
                           else bs_serviceAccount (b_spec bucket))\<rparr>\<rparr>"

text \<open>The object a mutating webhook leaves behind is its result; it is the argument after an error.\<close>

definition bucket_Default :: "'w env \<Rightarrow> any_object \<Rightarrow> ('w, go_err + bucket) handler" where
  "bucket_Default X obj = (case obj of
     AnyBucket bucket \<Rightarrow> do {
       provider \<leftarrow>
         (if bs_provider (b_spec bucket) = '''' then do {
            d \<leftarrow> defaultProvider X;
            case d of
              Inl e \<Rightarrow> ret (Inl e)
            | Inr (Some d) \<Rightarrow> ret (Inr (p_name d))
            | Inr None \<Rightarrow> ret (Inl (Errorf ''no default BucketProvider found; please specify a provider'')) }
          else ret (Inr (bs_provider (b_spec bucket))));
       case provider of
         Inl e \<Rightarrow> ret (Inl e)
       | Inr provider \<Rightarrow> ret (Inr (fill_defaults provider bucket)) }
   | _ \<Rightarrow> ret (Inl (expected_bucket obj)))"

definition reserved_keys :: "string list" where
  "reserved_keys = [MinioAccessKey, MinioSecretKey, MinioEndpoint, MinioBucket, MinioSecure]"

fun reserved_in :: "string list \<Rightarrow> (string \<times> string) list \<Rightarrow> string option" where
  "reserved_in [] m = None"
| "reserved_in (v # vs) m = (if v \<in> fst ` set m then Some v else reserved_in vs m)"

fun check_entries :: "'w env \<Rightarrow> (string \<times> string) list \<Rightarrow> go_err option" where
  "check_entries X [] = None"
| "check_entries X ((k, v) # m) =
     (case template_parse X v of
        Some e \<Rightarrow> Some (Wrapf (k @ '': unable to parse secret template'') e)
      | None \<Rightarrow>
         (case template_execute X v zero_bucket_access of
            Inl e \<Rightarrow> Some (Wrapf (k @ '': unable to execute secret template'') e)
          | Inr _ \<Rightarrow> check_entries X m))"

definition validateTemplate :: "'w env \<Rightarrow> (string \<times> string) list \<Rightarrow> go_err option" where
  "validateTemplate X m = (case reserved_in reserved_keys m of
     Some v \<Rightarrow> Some (Errorf (''cannot contain '' @ v))
   | None \<Rightarrow> check_entries X m)"

text \<open>The part that creation and update share: the provider exists and the template is valid.\<close>

definition check_bucket :: "'w env \<Rightarrow> bucket \<Rightarrow> ('w, admission_error option) handler" where
  "check_bucket X bucket = do {
     (err, _) \<leftarrow> api_get (providers X) ProviderCall
       \<lparr>nn_name = bs_provider (b_spec bucket), nn_namespace = ''''\<rparr> zero_provider;
     case err of
       Some e \<Rightarrow>
         (if is_not_found X e
          then ret (Some (FieldInvalid [''spec'', ''provider''] (BadString (bs_provider (b_spec bucket)))
                 ''referenced BucketProvider not found''))
          else ret (Some (Plain e)))
     | None \<Rightarrow>
         (case validateTemplate X (bs_secretTemplate (b_spec bucket)) of
            Some e \<Rightarrow> ret (Some (FieldInvalid [''spec'', ''secretTemplate'']
                        (BadTemplate (bs_secretTemplate (b_spec bucket))) (Error e)))
          | None \<Rightarrow> ret None) }"

definition bucket_ValidateCreate :: "'w env \<Rightarrow> any_object \<Rightarrow> ('w, admission_error option) handler" where
  "bucket_ValidateCreate X obj = (case obj of
     AnyBucket bucket \<Rightarrow> check_bucket X bucket
   | _ \<Rightarrow> ret (Some (Plain (expected_bucket obj))))"

definition bucket_ValidateUpdate ::
    "'w env \<Rightarrow> any_object \<Rightarrow> any_object \<Rightarrow> ('w, admission_error option) handler" where
  "bucket_ValidateUpdate X o' n = (case o' of
     AnyBucket old \<Rightarrow>
       (case n of
          AnyBucket bucket \<Rightarrow>
            (if bs_provider (b_spec old) \<noteq> '''' \<and> bs_provider (b_spec old) \<noteq> bs_provider (b_spec bucket)
             then ret (Some (FieldInvalid [''spec'', ''provider''] (BadString (bs_provider (b_spec bucket)))
                    ''cannot change provider once set''))
             else check_bucket X bucket)
        | _ \<Rightarrow> ret (Some (Plain (expected_bucket n))))
   | _ \<Rightarrow> ret (Some (Plain (expected_bucket o'))))"

definition bucket_ValidateDelete :: "'w env \<Rightarrow> any_object \<Rightarrow> ('w, admission_error option) handler" where
  "bucket_ValidateDelete X obj = ret None"

section \<open>What the webhooks decide\<close>

text \<open>A valid template: no reserved key, and every entry parses and renders an empty access.\<close>

definition template_ok :: "'w env \<Rightarrow> (string \<times> string) list \<Rightarrow> bool" where
  "template_ok X m \<longleftrightarrow> set reserved_keys \<inter> fst ` set m = {}
     \<and> (\<forall>(k, v) \<in> set m. template_parse X v = None \<and> \<not> isl (template_execute X v zero_bucket_access))"

lemma reserved_in_None: "reserved_in vs m = None \<longleftrightarrow> set vs \<inter> fst ` set m = {}"
  by (induction vs) auto

lemma check_entries_None:
  "check_entries X m = None \<longleftrightarrow>
     (\<forall>(k, v) \<in> set m. template_parse X v = None \<and> \<not> isl (template_execute X v zero_bucket_access))"
  by (induction X m rule: check_entries.induct) (auto split: option.splits sum.splits)

lemma validateTemplate_iff: "validateTemplate X m = None \<longleftrightarrow> template_ok X m"
  by (auto simp: validateTemplate_def template_ok_def reserved_in_None [symmetric]
      check_entries_None [symmetric] split: option.splits)

definition bucket_acceptable :: "'w env \<Rightarrow> bucket \<Rightarrow> call list \<Rightarrow> bool" where
  "bucket_acceptable X b t \<longleftrightarrow> template_ok X (bs_secretTemplate (b_spec b))
     \<and> (\<exists>p. t = [ProviderCall (Get \<lparr>nn_name = bs_provider (b_spec b), nn_namespace = ''''\<rparr>) None p])"

lemma tr_check_bucket [tr_intros]:
  assumes "\<And>e t. e = None \<longleftrightarrow> bucket_acceptable X b t \<Longrightarrow> list_all read_only t \<Longrightarrow> Q e t"
  shows "tr (check_bucket X b) Q"
  unfolding check_bucket_def
  by (intro tr_intros assms) (auto simp: bucket_acceptable_def validateTemplate_iff [symmetric])

definition bucket_create_acceptable :: "'w env \<Rightarrow> any_object \<Rightarrow> call list \<Rightarrow> bool" where
  "bucket_create_acceptable X obj t = (case obj of AnyBucket b \<Rightarrow> bucket_acceptable X b t | _ \<Rightarrow> False)"

definition bucket_update_acceptable :: "'w env \<Rightarrow> any_object \<times> any_object \<Rightarrow> call list \<Rightarrow> bool" where
  "bucket_update_acceptable X r t = (case r of
     (AnyBucket old, AnyBucket new) \<Rightarrow> bucket_acceptable X new t
       \<and> (bs_provider (b_spec old) = '''' \<or> bs_provider (b_spec old) = bs_provider (b_spec new))
   | _ \<Rightarrow> False)"

interpretation bucket_create: validator "bucket_ValidateCreate X" None "bucket_create_acceptable X" for X
  by unfold_locales (auto simp: bucket_ValidateCreate_def bucket_create_acceptable_def
      split: any_object.splits intro!: tr_intros)

interpretation bucket_update: validator "\<lambda>(old, new). bucket_ValidateUpdate X old new" None
    "bucket_update_acceptable X" for X
  by unfold_locales (auto simp: bucket_ValidateUpdate_def bucket_update_acceptable_def
      split: any_object.splits intro!: tr_intros)

interpretation bucket_delete: validator "bucket_ValidateDelete X" None "\<lambda>_ t. t = []" for X
  by unfold_locales (auto simp: bucket_ValidateDelete_def intro!: tr_intros)

section \<open>Filling in the defaults\<close>

text \<open>Which provider a bucket gets: its own, or the first default one of the listing.\<close>

definition p_chosen :: "bucket \<Rightarrow> string \<Rightarrow> call list \<Rightarrow> bool" where
  "p_chosen b p t \<longleftrightarrow>
     bs_provider (b_spec b) \<in> {'''', p}
   \<and> (bs_provider (b_spec b) = '''' \<longrightarrow>
        (\<exists>l v. t = [ListProviders None None l] \<and> first_default l = Some v \<and> p = p_name v))"

lemma fill_defaults_keeps [simp]:
  "b_meta (fill_defaults p b) = b_meta b" "b_status (fill_defaults p b) = b_status b"
  "bs_provider (b_spec (fill_defaults p b)) = p"
  "bs_secretTemplate (b_spec (fill_defaults p b)) = bs_secretTemplate (b_spec b)"
  "bs_reclaimPolicy (b_spec (fill_defaults p b)) \<noteq> ''''"
  "bs_secretName (b_spec (fill_defaults p b)) \<notin> {None, Some ''''}"
  by (simp_all add: fill_defaults_def)

lemma fill_defaults_respects:
  "bs_reclaimPolicy (b_spec b) \<in> {'''', bs_reclaimPolicy (b_spec (fill_defaults p b))}"
  "bs_secretName (b_spec b) \<in> {None, Some '''', bs_secretName (b_spec (fill_defaults p b))}"
  "bs_serviceAccount (b_spec b) \<in> {'''', bs_serviceAccount (b_spec (fill_defaults p b))}"
  by (simp_all add: fill_defaults_def)

lemma fill_defaults_idem:
  "b_name b \<noteq> '''' \<Longrightarrow> fill_defaults p (fill_defaults p b) = fill_defaults p b"
  by (simp add: fill_defaults_def)

section \<open>Properties\<close>


definition demo_bucket :: bucket where
  "demo_bucket = zero_bucket\<lparr>b_meta := new_meta ''data'' ''default''\<rparr>"

definition default_world :: sim where
  "default_world = demo_world\<lparr>sim_providers := [(meta_key (p_meta other_default), other_default)]\<rparr>"

lemmas bucket_webhook_defs = provider_webhook_defs other_default_def demo_bucket_def default_world_def
  bucket_Default_def fill_defaults_def


text \<open>
  C32. Which buckets are admitted. The creation of a bucket is admitted exactly when its
  provider exists and its secret template is valid: no key is one of the five reserved ones,
  and every entry parses and renders an empty access. The verdict on the template does not
  depend on the order in which the map is iterated.
\<close>
theorem bucket_admitted_iff:
  "(result (bucket_ValidateCreate X (AnyBucket b)) s = None
      \<longleftrightarrow> template_ok X (bs_secretTemplate (b_spec b))
        \<and> (\<exists>p. calls (bucket_ValidateCreate X (AnyBucket b)) s
             = [ProviderCall (Get \<lparr>nn_name = bs_provider (b_spec b), nn_namespace = ''''\<rparr>) None p]))
   \<and> (\<forall>m. set m = set (bs_secretTemplate (b_spec b)) \<longrightarrow>
        (validateTemplate X m = None \<longleftrightarrow> template_ok X (bs_secretTemplate (b_spec b))))"
  using bucket_create.contract [of X "AnyBucket b" s]
  unfolding validateTemplate_iff bucket_create_acceptable_def any_object.case bucket_acceptable_def
  by (simp add: template_ok_def)

theorem bucket_admitted_iff_witness:
  "validateTemplate ref_env [(''a'', ''x''), (''b'', ''y'')] = validateTemplate ref_env [(''b'', ''y''), (''a'', ''x'')]
   \<and> validateTemplate ref_env [(''a'', ''x''), (MinioBucket, ''y'')] \<noteq> None"
proof -
  let ?b = "demo_bucket\<lparr>b_spec := (b_spec demo_bucket)\<lparr>bs_secretTemplate := [(''a'', ''x''), (''b'', ''y'')]\<rparr>\<rparr>"
  have ok: "template_ok ref_env [(''a'', ''x''), (''b'', ''y'')]"
    by (simp add: template_ok_def reserved_keys_def ref_defs)
  have "validateTemplate ref_env m = None" if "set m = {(''a'', ''x''), (''b'', ''y'')}" for m
    using bucket_admitted_iff [of ref_env ?b "start demo_world"] that ok by simp
  then have "validateTemplate ref_env [(''a'', ''x''), (''b'', ''y'')] = None"
    and "validateTemplate ref_env [(''b'', ''y''), (''a'', ''x'')] = None" by (simp_all add: insert_commute)
  moreover have "validateTemplate ref_env [(''a'', ''x''), (MinioBucket, ''y'')] \<noteq> None"
    by (simp add: validateTemplate_iff template_ok_def reserved_keys_def)
  ultimately show ?thesis by simp
qed

text \<open>
  C33. The provider of a bucket is set once. An update of a bucket is admitted exactly when
  the new object is admissible by itself and the old object had no provider or the same one;
  the refusal of a change makes no call at all.
\<close>
theorem bucket_provider_immutable:
  "(result (bucket_ValidateUpdate X (AnyBucket old) (AnyBucket new)) s = None
      \<longleftrightarrow> bucket_acceptable X new (calls (bucket_ValidateUpdate X (AnyBucket old) (AnyBucket new)) s)
        \<and> (bs_provider (b_spec old) = '''' \<or> bs_provider (b_spec old) = bs_provider (b_spec new)))
   \<and> (bs_provider (b_spec old) \<notin> {'''', bs_provider (b_spec new)} \<longrightarrow>
        calls (bucket_ValidateUpdate X (AnyBucket old) (AnyBucket new)) s = []
      \<and> result (bucket_ValidateUpdate X (AnyBucket old) (AnyBucket new)) s =
          Some (FieldInvalid [''spec'', ''provider''] (BadString (bs_provider (b_spec new)))
            ''cannot change provider once set''))"
  using bucket_update.contract [of X "(AnyBucket old, AnyBucket new)" s]
  by (simp add: bucket_update_acceptable_def bucket_ValidateUpdate_def)

theorem bucket_provider_immutable_witness:
  "result (bucket_ValidateUpdate ref_env
       (AnyBucket (demo_bucket\<lparr>b_spec := (b_spec demo_bucket)\<lparr>bs_provider := ''main''\<rparr>\<rparr>))
       (AnyBucket demo_bucket)) (start default_world) \<noteq> None"
proof -
  have "bs_provider (b_spec (demo_bucket\<lparr>b_spec := (b_spec demo_bucket)\<lparr>bs_provider := ''main''\<rparr>\<rparr>))
      \<notin> {'''', bs_provider (b_spec demo_bucket)}"
    by (simp add: demo_bucket_def zero_bucket_def)
  then show ?thesis using bucket_provider_immutable by fastforce
qed

end
