(* ===== verification/Buckets.thy ===== *)
theory Buckets imports Reporting BucketWebhook begin

text \<open>
  \<^verbatim>\<open>src/controllers/bucket_controller.go\<close>: the reconciliation of a \<^verbatim>\<open>Bucket\<close>. Each function of
  the file is one definition; the bucket a function is given a pointer to is passed in and
  returned as the function leaves it. Every pointer the code follows is a case of the model,
  and following a nil pointer is a panic.
\<close>

section \<open>Reporting an error\<close>

definition b_with_status :: "condition list \<Rightarrow> string \<Rightarrow> bucket \<Rightarrow> bucket" where
  "b_with_status cs phase b = b\<lparr>b_status := (b_status b)\<lparr>bst_conditions := cs, bst_phase := phase\<rparr>\<rparr>"

definition bucket_err :: "'w env \<Rightarrow> bucket \<Rightarrow> go_err option \<Rightarrow> string \<Rightarrow> ('w, go_err option) handler" where
  "bucket_err X bucket err reason = (case err of
     None \<Rightarrow> ret None
   | Some e \<Rightarrow> do {
       t \<leftarrow> now X;
       t' \<leftarrow> now X;
       (err2, bucket) \<leftarrow> api_status_update (buckets X) BucketCall
         (b_with_status
            (set_condition X t'
               (set_condition X t (b_conditions bucket)
                  (cond BucketConditionReady ConditionFalse ''Ready'' ''Bucket is not ready''
                     (om_generation (b_meta bucket))))
               ((cond BucketConditionError ConditionTrue reason (Error e)
                   (om_generation (b_meta bucket)))\<lparr>cd_lastTransitionTime := t'\<rparr>))
            BucketConditionError bucket);
       case err2 of
         Some e2 \<Rightarrow> ret (combine X [Some e, Some e2])
       | None \<Rightarrow> do {
           rec_Warn X (AnyBucket bucket) ''BucketError'' (Error e);
           ret (Some e) } })"

section \<open>The MinIO bucket\<close>

definition reconcileBucket :: "'w env \<Rightarrow> mc_client \<Rightarrow> bucket \<Rightarrow> ('w, bucket outcome) handler" where
  "reconcileBucket X mc bucket = do {
     (ok, err) \<leftarrow> bucket_exists X (Client mc) (b_name bucket);
     case err of
       Some e \<Rightarrow> ret (stop (Some (Wrapf ''unable to check if bucket exists'' e)) bucket)
     | None \<Rightarrow>
        (if ok
         then (case bst_endpoint (b_status bucket) of
                 None \<Rightarrow> do {
                   rec_Warnf X (AnyBucket bucket) ''BucketExists'' ''bucket %s already exists'' [b_name bucket];
                   ret (stop (Some (Errorf ''conflict: bucket already exists'')) bucket) }
               | Some _ \<Rightarrow> ret (proceed bucket))
         else do {
           err \<leftarrow> minio_do X (Client mc) (MakeBucket (b_name bucket));
           case err of
             Some e \<Rightarrow> ret (stop (Some (Wrapf ''unable to create bucket'' e)) bucket)
           | None \<Rightarrow> do {
               (err, bucket) \<leftarrow> api_status_update (buckets X) BucketCall
                 (bucket\<lparr>b_status := (b_status bucket)\<lparr>bst_endpoint := Some (Endpoint X mc)\<rparr>\<rparr>);
               case err of
                 Some e \<Rightarrow> do {
                   e2 \<leftarrow> minio_do X (Client mc) (RemoveBucket (b_name bucket));
                   ret (stop (combine X [Some (Wrapf ''unable to update bucket status'' e), e2]) bucket) }
               | None \<Rightarrow> do {
                   rec_Eventf X (AnyBucket bucket) ''BucketCreated'' ''Bucket %s created'' [b_name bucket];
                   ret (stop None bucket) } } }) }"

section \<open>The service account\<close>

text \<open>A \<^verbatim>\<open>*BucketServiceAccount\<close> as a \<^verbatim>\<open>metav1.Object\<close>.\<close>

definition account_object :: "account \<Rightarrow> meta_object" where
  "account_object sa = \<lparr>mo_meta = a_meta sa, mo_type = type_name (AnyAccount sa),
     mo_runtime = Some (AnyAccount sa)\<rparr>"

definition account_for :: "bucket \<Rightarrow> account" where
  "account_for bucket = zero_account\<lparr>
     a_meta := new_meta (bs_serviceAccount (b_spec bucket)) (b_namespace bucket),
     a_spec := \<lparr>as_provider = bs_provider (b_spec bucket)\<rparr>\<rparr>"

definition get_or_create_account :: "'w env \<Rightarrow> bucket \<Rightarrow> ('w, go_err + account) handler" where
  "get_or_create_account X bucket = do {
     (err, sa) \<leftarrow> api_get (accounts X) AccountCall
       \<lparr>nn_name = bs_serviceAccount (b_spec bucket), nn_namespace = b_namespace bucket\<rparr> zero_account;
     case err of
       None \<Rightarrow> ret (Inr sa)
     | Some e \<Rightarrow>
        (if ignore_not_found X (Some e) \<noteq> None
         then ret (Inl (Wrapf ''unable to get service account'' e))
         else do {
           (err, sa) \<leftarrow> api_create (accounts X) AccountCall (account_for bucket);
           case err of
             Some e \<Rightarrow> ret (Inl (Wrapf ''unable to create service account'' e))
           | None \<Rightarrow> ret (Inr sa) }) }"

definition bucket_reconcileServiceAccount :: "'w env \<Rightarrow> bucket \<Rightarrow> ('w, bucket outcome) handler" where
  "bucket_reconcileServiceAccount X bucket = do {
     sa \<leftarrow> get_or_create_account X bucket;
     case sa of
       Inl e \<Rightarrow> ret (stop (Some e) bucket)
     | Inr sa \<Rightarrow>
        (case ForceControllerReference X (account_object sa) (b_meta bucket) of
           Inl e \<Rightarrow> ret (stop (Some (Flatf ''unable to set controller reference'' e)) bucket)
         | Inr m \<Rightarrow>
            (if semantic_equal X (BucketPtr (bucket\<lparr>b_meta := m\<rparr>)) (BucketPtr bucket)
             then ret (proceed bucket)
             else do {
               (err, _) \<leftarrow> api_update (buckets X) BucketCall (bucket\<lparr>b_meta := m\<rparr>);
               case err of
                 Some e \<Rightarrow> ret (stop (Some (Wrapf ''unable to update bucket'' e)) bucket)
               | None \<Rightarrow> ret (stop None bucket) })) }"

section \<open>The secret\<close>

text \<open>\<^verbatim>\<open>as.Data[k]\<close>: the nil slice, which is empty, when the key is missing.\<close>

definition data_of :: "secret \<Rightarrow> string \<Rightarrow> string" where
  "data_of s k = (case sec_data s k of Some v \<Rightarrow> v | None \<Rightarrow> '''')"

definition format_bool :: "bool \<Rightarrow> string" where
  "format_bool b = (if b then ''true'' else ''false'')"

definition access_of :: "'w env \<Rightarrow> mc_client \<Rightarrow> bucket \<Rightarrow> secret \<Rightarrow> bucket_access" where
  "access_of X mc bucket as = \<lparr>ba_accessKey = data_of as MinioAccessKey, ba_secretKey = data_of as MinioSecretKey,
     ba_endpoint = Endpoint X mc, ba_bucket = b_name bucket, ba_secure = Secure X mc\<rparr>"

definition access_data :: "'w env \<Rightarrow> mc_client \<Rightarrow> bucket \<Rightarrow> secret \<Rightarrow> string \<rightharpoonup> string" where
  "access_data X mc bucket as = [MinioBucket \<mapsto> b_name bucket, MinioAccessKey \<mapsto> data_of as MinioAccessKey,
     MinioSecretKey \<mapsto> data_of as MinioSecretKey, MinioEndpoint \<mapsto> Endpoint X mc,
     MinioSecure \<mapsto> format_bool (Secure X mc)]"

text \<open>The loop over the entries of the template.\<close>

fun render :: "'w env \<Rightarrow> bucket_access \<Rightarrow> (string \<times> string) list \<Rightarrow> (string \<rightharpoonup> string) \<Rightarrow>
    go_err + (string \<rightharpoonup> string)" where
  "render X a [] data = Inr data"
| "render X a ((k, v) # m) data =
     (case template_parse X v of
        Some e \<Rightarrow> Inl (Wrapf (k @ '': unable to parse secret template'') e)
      | None \<Rightarrow>
         (case template_execute X v a of
            Inl e \<Rightarrow> Inl (Wrapf (k @ '': unable to execute secret template'') e)
          | Inr buf \<Rightarrow> render X a m (data(k \<mapsto> buf))))"

text \<open>The secret of the old name is removed first when the name in the spec has changed.\<close>

definition delete_old_secret :: "'w env \<Rightarrow> bucket \<Rightarrow> string \<Rightarrow> ('w, go_err option) handler" where
  "delete_old_secret X bucket secretName = (case bst_secretName (b_status bucket) of
     None \<Rightarrow> ret None
   | Some old \<Rightarrow>
      (if secretName \<noteq> old then do {
         (err, _) \<leftarrow> api_delete (secrets X) SecretCall
           (zero_secret\<lparr>sec_meta := new_meta old (b_namespace bucket)\<rparr>);
         case err of
           Some e \<Rightarrow>
             (if ignore_not_found X (Some e) \<noteq> None
              then ret (Some (Wrapf ''unable to delete old secret'' e)) else ret None)
         | None \<Rightarrow> do {
             rec_Eventf X (AnyBucket bucket) ''SecretDeleted'' ''Secret %s deleted'' [old];
             ret None } }
       else ret None))"

text \<open>Writing the secret \<open>s2\<close> (lines 305 to 326): \<open>secret\<close> is the one that was read or a new one.\<close>

definition write_secret ::
    "'w env \<Rightarrow> mc_client \<Rightarrow> bucket \<Rightarrow> bool \<Rightarrow> secret \<Rightarrow> secret \<Rightarrow> ('w, bucket outcome) handler" where
  "write_secret X mc bucket update secret s2 =
     (if semantic_equal X (SecretValue secret) (SecretPtr s2) then ret (proceed bucket)
      else if update then do {
        (err, _) \<leftarrow> api_update (secrets X) SecretCall s2;
        case err of
          Some e \<Rightarrow> ret (stop (Some (Wrapf ''unable to update secret'' e)) bucket)
        | None \<Rightarrow> do {
            rec_Eventf X (AnyBucket bucket) ''SecretUpdated'' ''Secret %s updated'' [om_name (sec_meta secret)];
            ret (proceed bucket) } }
      else do {
        (err, s2) \<leftarrow> api_create (secrets X) SecretCall s2;
        case err of
          Some e \<Rightarrow> do {
            e2 \<leftarrow> minio_do X (AdminClient mc) (DeleteServiceAccount (name (b_name bucket)));
            ret (stop (combine X [Some (Wrapf ''unable to create secret'' e), e2]) bucket) }
        | None \<Rightarrow> do {
            (err, bucket') \<leftarrow> api_status_update (buckets X) BucketCall
              (bucket\<lparr>b_status := (b_status bucket)\<lparr>bst_secretName := Some (om_name (sec_meta s2))\<rparr>\<rparr>);
            case err of
              Some e \<Rightarrow> do {
                (e2, _) \<leftarrow> api_delete (secrets X) SecretCall secret;
                e3 \<leftarrow> minio_do X (AdminClient mc) (DeleteServiceAccount (name (b_name bucket)));
                ret (stop (combine X [Some (Wrapf ''unable to update bucket status'' e), e2, e3]) bucket') }
            | None \<Rightarrow> do {
                rec_Eventf X (AnyBucket bucket') ''SecretCreated'' ''Secret %s created'' [om_name (sec_meta secret)];
                ret (proceed bucket') } } })"

text \<open>Building \<open>s2\<close> out of the credentials of the account, once both secrets were looked for.\<close>

definition build_secret ::
    "'w env \<Rightarrow> mc_client \<Rightarrow> bucket \<Rightarrow> secret \<Rightarrow> secret \<Rightarrow> go_err + secret" where
  "build_secret X mc bucket secret as =
     (case render X (access_of X mc bucket as) (bs_secretTemplate (b_spec bucket)) (access_data X mc bucket as) of
        Inl e \<Rightarrow> Inl e
      | Inr data \<Rightarrow> Inr (secret\<lparr>sec_type := BucketAccessSecretType,
          sec_meta := (sec_meta secret)\<lparr>om_labels := om_labels (b_meta bucket)\<rparr>, sec_data := data\<rparr>))"

definition find_secret :: "'w env \<Rightarrow> bucket \<Rightarrow> string \<Rightarrow> ('w, go_err + bool \<times> secret) handler" where
  "find_secret X bucket secretName = do {
     (err, secret) \<leftarrow> api_get (secrets X) SecretCall
       \<lparr>nn_name = secretName, nn_namespace = b_namespace bucket\<rparr> zero_secret;
     case err of
       None \<Rightarrow> ret (Inr (True, secret))
     | Some e \<Rightarrow>
        (if ignore_not_found X (Some e) \<noteq> None then ret (Inl (Wrapf ''unable to get secret'' e))
         else ret (Inr (False, zero_secret\<lparr>sec_meta := new_meta secretName (b_namespace bucket)\<rparr>))) }"

text \<open>
  The pointer \<^verbatim>\<open>bucket.Spec.SecretName\<close> is followed in line 242 (when there is an old name) or
  in line 256, before any call.
\<close>

definition reconcileSecret :: "'w env \<Rightarrow> mc_client \<Rightarrow> bucket \<Rightarrow> ('w, bucket outcome go) handler" where
  "reconcileSecret X mc bucket = (case bs_secretName (b_spec bucket) of
     None \<Rightarrow> ret (Panics ''nil pointer dereference'')
   | Some secretName \<Rightarrow> returning (do {
       err \<leftarrow> delete_old_secret X bucket secretName;
       case err of
         Some e \<Rightarrow> ret (stop (Some e) bucket)
       | None \<Rightarrow> do {
           found \<leftarrow> find_secret X bucket secretName;
           case found of
             Inl e \<Rightarrow> ret (stop (Some e) bucket)
           | Inr (update, secret) \<Rightarrow> do {
               (err, as) \<leftarrow> api_get (secrets X) SecretCall
                 \<lparr>nn_name = bs_serviceAccount (b_spec bucket) @ saSecretSuffix, nn_namespace = b_namespace bucket\<rparr>
                 zero_secret;
               case err of
                 Some e \<Rightarrow> ret ((\<lparr>requeueAfter = second\<rparr>, False, ignore_not_found X (Some e)), bucket)
               | None \<Rightarrow>
                  (case build_secret X mc bucket secret as of
                     Inl e \<Rightarrow> ret (stop (Some e) bucket)
                   | Inr s2 \<Rightarrow>
                      (case set_controller_reference X (AnyBucket bucket) (sec_meta s2) of
                         (Some e, _) \<Rightarrow> do {
                           e2 \<leftarrow> minio_do X (AdminClient mc) (DeleteServiceAccount (name (b_name bucket)));
                           ret (stop (combine X [Some (Wrapf ''unable to set controller reference'' e), e2]) bucket) }
                       | (None, refs) \<Rightarrow> write_secret X mc bucket update secret
                           (s2\<lparr>sec_meta := (sec_meta s2)\<lparr>om_ownerReferences := refs\<rparr>\<rparr>))) } } }))"

section \<open>Deletion\<close>

definition bucket_reconcileDeletion :: "'w env \<Rightarrow> bucket \<Rightarrow> ('w, bucket outcome) handler" where
  "bucket_reconcileDeletion X bucket =
     (if \<not> condition_true X (b_conditions bucket) BucketConditionDeleting
      then do {
        t \<leftarrow> now X;
        (err, bucket) \<leftarrow> api_status_update (buckets X) BucketCall
          (b_with_status (set_condition X t (b_conditions bucket)
              (cond BucketConditionDeleting ConditionTrue ''Deleting'' ''Bucket is being deleted''
                 (om_generation (b_meta bucket))))
             BucketConditionDeleting bucket);
        case err of
          Some e \<Rightarrow> ret (stop (Some (Wrapf ''unable to update bucket status'' e)) bucket)
        | None \<Rightarrow> do {
            rec_Eventf X (AnyBucket bucket) ''BucketDeleting'' ''Bucket %s is being deleted'' [b_name bucket];
            ret (stop None bucket) } }
      else do {
        (err, p) \<leftarrow> api_get (providers X) ProviderCall
          \<lparr>nn_name = bs_provider (b_spec bucket), nn_namespace = ''''\<rparr> zero_provider;
        case err of
          Some e \<Rightarrow>
            (if is_not_found X e then ret (proceed bucket)
             else ret (stop (Some (Wrapf ''unable to get bucket provider'' e)) bucket))
        | None \<Rightarrow> do {
            mc \<leftarrow> newClient X p;
            case mc of
              Inl e \<Rightarrow> ret (stop (Some (Wrapf ''unable to create minio client'' e)) bucket)
            | Inr mc \<Rightarrow>
                (if bs_reclaimPolicy (b_spec bucket) \<noteq> BucketReclaimDelete then ret (proceed bucket)
                 else do {
                   err \<leftarrow> minio_do X (Client mc) (RemoveBucketWithOptions (b_name bucket) True);
                   case err of
                     Some e \<Rightarrow> ret (stop (Some (Wrapf ''unable to remove bucket'' e)) bucket)
                   | None \<Rightarrow> do {
                       rec_Eventf X (AnyBucket bucket) ''BucketDeleted'' ''Bucket %s deleted'' [b_name bucket];
                       ret (proceed bucket) } }) } })"

section \<open>Reconcile\<close>

text \<open>The deletion branch of \<^verbatim>\<open>Reconcile\<close> (lines 75 to 86).\<close>

definition bucket_delete_branch ::
    "'w env \<Rightarrow> bucket \<Rightarrow> ('w, (ctrl_result \<times> go_err option) go) handler" where
  "bucket_delete_branch X bucket = do {
     ((re, ok, err), bucket) \<leftarrow> bucket_reconcileDeletion X bucket;
     if \<not> ok then ret (Returns (re, err))
     else do {
       (err, _) \<leftarrow> api_update (buckets X) BucketCall (bucket\<lparr>b_meta := (b_meta bucket)\<lparr>
         om_finalizers := remove_finalizer X (om_finalizers (b_meta bucket)) finalizer\<rparr>\<rparr>);
       case err of
         Some e \<Rightarrow>
           (if ignore_not_found X (Some e) \<noteq> None then ret (Returns (no_requeue, Some e))
            else ret (Returns (no_requeue, None)))
       | None \<Rightarrow> ret (Returns (no_requeue, None)) } }"

text \<open>\<^verbatim>\<open>if err := r.Update(ctx, &bucket); err != nil { return ..., err }; return ..., nil\<close>.\<close>

definition update_and_return :: "'w env \<Rightarrow> bucket \<Rightarrow> ('w, (ctrl_result \<times> go_err option) go) handler" where
  "update_and_return X bucket = do {
     (err, _) \<leftarrow> api_update (buckets X) BucketCall bucket;
     ret (Returns (no_requeue, err)) }"

text \<open>The last part (lines 157 to 173): every step said to go on.\<close>

definition bucket_ready :: "'w env \<Rightarrow> bucket \<Rightarrow> ('w, (ctrl_result \<times> go_err option) go) handler" where
  "bucket_ready X bucket =
     (if \<not> condition_true X (b_conditions bucket) BucketConditionReady
      then do {
        t \<leftarrow> now X;
        (err, bucket) \<leftarrow> api_status_update (buckets X) BucketCall
          (b_with_status
             (set_condition X t
                (remove_condition X
                   (remove_condition X (b_conditions bucket) BucketConditionCreating)
                   BucketConditionError)
                (cond BucketConditionReady ConditionTrue ''Ready'' ''Bucket is ready''
                   (om_generation (b_meta bucket))))
             BucketConditionReady bucket);
        case err of
          Some e \<Rightarrow> ret (Returns (no_requeue, Some e))
        | None \<Rightarrow> do {
            rec_Eventf X (AnyBucket bucket) ''BucketReady'' ''Bucket %s is ready'' [b_name bucket];
            ret (Returns (no_requeue, None)) } }
      else ret (Returns (no_requeue, None)))"

text \<open>Lines 137 to 173: the bucket has its finalizer, its defaults and its first condition.\<close>

definition bucket_converge :: "'w env \<Rightarrow> bucket \<Rightarrow> ('w, (ctrl_result \<times> go_err option) go) handler" where
  "bucket_converge X bucket = do {
     (err, p) \<leftarrow> api_get (providers X) ProviderCall
       \<lparr>nn_name = bs_provider (b_spec bucket), nn_namespace = ''''\<rparr> zero_provider;
     case err of
       Some e \<Rightarrow>
         (if is_not_found X e then do {
            err \<leftarrow> bucket_err X bucket (Some (Errorf (''referenced bucket provider ''
                     @ bs_provider (b_spec bucket) @ '' not found''))) ErrProviderInvalid;
            ret (Returns (no_requeue, err)) }
          else ret (Returns (no_requeue, Some e)))
     | None \<Rightarrow> do {
         mc \<leftarrow> newClient X p;
         case mc of
           Inl e \<Rightarrow> do {
             err \<leftarrow> bucket_err X bucket (Some (Wrapf ''unable to create minio client'' e)) ErrProviderInvalid;
             ret (Returns (no_requeue, err)) }
         | Inr mc \<Rightarrow>
             do_step (returning (bucket_reconcileServiceAccount X bucket))
               (\<lambda>b e. bucket_err X b e BucketConditionReasonErrCreateServiceAccount) (\<lambda>bucket.
             do_step (returning (reconcileBucket X mc bucket))
               (\<lambda>b e. bucket_err X b e BucketConditionReasonErrCreateBucket) (\<lambda>bucket.
             do_step (reconcileSecret X mc bucket)
               (\<lambda>b e. bucket_err X b e BucketConditionReasonErrCreateSecret) (\<lambda>bucket.
             bucket_ready X bucket))) } }"

definition bucket_Reconcile :: "'w env \<Rightarrow> nsname \<Rightarrow> ('w, (ctrl_result \<times> go_err option) go) handler" where
  "bucket_Reconcile X req = do {
     (err, bucket) \<leftarrow> api_get (buckets X) BucketCall req zero_bucket;
     case err of
       Some e \<Rightarrow>
         (if ignore_not_found X (Some e) \<noteq> None then ret (Returns (no_requeue, Some e))
          else ret (Returns (no_requeue, None)))
     | None \<Rightarrow>
        (if \<not> is_zero (om_deletionTimestamp (b_meta bucket)) then bucket_delete_branch X bucket
         else case add_finalizer X (om_finalizers (b_meta bucket)) finalizer of (added, fs) \<Rightarrow>
           if added then update_and_return X (bucket\<lparr>b_meta := (b_meta bucket)\<lparr>om_finalizers := fs\<rparr>\<rparr>)
           else if bs_provider (b_spec bucket) = '''' then do {
             d \<leftarrow> defaultProvider X;
             case d of
               Inl e \<Rightarrow> ret (Returns (no_requeue, Some e))
             | Inr None \<Rightarrow> do {
                 err \<leftarrow> bucket_err X bucket (Some (Errorf ''no default bucket provider set'')) ErrProviderInvalid;
                 ret (Returns (no_requeue, err)) }
             | Inr (Some d) \<Rightarrow>
                 update_and_return X (bucket\<lparr>b_spec := (b_spec bucket)\<lparr>bs_provider := p_name d\<rparr>\<rparr>) }
           else if bs_secretName (b_spec bucket) = None then
             update_and_return X (bucket\<lparr>b_spec := (b_spec bucket)\<lparr>
               bs_secretName := Some (b_name bucket @ ''-bucket-credentials'')\<rparr>\<rparr>)
           else if bs_reclaimPolicy (b_spec bucket) = '''' then
             update_and_return X (bucket\<lparr>b_spec := (b_spec bucket)\<lparr>bs_reclaimPolicy := BucketReclaimRetain\<rparr>\<rparr>)
           else if b_conditions bucket = [] then do {
             t \<leftarrow> now X;
             (err, bucket) \<leftarrow> api_status_update (buckets X) BucketCall
               (b_with_status (set_condition X t (b_conditions bucket)
                   (cond BucketConditionCreating ConditionTrue ''Creating'' ''Bucket is being created''
                      (om_generation (b_meta bucket))))
                  BucketConditionCreating bucket);
             case err of
               Some e \<Rightarrow> ret (Returns (no_requeue, Some e))
             | None \<Rightarrow> do {
                 rec_Eventf X (AnyBucket bucket) ''BucketCreating'' ''Bucket %s is being created'' [b_name bucket];
                 ret (Returns (no_requeue, None)) } }
           else bucket_converge X bucket) }"

end
