(* ===== verification/BucketSteps.thy ===== *)
theory BucketSteps imports Buckets "HOL-Library.Multiset" begin

text \<open>
  The library of the bucket reconciler's proofs: what each step of
  \<^verbatim>\<open>src/controllers/bucket_controller.go\<close> can call and how it can end, as rules of the
  calculus of theory \<open>Prelude\<close>; the interpretation of the report contract; and one lemma,
  \<open>bucket_run\<close>, on the shape of every run of \<open>bucket_Reconcile\<close>.
\<close>

section \<open>Error reports\<close>

text \<open>The bucket as an error report writes it.\<close>

definition b_failed :: "'w env \<Rightarrow> int \<Rightarrow> int \<Rightarrow> bucket \<Rightarrow> go_err \<Rightarrow> string \<Rightarrow> bucket" where
  "b_failed X t t' b e reason = b_with_status
     (set_condition X t' (set_condition X t (b_conditions b)
        (cond BucketConditionReady ConditionFalse ''Ready'' ''Bucket is not ready'' (om_generation (b_meta b))))
        ((cond BucketConditionError ConditionTrue reason (Error e) (om_generation (b_meta b)))
          \<lparr>cd_lastTransitionTime := t'\<rparr>))
     BucketConditionError b"

interpretation bucket_report: error_report X "bucket_err X" b_conditions "\<lambda>b. om_generation (b_meta b)"
    "\<lambda>q. BucketCall (StatusUpdate q)" AnyBucket for X
proof unfold_locales
  fix obj reason
  show "bucket_err X obj None reason = ret None" by (simp add: bucket_err_def)
next
  fix obj e reason
  assume "condition_promise X"
  then show "tr (bucket_err X obj (Some e) reason) (\<lambda>err t. \<exists>q err2 q'.
        says_failed X (b_conditions q) reason e (om_generation (b_meta obj))
      \<and> om_generation (b_meta q) = om_generation (b_meta obj)
      \<and> (case err2 of
           None \<Rightarrow> err = Some e \<and> t = [BucketCall (StatusUpdate q) None q', EventCall (AnyBucket q') Warning ''BucketError'' (Message (Error e))]
         | Some e2 \<Rightarrow> err = combine X [Some e, Some e2] \<and> t = [BucketCall (StatusUpdate q) (Some e2) q']))"
    unfolding bucket_err_def option.case
    apply (intro tr_intros)
    subgoal for t t' _ _ err2 q'
      by (intro exI [of _ "b_failed X t t' obj e reason"] exI [of _ err2] exI [of _ q'])
        (simp add: b_failed_def b_with_status_def says_failedI title_BucketError)
    subgoal for t t' _ _ err2 q'
      by (intro exI [of _ "b_failed X t t' obj e reason"] exI [of _ err2] exI [of _ q'])
        (simp add: b_failed_def b_with_status_def says_failedI)
    done
qed

section \<open>What the steps do\<close>

lemma force_meta:
  assumes "ForceControllerReference X owner m = Inr m'"
  shows "\<exists>refs. m' = m\<lparr>om_ownerReferences := refs\<rparr>"
  using assms by (auto simp: ForceControllerReference_def split: option.splits sum.splits)

text \<open>The account step reads or creates one account, and may update the bucket's owners.\<close>

fun account_step_call :: "bucket \<Rightarrow> call \<Rightarrow> bool" where
  "account_step_call b (AccountCall (Get k) _ _) =
     (k = \<lparr>nn_name = bs_serviceAccount (b_spec b), nn_namespace = b_namespace b\<rparr>)"
| "account_step_call b (AccountCall (Create a) _ _) = (a = account_for b)"
| "account_step_call b (BucketCall (Update q) _ _) =
     (\<exists>refs. q = b\<lparr>b_meta := (b_meta b)\<lparr>om_ownerReferences := refs\<rparr>\<rparr>)"
| "account_step_call b _ = False"

definition account_found :: "call list \<Rightarrow> bool" where
  "account_found t \<longleftrightarrow> (\<exists>k a. AccountCall (Get k) None a \<in> set t) \<or> (\<exists>q a. AccountCall (Create q) None a \<in> set t)"

lemma tr_get_or_create_account [tr_intros]:
  assumes "\<And>a t. list_all (account_step_call b) t \<Longrightarrow> account_found t \<Longrightarrow> Q (Inr a) t"
    and "\<And>e t. list_all (account_step_call b) t \<Longrightarrow> Q (Inl e) t"
  shows "tr (get_or_create_account X b) Q"
  unfolding get_or_create_account_def
  by (intro tr_intros assms) (auto simp: account_found_def)

lemma tr_account_step [tr_intros]:
  assumes "\<And>t. list_all (account_step_call b) t \<Longrightarrow> account_found t \<Longrightarrow> Q (proceed b) t"
    and "\<And>e t. list_all (account_step_call b) t \<Longrightarrow>
      (e = None \<Longrightarrow> \<exists>q q'. BucketCall (Update q) None q' \<in> set t) \<Longrightarrow> Q (stop e b) t"
  shows "tr (bucket_reconcileServiceAccount X b) Q"
  unfolding bucket_reconcileServiceAccount_def
  by (intro tr_intros) (auto intro!: assms dest!: force_meta, blast)

text \<open>The bucket step, on every branch.\<close>

definition with_endpoint :: "'w env \<Rightarrow> mc_client \<Rightarrow> bucket \<Rightarrow> bucket" where
  "with_endpoint X mc b = b\<lparr>b_status := (b_status b)\<lparr>bst_endpoint := Some (Endpoint X mc)\<rparr>\<rparr>"

lemma tr_reconcileBucket [tr_intros]:
  fixes b mc
  defines "exists \<equiv> \<lambda>ok e. MinioCall (Client mc) (BucketExists (b_name b)) (Exists ok e)"
    and "made \<equiv> \<lambda>e. MinioCall (Client mc) (MakeBucket (b_name b)) (Done e)"
  assumes there: "\<And>ep. bst_endpoint (b_status b) = Some ep \<Longrightarrow> Q (proceed b) [exists True None]"
    and conflict: "\<And>ev. bst_endpoint (b_status b) = None \<Longrightarrow>
      Q (stop (Some (Errorf ''conflict: bucket already exists'')) b) [exists True None, EventCall (AnyBucket b) Warning ''BucketExists'' ev]"
    and unknown: "\<And>ok e. Q (stop (Some (Wrapf ''unable to check if bucket exists'' e)) b) [exists ok (Some e)]"
    and failed: "\<And>e. Q (stop (Some (Wrapf ''unable to create bucket'' e)) b) [exists False None, made (Some e)]"
    and created: "\<And>b' ev args. Q (stop None b') [exists False None, made None,
      BucketCall (StatusUpdate (with_endpoint X mc b)) None b', EventCall (AnyBucket b') Normal ''BucketCreated'' (Format ev args)]"
    and undone: "\<And>e e2 b'. Q (stop (combine X [Some (Wrapf ''unable to update bucket status'' e), e2]) b')
      [exists False None, made None, BucketCall (StatusUpdate (with_endpoint X mc b)) (Some e) b',
       MinioCall (Client mc) (RemoveBucket (b_name b')) (Done e2)]"
  shows "tr (reconcileBucket X mc b) Q"
proof -
  have titles: "title ''BucketExists'' = ''BucketExists''" "title ''BucketCreated'' = ''BucketCreated''"
    by code_simp+
  show ?thesis
    unfolding reconcileBucket_def with_endpoint_def [symmetric]
    by (intro tr_intros) (use assms in \<open>auto simp: titles\<close>)
qed

section \<open>What the secret step writes\<close>

text \<open>A secret with the access to the bucket, built from the credentials \<open>as\<close>.\<close>

definition carries_access :: "'w env \<Rightarrow> mc_client \<Rightarrow> bucket \<Rightarrow> secret \<Rightarrow> secret \<Rightarrow> bool" where
  "carries_access X mc b as s \<longleftrightarrow> sec_type s = BucketAccessSecretType
     \<and> om_labels (sec_meta s) = om_labels (b_meta b)
     \<and> render X (access_of X mc b as) (bs_secretTemplate (b_spec b)) (access_data X mc b as) = Inr (sec_data s)"

lemma build_secret_carries:
  "build_secret X mc b secret as = Inr s2 \<Longrightarrow>
     carries_access X mc b as (s2\<lparr>sec_meta := (sec_meta s2)\<lparr>om_ownerReferences := refs\<rparr>\<rparr>)"
  by (auto simp: build_secret_def carries_access_def split: sum.splits)

fun secret_step_call :: "'w env \<Rightarrow> mc_client \<Rightarrow> bucket \<Rightarrow> call \<Rightarrow> bool" where
  "secret_step_call X mc b (SecretCall (Get k) _ _) = (nn_namespace k = b_namespace b)"
| "secret_step_call X mc b (SecretCall (Delete _) _ _) = True"
| "secret_step_call X mc b (SecretCall (Create s) _ _) = (\<exists>as. carries_access X mc b as s)"
| "secret_step_call X mc b (SecretCall (Update s) _ _) = (\<exists>as. carries_access X mc b as s)"
| "secret_step_call X mc b (BucketCall (StatusUpdate q) _ _) =
     (\<exists>n. q = b\<lparr>b_status := (b_status b)\<lparr>bst_secretName := Some n\<rparr>\<rparr>)"
| "secret_step_call X mc b (MinioCall c (DeleteServiceAccount u) _) = (c = AdminClient mc \<and> u = name (b_name b))"
| "secret_step_call X mc b (EventCall _ _ _ _) = True"
| "secret_step_call X mc b _ = False"

text \<open>The secret was written, or it was equal to what was to be written; the bucket it leaves.\<close>

definition secret_done :: "'w env \<Rightarrow> bucket \<Rightarrow> bucket \<Rightarrow> call list \<Rightarrow> bool" where
  "secret_done X b b' t \<longleftrightarrow>
     (\<exists>s s2. semantic_equal X (SecretValue s) (SecretPtr s2) \<and> b' = b)
   \<or> (\<exists>s s'. SecretCall (Update s) None s' \<in> set t \<and> b' = b)
   \<or> (\<exists>s s' q. SecretCall (Create s) None s' \<in> set t \<and> BucketCall (StatusUpdate q) None b' \<in> set t)"

lemma secret_doneI:
  "semantic_equal X (SecretValue s) (SecretPtr s2) \<Longrightarrow> secret_done X b b t"
  "SecretCall (Update s) None s' \<in> set t \<Longrightarrow> secret_done X b b t"
  "SecretCall (Create s) None s' \<in> set t \<Longrightarrow> BucketCall (StatusUpdate q) None b' \<in> set t \<Longrightarrow> secret_done X b b' t"
  by (auto simp: secret_done_def)

definition account_secret_key :: "bucket \<Rightarrow> nsname" where
  "account_secret_key b = \<lparr>nn_name = bs_serviceAccount (b_spec b) @ ''-sa'', nn_namespace = b_namespace b\<rparr>"

lemma account_secret_key_namespace [simp]: "nn_namespace (account_secret_key b) = b_namespace b"
  by (simp add: account_secret_key_def)

definition writes_secret :: "call list \<Rightarrow> secret \<Rightarrow> bool" where
  "writes_secret t s \<longleftrightarrow> (\<exists>e s'. SecretCall (Create s) e s' \<in> set t \<or> SecretCall (Update s) e s' \<in> set t)"

text \<open>Every secret that is written carries the access of credentials that were read.\<close>

definition secret_sound :: "'w env \<Rightarrow> mc_client \<Rightarrow> bucket \<Rightarrow> call list \<Rightarrow> bool" where
  "secret_sound X mc b t \<longleftrightarrow> (\<forall>s. writes_secret t s \<longrightarrow>
     (\<exists>as. SecretCall (Get (account_secret_key b)) None as \<in> set t \<and> carries_access X mc b as s))"

lemma tr_delete_old_secret:
  assumes "\<And>r t. list_all (secret_step_call X mc b) t \<Longrightarrow> (\<And>s. \<not> writes_secret t s) \<Longrightarrow> Q r t"
  shows "tr (delete_old_secret X b n) Q"
  unfolding delete_old_secret_def by (intro tr_intros assms) (auto simp: writes_secret_def)

lemma tr_find_secret:
  assumes "\<And>r t. list_all (secret_step_call X mc b) t \<Longrightarrow> (\<And>s. \<not> writes_secret t s) \<Longrightarrow> Q r t"
  shows "tr (find_secret X b n) Q"
  unfolding find_secret_def by (intro tr_intros assms) (auto simp: writes_secret_def)

text \<open>A step that ends a run speaks up: it has an error, or it asks to be called again.\<close>

definition speaks_up :: "'w env \<Rightarrow> ctrl_result \<Rightarrow> go_err option \<Rightarrow> bool" where
  "speaks_up X re e \<longleftrightarrow> (combine_promise X \<longrightarrow> e \<noteq> None \<or> re \<noteq> no_requeue)"

lemma speaks_upI [simp]:
  "speaks_up X re (Some e)" "speaks_up X re (combine X (Some e # es))" "speaks_up X \<lparr>requeueAfter = second\<rparr> e'"
  by (simp_all add: speaks_up_def combine_promise_def)

lemma tr_write_secret:
  assumes "\<exists>as. carries_access X mc b as s2"
    and "\<And>b' t. list_all (secret_step_call X mc b) t \<Longrightarrow> (\<And>s. writes_secret t s \<Longrightarrow> s = s2) \<Longrightarrow>
      secret_done X b b' t \<Longrightarrow> Q (proceed b') t"
    and "\<And>e b' t. list_all (secret_step_call X mc b) t \<Longrightarrow> (\<And>s. writes_secret t s \<Longrightarrow> s = s2) \<Longrightarrow>
      speaks_up X no_requeue e \<Longrightarrow> Q (stop e b') t"
  shows "tr (write_secret X mc b update secret s2) Q"
  unfolding write_secret_def using assms(1)
  by (intro tr_intros) (auto intro!: assms(2,3) intro: secret_doneI simp: writes_secret_def)

lemma writes_secret_simps [simp]:
  "\<not> writes_secret [] s"
  "writes_secret (t @ u) s \<longleftrightarrow> writes_secret t s \<or> writes_secret u s"
  "writes_secret (c # t) s \<longleftrightarrow>
     (\<exists>e s'. c = SecretCall (Create s) e s' \<or> c = SecretCall (Update s) e s') \<or> writes_secret t s"
  by (auto simp: writes_secret_def)

lemma secret_done_mono: "secret_done X b b' u \<Longrightarrow> set u \<subseteq> set t \<Longrightarrow> secret_done X b b' t"
  by (auto simp: secret_done_def)

lemma secret_sound_quiet: "(\<And>s. \<not> writes_secret t s) \<Longrightarrow> secret_sound X mc b t"
  by (simp add: secret_sound_def)

lemma secret_sound_one:
  "carries_access X mc b as s2 \<Longrightarrow> SecretCall (Get (account_secret_key b)) None as \<in> set t \<Longrightarrow>
     (\<And>s. writes_secret t s \<Longrightarrow> s = s2) \<Longrightarrow> secret_sound X mc b t"
  by (auto simp: secret_sound_def)

lemma secret_sound_then:
  assumes "build_secret X mc b secret as = Inr s2"
    and "\<And>s. \<not> writes_secret t s" and "\<And>s. \<not> writes_secret u s"
    and "\<And>s. writes_secret v s \<Longrightarrow> s = s2\<lparr>sec_meta := (sec_meta s2)\<lparr>om_ownerReferences := refs\<rparr>\<rparr>"
  shows "secret_sound X mc b (t @ u @ SecretCall (Get (account_secret_key b)) None as # v)"
proof (rule secret_sound_one [OF build_secret_carries [OF assms(1)]])
  fix s assume "writes_secret (t @ u @ SecretCall (Get (account_secret_key b)) None as # v) s"
  then have "writes_secret v s" using assms(2,3) by (auto simp: writes_secret_def)
  then show "s = s2\<lparr>sec_meta := (sec_meta s2)\<lparr>om_ownerReferences := refs\<rparr>\<rparr>" by (rule assms(4))
qed simp

lemma secret_done_then:
  "secret_done X b b' v \<Longrightarrow> secret_done X b b' (t @ u @ c # v)"
  by (erule secret_done_mono) auto

text \<open>The step as a whole, for a bucket that has a secret name.\<close>

lemma tr_reconcileSecret:
  assumes n: "bs_secretName (b_spec b) = Some n"
    and finished: "\<And>b' t. list_all (secret_step_call X mc b) t \<Longrightarrow> secret_sound X mc b t \<Longrightarrow>
      secret_done X b b' t \<Longrightarrow> Q (Returns (proceed b')) t"
    and failed: "\<And>re e b' t. list_all (secret_step_call X mc b) t \<Longrightarrow> secret_sound X mc b t \<Longrightarrow>
      speaks_up X re e \<Longrightarrow> Q (Returns ((re, False, e), b')) t"
  shows "tr (reconcileSecret X mc b) Q"
proof -
  have key: "account_secret_key b =
      \<lparr>nn_name = bs_serviceAccount (b_spec b) @ saSecretSuffix, nn_namespace = b_namespace b\<rparr>"
    by (simp add: account_secret_key_def saSecretSuffix_def)
  show ?thesis
    unfolding reconcileSecret_def n option.case key [symmetric]
    apply (intro tr_delete_old_secret [where mc = mc and b = b] tr_find_secret [where mc = mc and b = b]
        tr_write_secret [where mc = mc] tr_intros)
    subgoal by (rule failed) (simp_all add: secret_sound_quiet)
    subgoal by (rule failed) (simp_all add: secret_sound_quiet)
    subgoal by (blast intro: build_secret_carries)
    subgoal by (rule finished) (simp_all add: secret_done_then, erule secret_sound_then, simp_all)
    subgoal by (rule failed) (simp_all, erule secret_sound_then, simp_all)
    subgoal by (rule failed) (simp_all add: secret_sound_quiet)
    subgoal by (rule failed) (simp_all add: secret_sound_quiet)
    subgoal by (rule failed) (simp_all add: secret_sound_quiet)
    done
qed

section \<open>What the deletion does\<close>

definition provider_key :: "bucket \<Rightarrow> nsname" where
  "provider_key b = \<lparr>nn_name = bs_provider (b_spec b), nn_namespace = ''''\<rparr>"

definition deleted :: "bucket \<Rightarrow> bool" where
  "deleted b \<longleftrightarrow> \<not> is_zero (om_deletionTimestamp (b_meta b))"

fun deletion_call :: "'w env \<Rightarrow> bucket \<Rightarrow> call \<Rightarrow> bool" where
  "deletion_call X b (BucketCall (StatusUpdate q) _ _) = (\<not> condition_true X (b_conditions b) BucketConditionDeleting)"
| "deletion_call X b (BucketCall (Update q) _ _) = condition_true X (b_conditions b) BucketConditionDeleting"
| "deletion_call X b (ProviderCall (Get k) _ _) = (k = provider_key b)"
| "deletion_call X b (SecretCall (Get _) _ _) = True"
| "deletion_call X b (MinioCall _ (RemoveBucketWithOptions n force) _) =
     (condition_true X (b_conditions b) BucketConditionDeleting
      \<and> bs_reclaimPolicy (b_spec b) = BucketReclaimDelete \<and> n = b_name b \<and> force)"
| "deletion_call X b (EventCall _ _ _ _) = True"
| "deletion_call X b _ = False"

text \<open>
  The MinIO side of a bucket is settled: the provider is gone, or the bucket is to be kept,
  or MinIO has removed it.
\<close>

definition released :: "'w env \<Rightarrow> bucket \<Rightarrow> call list \<Rightarrow> bool" where
  "released X b t \<longleftrightarrow>
     (\<exists>e p. ProviderCall (Get (provider_key b)) (Some e) p \<in> set t \<and> is_not_found X e)
   \<or> bs_reclaimPolicy (b_spec b) \<noteq> BucketReclaimDelete
   \<or> (\<exists>c. MinioCall c (RemoveBucketWithOptions (b_name b) True) (Done None) \<in> set t)"

lemma reads_secret_deletion_call: "reads_secret c \<Longrightarrow> deletion_call X b c"
  by (cases c rule: reads_secret.cases) auto

lemma reads_secrets_deletion_call [simp]: "list_all reads_secret t \<Longrightarrow> list_all (deletion_call X b) t"
  by (auto simp: list_all_iff reads_secret_deletion_call)

lemma tr_bucket_reconcileDeletion [tr_intros]:
  assumes "\<And>t. list_all (deletion_call X b) t \<Longrightarrow> released X b t \<Longrightarrow>
      condition_true X (b_conditions b) BucketConditionDeleting \<Longrightarrow>
      (\<And>q e q'. BucketCall (Update q) e q' \<notin> set t) \<Longrightarrow> Q (proceed b) t"
    and "\<And>e b' t. list_all (deletion_call X b) t \<Longrightarrow> (\<And>q e q'. BucketCall (Update q) e q' \<notin> set t) \<Longrightarrow> Q (stop e b') t"
  shows "tr (bucket_reconcileDeletion X b) Q"
proof -
  have quiet: "BucketCall v e q \<notin> set t" if "list_all reads_secret t" for v e q t
    using that by (auto simp: list_all_iff)
  show ?thesis
    unfolding bucket_reconcileDeletion_def
    by (intro tr_intros) (auto intro!: assms simp: released_def provider_key_def quiet)
qed

text \<open>What the whole deletion branch does, and what the update at its end sends.\<close>

lemma tr_bucket_delete_branch:
  assumes "\<And>r t. list_all (deletion_call X b) t \<Longrightarrow> (\<And>q e q'. BucketCall (Update q) e q' \<in> set t \<Longrightarrow>
      released X b t \<and> q = b\<lparr>b_meta := (b_meta b)\<lparr>
        om_finalizers := remove_finalizer X (om_finalizers (b_meta b)) finalizer\<rparr>\<rparr>) \<Longrightarrow> Q (Returns r) t"
  shows "tr (bucket_delete_branch X b) Q"
proof -
  have later: "released X b (t @ u)" if "released X b t" for t u
    using that by (auto simp: released_def)
  show ?thesis
    unfolding bucket_delete_branch_def
    apply (rule tr_bind, rule tr_bucket_reconcileDeletion)
    subgoal by (simp, intro tr_intros) (auto intro!: assms simp: later)
    subgoal by (simp, intro tr_intros) (auto intro!: assms)
    done
qed

section \<open>What a run does before and while it converges\<close>

text \<open>
  The calls of a run on a bucket that is not deleted: until the bucket is prepared (its
  finalizer, its defaults, its first condition), and while it converges.
\<close>

fun prepare_call :: "'w env \<Rightarrow> bucket \<Rightarrow> call \<Rightarrow> bool" where
  "prepare_call X b (ListProviders None _ _) = True"
| "prepare_call X b (BucketCall (Update q) _ _) =
     (b_name q = b_name b \<and> b_status q = b_status b
      \<and> om_finalizers (b_meta q) = (case add_finalizer X (om_finalizers (b_meta b)) finalizer of
          (added, fs) \<Rightarrow> if added then fs else om_finalizers (b_meta b)))"
| "prepare_call X b (BucketCall (StatusUpdate q) _ _) = (\<not> condition_true X (b_conditions q) BucketConditionReady)"
| "prepare_call X b (EventCall _ _ _ _) = True"
| "prepare_call X b _ = False"

fun converge_call :: "'w env \<Rightarrow> bucket \<Rightarrow> call \<Rightarrow> bool" where
  "converge_call X b (ProviderCall (Get k) _ _) = (k = provider_key b)"
| "converge_call X b (SecretCall _ _ _) = True"
| "converge_call X b (BucketCall (StatusUpdate q) _ _) = True"
| "converge_call X b (MinioCall _ (BucketExists n) _) = (n = b_name b)"
| "converge_call X b (MinioCall _ (MakeBucket n) _) = (n = b_name b)"
| "converge_call X b (MinioCall _ (RemoveBucket _) _) = True"
| "converge_call X b (MinioCall _ (DeleteServiceAccount u) _) = (u = name (b_name b))"
| "converge_call X b (EventCall _ _ _ _) = True"
| "converge_call X b c = account_step_call b c"

lemma failed_not_ready:
  assumes "condition_promise X" and "says_failed X cs reason e g"
  shows "\<not> condition_true X cs BucketConditionReady" and "condition_true X cs BucketConditionError"
  using assms by (auto simp: says_failed_def condition_true_iff same_condition_def)

lemma no_conditions:
  "condition_promise X \<Longrightarrow> \<not> condition_true X [] ty"
  using find_condition_None_iff [of X "[]" ty] by (simp add: condition_true_iff)

lemma finalized_iff:
  "finalizer_promise X \<Longrightarrow> add_finalizer X fs finalizer = (False, fs') \<Longrightarrow> finalizer \<in> set fs"
  by (metis fst_conv finalizer_promise_def)

text \<open>A bucket that is ready to converge.\<close>

definition prepared :: "'w env \<Rightarrow> bucket \<Rightarrow> bool" where
  "prepared X b \<longleftrightarrow> \<not> fst (add_finalizer X (om_finalizers (b_meta b)) finalizer)
     \<and> bs_provider (b_spec b) \<noteq> '''' \<and> bs_secretName (b_spec b) \<noteq> None
     \<and> bs_reclaimPolicy (b_spec b) \<noteq> '''' \<and> b_conditions b \<noteq> []"

lemma tr_bucket_Reconcile:
  assumes cp: "condition_promise X"
    and unread: "\<And>e b r. Q (Returns r) [BucketCall (Get req) (Some e) b]"
    and gone: "\<And>b. deleted b \<Longrightarrow> tr (bucket_delete_branch X b) (\<lambda>r u. Q r (BucketCall (Get req) None b # u))"
    and preparing: "\<And>b r u. \<not> deleted b \<Longrightarrow> \<not> prepared X b \<Longrightarrow> list_all (prepare_call X b) u \<Longrightarrow>
      Q (Returns r) (BucketCall (Get req) None b # u)"
    and converging: "\<And>b. \<not> deleted b \<Longrightarrow> prepared X b \<Longrightarrow>
      tr (bucket_converge X b) (\<lambda>r u. Q r (BucketCall (Get req) None b # u))"
  shows "tr (bucket_Reconcile X req) Q"
  unfolding bucket_Reconcile_def update_and_return_def deleted_def [symmetric]
  apply (intro bucket_report.tr_report [OF cp] tr_intros)
  apply (auto intro!: unread gone preparing converging simp: prepared_def failed_not_ready [OF cp] no_conditions [OF cp]
    b_with_status_def condition_simps [OF cp])
  done

lemma account_step_converges: "account_step_call b c \<Longrightarrow> converge_call X b c"
  by (cases "(b, c)" rule: account_step_call.cases) auto

lemma secret_step_converges: "secret_step_call X mc b c \<Longrightarrow> converge_call X b c"
  by (cases "(X, mc, b, c)" rule: secret_step_call.cases) auto

lemma reads_secret_converges: "reads_secret c \<Longrightarrow> converge_call X b c"
  by (cases c rule: reads_secret.cases) auto

lemmas converges = account_step_converges secret_step_converges reads_secret_converges

lemma makes_bucket_err:
  "(\<And>q e q'. F (BucketCall (StatusUpdate q) e q')) \<Longrightarrow> (\<And>o' ty r m. F (EventCall o' ty r m)) \<Longrightarrow>
     makes F (bucket_err X b e reason)"
  unfolding bucket_err_def by (auto intro!: footprint_intros)

lemma makes_bucket_ready:
  "(\<And>q e q'. F (BucketCall (StatusUpdate q) e q')) \<Longrightarrow> (\<And>o' ty r m. F (EventCall o' ty r m)) \<Longrightarrow>
     makes F (bucket_ready X b)"
  unfolding bucket_ready_def by (auto intro!: footprint_intros)

text \<open>The steps in sequence: what is left to show after each way a step can end.\<close>

lemma tr_do_account_step:
  assumes "\<And>t. list_all (account_step_call b) t \<Longrightarrow> account_found t \<Longrightarrow> tr (go_on_with b) (\<lambda>r u. Q r (t @ u))"
    and "\<And>e t. list_all (account_step_call b) t \<Longrightarrow>
      (e = None \<Longrightarrow> \<exists>q q'. BucketCall (Update q) None q' \<in> set t) \<Longrightarrow> tr (report b e) (\<lambda>e u. Q (Returns (no_requeue, e)) (t @ u))"
  shows "tr (do_step (returning (bucket_reconcileServiceAccount X b)) report go_on_with) Q"
  by (rule tr_do_step, rule tr_returning, rule tr_account_step) (simp_all add: assms)

lemma tr_do_bucket_step:
  fixes b mc
  defines "exists \<equiv> \<lambda>ok e. MinioCall (Client mc) (BucketExists (b_name b)) (Exists ok e)"
    and "made \<equiv> \<lambda>e. MinioCall (Client mc) (MakeBucket (b_name b)) (Done e)"
  assumes there: "\<And>ep. bst_endpoint (b_status b) = Some ep \<Longrightarrow>
      tr (go_on_with b) (\<lambda>r u. Q r (exists True None # u))"
    and conflict: "\<And>ev. bst_endpoint (b_status b) = None \<Longrightarrow>
      tr (report b (Some (Errorf ''conflict: bucket already exists''))) (\<lambda>e u. Q (Returns (no_requeue, e))
        (exists True None # EventCall (AnyBucket b) Warning ''BucketExists'' ev # u))"
    and unknown: "\<And>ok e. tr (report b (Some (Wrapf ''unable to check if bucket exists'' e)))
      (\<lambda>e' u. Q (Returns (no_requeue, e')) (exists ok (Some e) # u))"
    and failed: "\<And>e. tr (report b (Some (Wrapf ''unable to create bucket'' e)))
      (\<lambda>e' u. Q (Returns (no_requeue, e')) (exists False None # made (Some e) # u))"
    and created: "\<And>b' ev args. tr (report b' None) (\<lambda>e u. Q (Returns (no_requeue, e)) (exists False None # made None #
      BucketCall (StatusUpdate (with_endpoint X mc b)) None b' #
      EventCall (AnyBucket b') Normal ''BucketCreated'' (Format ev args) # u))"
    and undone: "\<And>e e2 b'. tr (report b' (combine X [Some (Wrapf ''unable to update bucket status'' e), e2]))
      (\<lambda>e' u. Q (Returns (no_requeue, e')) (exists False None # made None #
       BucketCall (StatusUpdate (with_endpoint X mc b)) (Some e) b' #
       MinioCall (Client mc) (RemoveBucket (b_name b')) (Done e2) # u))"
  shows "tr (do_step (returning (reconcileBucket X mc b)) report go_on_with) Q"
  by (rule tr_do_step, rule tr_returning, rule tr_reconcileBucket)
    (use assms in \<open>simp_all\<close>)

lemma tr_do_secret_step:
  assumes n: "bs_secretName (b_spec b) = Some n"
    and "\<And>b' t. list_all (secret_step_call X mc b) t \<Longrightarrow> secret_sound X mc b t \<Longrightarrow>
      secret_done X b b' t \<Longrightarrow> tr (go_on_with b') (\<lambda>r u. Q r (t @ u))"
    and "\<And>re e b' t. list_all (secret_step_call X mc b) t \<Longrightarrow> secret_sound X mc b t \<Longrightarrow>
      speaks_up X re e \<Longrightarrow> tr (report b' e) (\<lambda>e u. Q (Returns (re, e)) (t @ u))"
  shows "tr (do_step (reconcileSecret X mc b) report go_on_with) Q"
  by (rule tr_do_step, rule tr_reconcileSecret [OF n]) (simp_all add: assms)

lemma step_calls_converge [simp]:
  "list_all (account_step_call b) t \<Longrightarrow> list_all (converge_call X b) t"
  "list_all (secret_step_call X mc b) t \<Longrightarrow> list_all (converge_call X b) t"
  "list_all reads_secret t \<Longrightarrow> list_all (converge_call X b) t"
  by (auto simp: list_all_iff converges)

lemma bucket_converge_calls:
  assumes cp: "condition_promise X" and n: "bs_secretName (b_spec b) = Some n"
  shows "tr (bucket_converge X b) (\<lambda>r t. returned r \<and> list_all (converge_call X b) t)"
  unfolding bucket_converge_def provider_key_def [symmetric] bucket_ready_def
  by (intro tr_do_account_step tr_do_bucket_step tr_do_secret_step [OF n] bucket_report.tr_report [OF cp] tr_intros)
    auto

section \<open>The shape of a run\<close>

definition bucket_run_shape :: "'w env \<Rightarrow> nsname \<Rightarrow> call list \<Rightarrow> bool" where
  "bucket_run_shape X req t \<longleftrightarrow> (\<exists>e b u. t = BucketCall (Get req) e b # u \<and> (e \<noteq> None \<longrightarrow> u = [])
     \<and> (e = None \<and> deleted b \<longrightarrow> list_all (deletion_call X b) u
        \<and> (\<forall>q e q'. BucketCall (Update q) e q' \<in> set u \<longrightarrow> released X b u
           \<and> q = b\<lparr>b_meta := (b_meta b)\<lparr>om_finalizers :=
                 remove_finalizer X (om_finalizers (b_meta b)) finalizer\<rparr>\<rparr>))
     \<and> (e = None \<and> \<not> deleted b \<and> \<not> prepared X b \<longrightarrow> list_all (prepare_call X b) u)
     \<and> (e = None \<and> \<not> deleted b \<and> prepared X b \<longrightarrow> list_all (converge_call X b) u))"

lemma bucket_run:
  assumes "condition_promise X"
  shows "tr (bucket_Reconcile X req) (\<lambda>r t. returned r \<and> bucket_run_shape X req t)"
proof (rule tr_bucket_Reconcile [OF assms])
  fix b assume "deleted b"
  then show "tr (bucket_delete_branch X b) (\<lambda>r u. returned r \<and> bucket_run_shape X req (BucketCall (Get req) None b # u))"
    by (intro tr_bucket_delete_branch) (auto simp: bucket_run_shape_def)
next
  fix b assume b: "\<not> deleted b" "prepared X b"
  then obtain n where "bs_secretName (b_spec b) = Some n" by (auto simp: prepared_def)
  from bucket_converge_calls [OF assms this]
  show "tr (bucket_converge X b) (\<lambda>r u. returned r \<and> bucket_run_shape X req (BucketCall (Get req) None b # u))"
    by (rule tr_mono) (use b in \<open>simp add: bucket_run_shape_def\<close>)
qed (simp_all add: bucket_run_shape_def)

lemma account_step_quiet [simp]:
  assumes "list_all (account_step_call b) t"
  shows "MinioCall c r a \<notin> set t" "BucketCall (StatusUpdate q) e q' \<notin> set t" "SecretCall v e' s \<notin> set t"
  using assms by (auto simp: list_all_iff)

lemma reads_secret_quiet [simp]:
  assumes "list_all reads_secret t"
  shows "MinioCall c r a \<notin> set t" "BucketCall v e q \<notin> set t" "\<not> writes_secret t s"
  using assms by (auto simp: list_all_iff writes_secret_def)

lemma secret_step_quiet [simp]:
  assumes "list_all (secret_step_call X mc b) t"
  shows "MinioCall c (MakeBucket n) a \<notin> set t" "MinioCall c (RemoveBucket n) a \<notin> set t"
    "MinioCall c (BucketExists n) a \<notin> set t"
  using assms by (auto simp: list_all_iff)

section \<open>Orders of calls\<close>

text \<open>A MinIO bucket is made right after its absence was seen, and only such a bucket is taken back.\<close>

definition rolled_back :: "bucket \<Rightarrow> sdk_client \<Rightarrow> string \<Rightarrow> minio_answer \<Rightarrow> call list \<Rightarrow> bool" where
  "rolled_back b c n a t \<longleftrightarrow> (\<exists>ep e q' u v.
     t = u @ [MinioCall c (MakeBucket (b_name b)) (Done None),
       BucketCall (StatusUpdate (b\<lparr>b_status := (b_status b)\<lparr>bst_endpoint := Some ep\<rparr>\<rparr>)) (Some e) q',
       MinioCall c (RemoveBucket (b_name q')) a] @ v \<and> n = b_name q')"

lemma rolled_backI [simp]:
  "rolled_back b c (b_name q') a (p # t @ u @ x # MinioCall c (MakeBucket (b_name b)) (Done None)
     # BucketCall (StatusUpdate (b\<lparr>b_status := (b_status b)\<lparr>bst_endpoint := Some ep\<rparr>\<rparr>)) (Some e) q'
     # MinioCall c (RemoveBucket (b_name q')) a # v)"
  unfolding rolled_back_def
  by (rule exI [of _ ep], rule exI [of _ e], rule exI [of _ q'], rule exI [of _ "p # t @ u @ [x]"], rule exI [of _ v]) simp

definition creation_sound :: "bucket \<Rightarrow> call list \<Rightarrow> bool" where
  "creation_sound b t \<longleftrightarrow>
     (\<forall>c n a. MinioCall c (MakeBucket n) a \<in> set t \<longrightarrow> n = b_name b
        \<and> sublist [MinioCall c (BucketExists n) (Exists False None), MinioCall c (MakeBucket n) a] t)
   \<and> (\<forall>c n a. MinioCall c (RemoveBucket n) a \<in> set t \<longrightarrow> rolled_back b c n a t)"

lemma converge_creation:
  assumes cp: "condition_promise X" and n: "bs_secretName (b_spec b) = Some n"
  shows "tr (bucket_converge X b) (\<lambda>_. creation_sound b)"
  unfolding bucket_converge_def bucket_ready_def
  by (intro tr_do_account_step tr_do_bucket_step tr_do_secret_step [OF n] bucket_report.tr_report [OF cp] tr_intros)
    (auto simp: creation_sound_def sublist_Cons_right with_endpoint_def intro!: sublist_later)

text \<open>A bucket that was there before is not adopted.\<close>

definition conflict_refused :: "'w env \<Rightarrow> bucket \<Rightarrow> (ctrl_result \<times> go_err option) go \<Rightarrow> call list \<Rightarrow> bool" where
  "conflict_refused X b r t \<longleftrightarrow>
     (bst_endpoint (b_status b) = None \<and> (\<exists>c n. MinioCall c (BucketExists n) (Exists True None) \<in> set t) \<longrightarrow>
        (\<exists>re e. r = Returns (re, Some e))
      \<and> (\<forall>s. \<not> writes_secret t s)
      \<and> (\<forall>c r a. MinioCall c r a \<in> set t \<longrightarrow> r = BucketExists (b_name b))
      \<and> (\<exists>q e q'. BucketCall (StatusUpdate q) e q' \<in> set t
           \<and> says_failed X (b_conditions q) BucketConditionReasonErrCreateBucket
                (Errorf ''conflict: bucket already exists'') (om_generation (b_meta b))))"

lemma converge_conflict:
  assumes cp: "condition_promise X" and "combine_promise X" and n: "bs_secretName (b_spec b) = Some n"
  shows "tr (bucket_converge X b) (conflict_refused X b)"
proof -
  have some: "\<exists>y. combine X [Some e, e'] = Some y" for e e'
    using combine_Some [OF assms(2)] by blast
  have w: "\<not> writes_secret t s" if "list_all (account_step_call b) t" for t s
    using that by (auto simp: writes_secret_def)
  show ?thesis
  unfolding bucket_converge_def bucket_ready_def
  apply (intro tr_do_account_step tr_do_bucket_step tr_do_secret_step [OF n] bucket_report.tr_report [OF cp] tr_intros)
  apply (auto simp: conflict_refused_def some w)
  done
qed

text \<open>
  Everything a Bucket needs is in place: its account was read or created, its MinIO bucket
  was there and is its own (its status has an endpoint), and its secret was written.
\<close>

definition in_place :: "'w env \<Rightarrow> bucket \<Rightarrow> call list \<Rightarrow> bool" where
  "in_place X b t \<longleftrightarrow> account_found t \<and> bst_endpoint (b_status b) \<noteq> None
     \<and> (\<exists>c. MinioCall c (BucketExists (b_name b)) (Exists True None) \<in> set t)
     \<and> (semantic_promise X \<longrightarrow> (\<exists>s s'. SecretCall (Create s) None s' \<in> set t \<or> SecretCall (Update s) None s' \<in> set t))"

lemma secret_done_written:
  "secret_done X b b' t \<Longrightarrow> semantic_promise X \<Longrightarrow>
     \<exists>s s'. SecretCall (Create s) None s' \<in> set t \<or> SecretCall (Update s) None s' \<in> set t"
  using semantic_secret_pointer by (force simp: secret_done_def)

lemma account_found_append [simp]:
  "account_found t \<Longrightarrow> account_found (t @ u)" "account_found u \<Longrightarrow> account_found (t @ u)"
  "account_found t \<Longrightarrow> account_found (c # t)"
  by (auto simp: account_found_def)

lemma in_placeI:
  assumes "account_found ta" and "bst_endpoint (b_status b) = Some ep" and "secret_done X b b' ts"
  shows "in_place X b (p # t @ ta @ MinioCall c (BucketExists (b_name b)) (Exists True None) # ts @ v)"
  using assms secret_done_written [OF assms(3)] by (fastforce simp: in_place_def)

lemmas in_placeIs = in_placeI in_placeI [where v = "[]", simplified append_Nil2]

lemma secret_step_conditions:
  "list_all (secret_step_call X mc b) t \<Longrightarrow> BucketCall (StatusUpdate q) e q' \<in> set t \<Longrightarrow> b_conditions q = b_conditions b"
  by (fastforce simp: list_all_iff)

definition ready_sound :: "'w env \<Rightarrow> bucket \<Rightarrow> call list \<Rightarrow> bool" where
  "ready_sound X b t \<longleftrightarrow> (\<forall>q e q'. BucketCall (StatusUpdate q) e q' \<in> set t
       \<and> condition_true X (b_conditions q) BucketConditionReady
       \<and> \<not> condition_true X (b_conditions b) BucketConditionReady \<longrightarrow>
     in_place X b t \<and> bst_phase (b_status q) = BucketConditionReady
     \<and> find_condition X (b_conditions q) BucketConditionError = None
     \<and> find_condition X (b_conditions q) BucketConditionCreating = None)"

lemma converge_ready:
  assumes cp: "condition_promise X" and n: "bs_secretName (b_spec b) = Some n"
  shows "tr (bucket_converge X b) (\<lambda>_. ready_sound X b)"
proof -
  have keep: "b_conditions (with_endpoint X mc b) = b_conditions b" for mc
    by (simp add: with_endpoint_def)
  show ?thesis
  unfolding bucket_converge_def bucket_ready_def
  by (intro tr_do_account_step tr_do_bucket_step tr_do_secret_step [OF n] bucket_report.tr_report [OF cp] tr_intros)
    (auto simp: ready_sound_def keep failed_not_ready [OF cp] secret_step_conditions b_with_status_def
     condition_simps [OF cp] intro: in_placeIs)
qed

text \<open>A run that returns neither an error nor a delay.\<close>

lemma converge_success:
  assumes cp: "condition_promise X" and mp: "combine_promise X" and n: "bs_secretName (b_spec b) = Some n"
  shows "tr (bucket_converge X b) (\<lambda>r t. r = Returns (no_requeue, None) \<longrightarrow>
     (\<exists>q q'. BucketCall (Update q) None q' \<in> set t)
   \<or> (\<exists>c q'. MinioCall c (MakeBucket (b_name b)) (Done None) \<in> set t \<and> (\<exists>q. BucketCall (StatusUpdate q) None q' \<in> set t
          \<and> bst_endpoint (b_status q) \<noteq> None))
   \<or> in_place X b t)"
proof -
  have some: "combine X (Some e # es) = None \<longleftrightarrow> False" for e es
    using combine_not_None [OF mp] by blast
  have ep: "bst_endpoint (b_status (with_endpoint X mc b)) \<noteq> None" for mc
    by (simp add: with_endpoint_def)
  show ?thesis
  unfolding bucket_converge_def bucket_ready_def
  by (intro tr_do_account_step tr_do_bucket_step tr_do_secret_step [OF n] bucket_report.tr_report [OF cp] tr_intros)
    (auto simp: some speaks_up_def mp ep intro: in_placeIs)
qed

section \<open>What a secret contains\<close>

text \<open>The entry \<open>v\<close> of a template renders the access \<open>a\<close>.\<close>

definition renders :: "'w env \<Rightarrow> bucket_access \<Rightarrow> string \<Rightarrow> bool" where
  "renders X a v \<longleftrightarrow> template_parse X v = None \<and> \<not> isl (template_execute X v a)"

definition rendered :: "'w env \<Rightarrow> bucket_access \<Rightarrow> (string \<times> string) list \<Rightarrow> (string \<rightharpoonup> string)" where
  "rendered X a m k = (case map_of m k of None \<Rightarrow> None | Some v \<Rightarrow> Some (projr (template_execute X v a)))"

lemma render_iff:
  assumes "distinct (map fst m)"
  shows "render X a m d = Inr data \<longleftrightarrow> (\<forall>(k, v) \<in> set m. renders X a v) \<and> data = d ++ rendered X a m"
  using assms
proof (induction m arbitrary: d)
  case Nil
  then show ?case by (auto simp: rendered_def map_add_def)
next
  case (Cons p m)
  obtain k v where p: "p = (k, v)" by (cases p)
  have absent: "map_of m k = None" using Cons.prems p by (simp add: map_of_eq_None_iff)
  have step: "d(k \<mapsto> buf) ++ rendered X a m = d ++ rendered X a ((k, v) # m)"
    if "template_execute X v a = Inr buf" for buf
    using absent that by (auto simp: rendered_def map_add_def fun_eq_iff split: option.splits)
  show ?case
  proof (cases "template_parse X v")
    case None
    then show ?thesis
    proof (cases "template_execute X v a")
      case (Inr buf)
      then show ?thesis using None Cons step [OF Inr] by (simp add: p renders_def)
    qed (simp add: p renders_def)
  qed (simp add: p renders_def)
qed

lemma render_order:
  assumes "distinct (map fst m)" and "mset m' = mset m"
  shows "render X a m' d = Inr data \<longleftrightarrow> render X a m d = Inr data"
proof -
  have d: "distinct (map fst m')"
    using mset_eq_imp_distinct_iff [of "map fst m'" "map fst m"] assms by simp
  have "set m' = set m" using assms(2) by (metis set_mset_mset)
  moreover have "map_of m' = map_of m"
    using map_of_inject_set [OF d assms(1)] calculation by blast
  ultimately show ?thesis
    unfolding render_iff [OF assms(1)] render_iff [OF d] by (simp add: rendered_def [abs_def])
qed

lemma build_secret_iff:
  "build_secret X mc b secret as = Inr s2 \<longleftrightarrow> (\<exists>data.
     render X (access_of X mc b as) (bs_secretTemplate (b_spec b)) (access_data X mc b as) = Inr data
   \<and> s2 = secret\<lparr>sec_type := BucketAccessSecretType,
          sec_meta := (sec_meta secret)\<lparr>om_labels := om_labels (b_meta b)\<rparr>, sec_data := data\<rparr>)"
  by (auto simp: build_secret_def split: sum.splits)

lemma converge_secrets:
  assumes cp: "condition_promise X" and n: "bs_secretName (b_spec b) = Some n"
  shows "tr (bucket_converge X b) (\<lambda>_ t. \<forall>s. writes_secret t s \<longrightarrow>
     (\<exists>mc as. SecretCall (Get (account_secret_key b)) None as \<in> set t
        \<and> MinioCall (Client mc) (BucketExists (b_name b)) (Exists True None) \<in> set t
        \<and> carries_access X mc b as s))"
proof -
  have w: "\<not> writes_secret t s" if "list_all (account_step_call b) t" for t s
    using that by (auto simp: writes_secret_def)
  show ?thesis
    unfolding bucket_converge_def bucket_ready_def
    by (intro tr_do_account_step tr_do_bucket_step tr_do_secret_step [OF n] bucket_report.tr_report [OF cp] tr_intros)
      (auto simp: w, auto simp: secret_sound_def, blast+)
qed

lemma carries_access_data:
  assumes "carries_access X mc b as s" and "distinct (map fst (bs_secretTemplate (b_spec b)))"
    and "set reserved_keys \<inter> fst ` set (bs_secretTemplate (b_spec b)) = {}"
  shows "sec_data s = access_data X mc b as ++ rendered X (access_of X mc b as) (bs_secretTemplate (b_spec b))"
    and "k \<in> set reserved_keys \<Longrightarrow> sec_data s k = access_data X mc b as k"
    and "(k, v) \<in> set (bs_secretTemplate (b_spec b)) \<Longrightarrow>
       \<exists>buf. template_execute X v (access_of X mc b as) = Inr buf \<and> sec_data s k = Some buf"
proof -
  let ?m = "bs_secretTemplate (b_spec b)" and ?a = "access_of X mc b as"
  have r: "\<forall>(k, v) \<in> set ?m. renders X ?a v" and d: "sec_data s = access_data X mc b as ++ rendered X ?a ?m"
    using assms(1) by (simp_all add: carries_access_def render_iff [OF assms(2)])
  show "sec_data s = access_data X mc b as ++ rendered X ?a ?m" by (fact d)
  show "sec_data s k = access_data X mc b as k" if "k \<in> set reserved_keys"
  proof -
    have "map_of ?m k = None" using that assms(3) by (auto simp: map_of_eq_None_iff)
    then show ?thesis by (simp add: d rendered_def map_add_def)
  qed
  show "\<exists>buf. template_execute X v ?a = Inr buf \<and> sec_data s k = Some buf" if "(k, v) \<in> set ?m"
  proof -
    have "map_of ?m k = Some v" using that assms(2) by (simp add: map_of_is_SomeI)
    moreover have "renders X ?a v" using r that by blast
    then obtain buf where "template_execute X v ?a = Inr buf"
      by (cases "template_execute X v ?a") (simp_all add: renders_def)
    ultimately show ?thesis by (simp add: d rendered_def map_add_def)
  qed
qed

lemma dom_access_data: "dom (access_data X mc b as) = set reserved_keys"
  by (auto simp: access_data_def reserved_keys_def)

lemma access_values:
  "access_data X mc b as MinioBucket = Some (b_name b)"
  "access_data X mc b as MinioAccessKey = Some (data_of as MinioAccessKey)"
  "access_data X mc b as MinioSecretKey = Some (data_of as MinioSecretKey)"
  "access_data X mc b as MinioEndpoint = Some (Endpoint X mc)"
  "access_data X mc b as MinioSecure = Some (if Secure X mc then ''true'' else ''false'')"
  by (simp_all add: access_data_def format_bool_def)

lemma dom_rendered: "dom (rendered X a m) = fst ` set m"
proof -
  have "rendered X a m = map_option (\<lambda>v. projr (template_execute X v a)) \<circ> map_of m"
    by (simp add: fun_eq_iff rendered_def split: option.splits)
  then show ?thesis by (simp add: dom_map_option_comp dom_map_of_conv_image_fst)
qed

lemma carries_secret_data:
  assumes "carries_access X mc b as sec"
  shows "distinct (map fst (bs_secretTemplate (b_spec b))) \<and> template_ok X (bs_secretTemplate (b_spec b)) \<longrightarrow>
          sec_data sec MinioBucket = Some (b_name b)
        \<and> sec_data sec MinioAccessKey = Some (data_of as MinioAccessKey)
        \<and> sec_data sec MinioSecretKey = Some (data_of as MinioSecretKey)
        \<and> sec_data sec MinioEndpoint = Some (Endpoint X mc)
        \<and> sec_data sec MinioSecure = Some (if Secure X mc then ''true'' else ''false'')
        \<and> (\<forall>(k, v) \<in> set (bs_secretTemplate (b_spec b)). \<exists>buf.
             template_execute X v (access_of X mc b as) = Inr buf \<and> sec_data sec k = Some buf)
        \<and> dom (sec_data sec) = set reserved_keys \<union> fst ` set (bs_secretTemplate (b_spec b))"
proof (intro impI)
  assume a: "distinct (map fst (bs_secretTemplate (b_spec b))) \<and> template_ok X (bs_secretTemplate (b_spec b))"
  then have d: "distinct (map fst (bs_secretTemplate (b_spec b)))"
    and r: "set reserved_keys \<inter> fst ` set (bs_secretTemplate (b_spec b)) = {}"
    by (simp_all add: template_ok_def)
  note data = carries_access_data [OF assms d r]
  have "dom (sec_data sec) = set reserved_keys \<union> fst ` set (bs_secretTemplate (b_spec b))"
    unfolding data(1) dom_map_add dom_access_data dom_rendered by auto
  moreover have "MinioBucket \<in> set reserved_keys" "MinioAccessKey \<in> set reserved_keys"
    "MinioSecretKey \<in> set reserved_keys" "MinioEndpoint \<in> set reserved_keys" "MinioSecure \<in> set reserved_keys"
    by (simp_all add: reserved_keys_def)
  note vals = this [THEN data(2)]
  moreover have "\<forall>(k, v) \<in> set (bs_secretTemplate (b_spec b)). \<exists>buf.
      template_execute X v (access_of X mc b as) = Inr buf \<and> sec_data sec k = Some buf"
    using data(3) by blast
  ultimately show "sec_data sec MinioBucket = Some (b_name b)
        \<and> sec_data sec MinioAccessKey = Some (data_of as MinioAccessKey)
        \<and> sec_data sec MinioSecretKey = Some (data_of as MinioSecretKey)
        \<and> sec_data sec MinioEndpoint = Some (Endpoint X mc)
        \<and> sec_data sec MinioSecure = Some (if Secure X mc then ''true'' else ''false'')
        \<and> (\<forall>(k, v) \<in> set (bs_secretTemplate (b_spec b)). \<exists>buf.
             template_execute X v (access_of X mc b as) = Inr buf \<and> sec_data sec k = Some buf)
        \<and> dom (sec_data sec) = set reserved_keys \<union> fst ` set (bs_secretTemplate (b_spec b))"
    unfolding vals access_values by blast
qed

lemma rolled_back_Cons: "rolled_back b c n a t \<Longrightarrow> rolled_back b c n a (x # t)"
  unfolding rolled_back_def by (metis append_Cons)

section \<open>Reading facts off the shape of a run\<close>

lemma bucket_run_obtain:
  assumes "condition_promise X"
  obtains e b u where "calls (bucket_Reconcile X req) s = BucketCall (Get req) e b # u"
    and "e \<noteq> None \<Longrightarrow> u = []"
    and "deleted b \<Longrightarrow> e = None \<Longrightarrow> list_all (deletion_call X b) u"
    and "\<And>q e' q'. deleted b \<Longrightarrow> e = None \<Longrightarrow> BucketCall (Update q) e' q' \<in> set u \<Longrightarrow> released X b u
           \<and> q = b\<lparr>b_meta := (b_meta b)\<lparr>om_finalizers :=
                 remove_finalizer X (om_finalizers (b_meta b)) finalizer\<rparr>\<rparr>"
    and "\<not> deleted b \<Longrightarrow> e = None \<Longrightarrow> \<not> prepared X b \<Longrightarrow> list_all (prepare_call X b) u"
    and "\<not> deleted b \<Longrightarrow> e = None \<Longrightarrow> prepared X b \<Longrightarrow> list_all (converge_call X b) u"
  using trD [OF bucket_run [OF assms], of req s] unfolding bucket_run_shape_def by blast

lemma bucket_run_call:
  assumes "condition_promise X" and "c \<in> set (calls (bucket_Reconcile X req) s)"
    and "\<And>e b. c \<noteq> BucketCall (Get req) e b"
  obtains b u where "calls (bucket_Reconcile X req) s = BucketCall (Get req) None b # u" and "c \<in> set u"
    and "deleted b \<Longrightarrow> list_all (deletion_call X b) u"
    and "\<And>q e' q'. deleted b \<Longrightarrow> BucketCall (Update q) e' q' \<in> set u \<Longrightarrow> released X b u
           \<and> q = b\<lparr>b_meta := (b_meta b)\<lparr>om_finalizers :=
                 remove_finalizer X (om_finalizers (b_meta b)) finalizer\<rparr>\<rparr>"
    and "\<not> deleted b \<Longrightarrow> \<not> prepared X b \<Longrightarrow> list_all (prepare_call X b) u"
    and "\<not> deleted b \<Longrightarrow> prepared X b \<Longrightarrow> list_all (converge_call X b) u"
proof (rule bucket_run_obtain [OF assms(1), of req s])
  fix e b u
  assume a: "calls (bucket_Reconcile X req) s = BucketCall (Get req) e b # u" "e \<noteq> None \<Longrightarrow> u = []"
    "deleted b \<Longrightarrow> e = None \<Longrightarrow> list_all (deletion_call X b) u"
    "\<And>q e' q'. deleted b \<Longrightarrow> e = None \<Longrightarrow> BucketCall (Update q) e' q' \<in> set u \<Longrightarrow> released X b u
           \<and> q = b\<lparr>b_meta := (b_meta b)\<lparr>om_finalizers :=
                 remove_finalizer X (om_finalizers (b_meta b)) finalizer\<rparr>\<rparr>"
    "\<not> deleted b \<Longrightarrow> e = None \<Longrightarrow> \<not> prepared X b \<Longrightarrow> list_all (prepare_call X b) u"
    "\<not> deleted b \<Longrightarrow> e = None \<Longrightarrow> prepared X b \<Longrightarrow> list_all (converge_call X b) u"
  have "c \<in> set u" using assms(2,3) a(1) by auto
  moreover have "e = None"
  proof (rule ccontr)
    assume "e \<noteq> None"
    then show False using a(2) \<open>c \<in> set u\<close> by simp
  qed
  ultimately show thesis using that [of b u] a by blast
qed

lemma released_Cons: "released X b u \<Longrightarrow> released X b (c # u)"
  by (auto simp: released_def)

text \<open>A fact about the convergence of a prepared bucket, lifted to the run.\<close>

lemma converging_run:
  assumes "condition_promise X"
    and "\<And>b n. bs_secretName (b_spec b) = Some n \<Longrightarrow> tr (bucket_converge X b) (P b)"
  shows "tr (bucket_Reconcile X req) (\<lambda>r t. \<forall>b u. t = BucketCall (Get req) None b # u
     \<and> \<not> deleted b \<and> prepared X b \<longrightarrow> P b r u)"
proof (rule tr_bucket_Reconcile [OF assms(1)])
  fix b assume "deleted b"
  then show "tr (bucket_delete_branch X b) (\<lambda>r u. \<forall>b' u'. BucketCall (Get req) None b # u = BucketCall (Get req) None b' # u'
      \<and> \<not> deleted b' \<and> prepared X b' \<longrightarrow> P b' r u')"
    by (intro tr_bucket_delete_branch) auto
next
  fix b assume "prepared X b"
  then obtain n where "bs_secretName (b_spec b) = Some n" by (auto simp: prepared_def)
  from assms(2) [OF this]
  show "tr (bucket_converge X b) (\<lambda>r u. \<forall>b' u'. BucketCall (Get req) None b # u = BucketCall (Get req) None b' # u'
      \<and> \<not> deleted b' \<and> prepared X b' \<longrightarrow> P b' r u')"
    by (rule tr_mono) auto
qed auto

text \<open>The same, for a run that made a call which only a converging run makes.\<close>

lemma converging_call:
  assumes cp: "condition_promise X" and c: "c \<in> set (calls (bucket_Reconcile X req) s)"
    and only: "\<And>e b. c \<noteq> BucketCall (Get req) e b" "\<And>b. \<not> deletion_call X b c" "\<And>b. \<not> prepare_call X b c"
    and P: "\<And>b n. bs_secretName (b_spec b) = Some n \<Longrightarrow> tr (bucket_converge X b) (P b)"
  obtains b u where "calls (bucket_Reconcile X req) s = BucketCall (Get req) None b # u" and "c \<in> set u"
    and "\<not> deleted b" and "prepared X b" and "P b (result (bucket_Reconcile X req) s) u"
proof (rule bucket_run_call [OF cp c only(1)])
  have conv: "tr (bucket_Reconcile X req) (\<lambda>r t. \<forall>b u. t = BucketCall (Get req) None b # u
     \<and> \<not> deleted b \<and> prepared X b \<longrightarrow> P b r u)"
    by (rule converging_run [OF cp], rule P)
  fix b u
  assume t: "calls (bucket_Reconcile X req) s = BucketCall (Get req) None b # u" and cu: "c \<in> set u"
    and "deleted b \<Longrightarrow> list_all (deletion_call X b) u"
    and "\<not> deleted b \<Longrightarrow> \<not> prepared X b \<Longrightarrow> list_all (prepare_call X b) u"
  then have "\<not> deleted b" "prepared X b"
    using only(2,3) by (auto simp: list_all_iff)
  with that [OF t cu this] trD [OF conv, of s] t show thesis by blast
qed

end
