(* ===== verification/BucketProperties.thy ===== *)
theory BucketProperties imports BucketSteps begin

text \<open>
  The properties of the bucket reconciler (\<^verbatim>\<open>src/controllers/bucket_controller.go\<close>): when
  it destroys and creates MinIO buckets, what the finalizer and the Ready condition promise,
  what is in the secret, what a successful run means, and how errors are reported. Their
  witnesses run the model on the reference environment.
\<close>

section \<open>Runs to apply the properties to\<close>

text \<open>
  A Bucket, prepared and owned by its account, with the status fields of interest as
  arguments, and the world around it: its provider with credentials, the account with its
  secret, and the MinIO buckets.
\<close>

definition app_account :: account where
  "app_account = zero_account\<lparr>a_meta := new_meta ''app'' ''default'', a_spec := \<lparr>as_provider = ''minio-provider''\<rparr>\<rparr>"

definition app_secret :: secret where
  "app_secret = \<lparr>sec_meta = new_meta ''app-sa'' ''default'', sec_type = ''s3.linka.cloud/service-account'',
     sec_data = [MinioAccessKey \<mapsto> ''AK'', MinioSecretKey \<mapsto> ''SK'']\<rparr>"

definition live_bucket :: "string option \<Rightarrow> bucket" where
  "live_bucket ep = \<lparr>
     b_meta = (new_meta ''data'' ''default'')\<lparr>om_finalizers := [finalizer],
       om_ownerReferences := [ref_owner (AnyAccount app_account)]\<rparr>,
     b_spec = \<lparr>bs_provider = ''minio-provider'', bs_serviceAccount = ''app'', bs_reclaimPolicy = ''Delete'',
               bs_secretName = Some ''data-creds'', bs_secretTemplate = [(''url'', ''{{ .Endpoint }}'')]\<rparr>,
     b_status = \<lparr>bst_endpoint = ep, bst_secretName = None,
       bst_conditions = [cond ''Creating'' ConditionTrue ''Creating'' ''Bucket is being created'' 0],
       bst_phase = ''''\<rparr>\<rparr>"

text \<open>The same Bucket, deleted by a user, and as the first run after that leaves it.\<close>

definition deleted_bucket :: bucket where
  "deleted_bucket = (live_bucket None)\<lparr>b_meta := (b_meta (live_bucket None))\<lparr>om_deletionTimestamp := Some 7\<rparr>\<rparr>"

definition dying_bucket :: bucket where
  "dying_bucket = deleted_bucket\<lparr>b_status := (b_status deleted_bucket)\<lparr>bst_conditions :=
       [cond ''Creating'' ConditionTrue ''Creating'' ''Bucket is being created'' 0,
        (cond ''Deleting'' ConditionTrue ''Deleting'' ''Bucket is being deleted'' 0)\<lparr>cd_lastTransitionTime := 1000\<rparr>],
     bst_phase := ''Deleting''\<rparr>\<rparr>"

definition data_key :: nsname where
  "data_key = \<lparr>nn_name = ''data'', nn_namespace = ''default''\<rparr>"

definition with_bucket :: "bucket \<Rightarrow> string list \<Rightarrow> sim" where
  "with_bucket b bs = demo_world\<lparr>sim_buckets := [(data_key, b)], sim_minio_buckets := bs,
     sim_accounts := [(meta_key (a_meta app_account), app_account)],
     sim_secrets := (meta_key (sec_meta app_secret), app_secret) # sim_secrets demo_world\<rparr>"

lemmas owner_defs = ForceControllerReference_def force_ref_def controller_ref_def referSameObject_def
  indexOwnerRef_def ref_parse_gv_def account_object_def

lemmas bucket_run_defs = provider_run_defs bucket_Reconcile_def bucket_delete_branch_def
  bucket_reconcileDeletion_def bucket_converge_def do_step_def returning_def
  bucket_reconcileServiceAccount_def get_or_create_account_def reconcileBucket_def reconcileSecret_def
  write_secret_def build_secret_def find_secret_def delete_old_secret_def bucket_err_def bucket_ready_def
  update_and_return_def b_with_status_def account_for_def Endpoint_def Secure_def owner_defs
  access_data_def access_of_def data_of_def format_bool_def name_def prefix_name_def finalizer_def
  saSecretSuffix_def rec_Eventf_def rec_Warnf_def data_key_def with_bucket_def live_bucket_def
  deleted_bucket_def dying_bucket_def app_account_def app_secret_def

section \<open>Properties\<close>

text \<open>
  C1. When data is destroyed. A run of the bucket reconciler removes a MinIO bucket with its
  contents only if the Bucket it read has a deletion timestamp, its Deleting condition is
  true already (so an earlier run announced it), and its reclaim policy is Delete; the bucket
  that is removed has the name of the Bucket, and the run asks nothing else of MinIO.
\<close>
theorem bucket_force_delete:
  assumes "condition_promise X"
    and "MinioCall c (RemoveBucketWithOptions n force) a \<in> set (calls (bucket_Reconcile X req) s)"
  shows "\<exists>b. BucketCall (Get req) None b \<in> set (calls (bucket_Reconcile X req) s)
     \<and> \<not> is_zero (om_deletionTimestamp (b_meta b))
     \<and> condition_true X (b_conditions b) BucketConditionDeleting
     \<and> bs_reclaimPolicy (b_spec b) = BucketReclaimDelete \<and> n = b_name b \<and> force
     \<and> (\<forall>c' r a'. MinioCall c' r a' \<in> set (calls (bucket_Reconcile X req) s) \<longrightarrow>
          r = RemoveBucketWithOptions n True)"
proof (rule bucket_run_call [OF assms])
  fix b u
  assume t: "calls (bucket_Reconcile X req) s = BucketCall (Get req) None b # u"
    and c: "MinioCall c (RemoveBucketWithOptions n force) a \<in> set u"
    and d: "deleted b \<Longrightarrow> list_all (deletion_call X b) u"
    and p: "\<not> deleted b \<Longrightarrow> \<not> prepared X b \<Longrightarrow> list_all (prepare_call X b) u"
    and v: "\<not> deleted b \<Longrightarrow> prepared X b \<Longrightarrow> list_all (converge_call X b) u"
  have del: "deleted b" using p v c by (fastforce simp: list_all_iff)
  have "r = RemoveBucketWithOptions (b_name b) True" if "MinioCall c' r a' \<in> set u" for c' r a'
    using d [OF del] that by (cases r) (fastforce simp: list_all_iff)+
  with d [OF del] c del show ?thesis unfolding t deleted_def by (fastforce simp: list_all_iff)
qed simp

lemma dying_run:
  "\<exists>c. MinioCall c (RemoveBucketWithOptions ''data'' True) (Done None)
     \<in> set (calls (bucket_Reconcile ref_env data_key) (start (with_bucket dying_bucket [''data''])))"
  "\<exists>q q'. BucketCall (Update q) None q'
     \<in> set (calls (bucket_Reconcile ref_env data_key) (start (with_bucket dying_bucket [''data''])))
   \<and> om_finalizers (b_meta q) = []"
  by (simp_all add: bucket_run_defs)

theorem bucket_force_delete_witness:
  "\<exists>b. BucketCall (Get data_key) None b
       \<in> set (calls (bucket_Reconcile ref_env data_key) (start (with_bucket dying_bucket [''data''])))
     \<and> bs_reclaimPolicy (b_spec b) = BucketReclaimDelete"
  using dying_run(1) bucket_force_delete [OF ref_condition_promise] by blast

text \<open>
  C3. The finalizer protects the MinIO bucket. Every update of a Bucket that a run sends
  without the controller's finalizer removes exactly that finalizer, from a Bucket that is
  being deleted, and after the MinIO side was settled in the same run: the provider does not
  exist any more, or the reclaim policy is not Delete, or MinIO has removed the bucket
  without an error.
\<close>
theorem bucket_finalizer_kept:
  assumes "condition_promise X" and "finalizer_promise X"
    and "BucketCall (Update q) e q' \<in> set (calls (bucket_Reconcile X req) s)"
    and "finalizer \<notin> set (om_finalizers (b_meta q))"
  shows "\<exists>b. BucketCall (Get req) None b \<in> set (calls (bucket_Reconcile X req) s)
     \<and> \<not> is_zero (om_deletionTimestamp (b_meta b))
     \<and> released X b (calls (bucket_Reconcile X req) s)
     \<and> set (om_finalizers (b_meta q)) = set (om_finalizers (b_meta b)) - {finalizer}
     \<and> b_spec q = b_spec b"
proof (rule bucket_run_call [OF assms(1,3)])
  fix b u
  assume t: "calls (bucket_Reconcile X req) s = BucketCall (Get req) None b # u"
    and c: "BucketCall (Update q) e q' \<in> set u"
    and d: "\<And>q e' q'. deleted b \<Longrightarrow> BucketCall (Update q) e' q' \<in> set u \<Longrightarrow> released X b u
           \<and> q = b\<lparr>b_meta := (b_meta b)\<lparr>om_finalizers :=
                 remove_finalizer X (om_finalizers (b_meta b)) finalizer\<rparr>\<rparr>"
    and p: "\<not> deleted b \<Longrightarrow> \<not> prepared X b \<Longrightarrow> list_all (prepare_call X b) u"
    and v: "\<not> deleted b \<Longrightarrow> prepared X b \<Longrightarrow> list_all (converge_call X b) u"
  have added: "finalizer \<in> set (case add_finalizer X fs finalizer of (added, fs') \<Rightarrow> if added then fs' else fs)" for fs
  proof (cases "add_finalizer X fs finalizer")
    case (Pair added fs')
    have "added \<longleftrightarrow> finalizer \<notin> set fs" "set fs' = insert finalizer (set fs)"
      using assms(2) Pair unfolding finalizer_promise_def by (metis fst_conv, metis snd_conv)
    then show ?thesis by (simp add: Pair)
  qed
  have "deleted b"
  proof (rule ccontr)
    assume nd: "\<not> deleted b"
    show False
    proof (cases "prepared X b")
      case True
      then have "om_finalizers (b_meta q) = om_finalizers (b_meta b)"
        using v [OF nd] c by (fastforce simp: list_all_iff)
      moreover have "finalizer \<in> set (om_finalizers (b_meta b))"
        using True assms(2) by (simp add: prepared_def finalizer_promise_def)
      ultimately show False using assms(4) by simp
    next
      case False
      then show False using p [OF nd] c assms(4) added [of "om_finalizers (b_meta b)"]
        by (fastforce simp: list_all_iff)
    qed
  qed
  then show ?thesis using d [OF _ c] assms(2) unfolding t
    by (auto simp: deleted_def released_Cons finalizer_promise_def)
qed simp

theorem bucket_finalizer_kept_witness:
  "\<exists>b. released ref_env b (calls (bucket_Reconcile ref_env data_key) (start (with_bucket dying_bucket [''data''])))"
proof -
  obtain q q' where "BucketCall (Update q) None q'
      \<in> set (calls (bucket_Reconcile ref_env data_key) (start (with_bucket dying_bucket [''data''])))"
    and "om_finalizers (b_meta q) = []" using dying_run(2) by blast
  then show ?thesis
    using bucket_finalizer_kept [OF ref_condition_promise ref_finalizer_promise, of q] by fastforce
qed

text \<open>
  C11. MinIO buckets are created once and taken back only by their creator. A run makes a MinIO
  bucket only for a Bucket that is prepared and not being deleted, under the name of the
  Bucket, and directly after MinIO answered that no such bucket exists. A run removes a
  bucket without force only right after it made that bucket and could not write the
  endpoint into the status; the name it removes is the one in the answer of that write.
\<close>
theorem bucket_creation:
  assumes "condition_promise X"
    and "MinioCall c r a \<in> set (calls (bucket_Reconcile X req) s)"
  shows "(r = MakeBucket n \<longrightarrow> (\<exists>b. BucketCall (Get req) None b \<in> set (calls (bucket_Reconcile X req) s)
          \<and> n = b_name b \<and> \<not> deleted b \<and> prepared X b
          \<and> sublist [MinioCall c (BucketExists n) (Exists False None), MinioCall c (MakeBucket n) a]
               (calls (bucket_Reconcile X req) s)))
     \<and> (r = RemoveBucket n \<longrightarrow> (\<exists>b. BucketCall (Get req) None b \<in> set (calls (bucket_Reconcile X req) s)
          \<and> rolled_back b c n a (calls (bucket_Reconcile X req) s)))"
proof (cases "r \<in> {MakeBucket n, RemoveBucket n}")
  case True
  show ?thesis
  proof (rule converging_call [OF assms _ _ _ converge_creation [OF assms(1)]])
    fix b u
    assume t: "calls (bucket_Reconcile X req) s = BucketCall (Get req) None b # u"
      and "MinioCall c r a \<in> set u" "\<not> deleted b" "prepared X b" "creation_sound b u"
    then show ?thesis using sublist_later [of _ u "[BucketCall (Get req) None b]"]
        rolled_back_Cons [of b c n a u]
      unfolding t creation_sound_def by auto
  qed (use True in auto)
qed auto

theorem bucket_creation_witness:
  "\<exists>c. sublist [MinioCall c (BucketExists ''data'') (Exists False None), MinioCall c (MakeBucket ''data'') (Done None)]
     (calls (bucket_Reconcile ref_env data_key) (start (with_bucket (live_bucket None) [])))"
proof -
  have "\<exists>c. MinioCall c (MakeBucket ''data'') (Done None)
     \<in> set (calls (bucket_Reconcile ref_env data_key) (start (with_bucket (live_bucket None) [])))"
    by (simp add: bucket_run_defs)
  then show ?thesis using bucket_creation [OF ref_condition_promise] by blast
qed

text \<open>
  C4. A MinIO bucket that is already there is never adopted. When the Bucket's status has no
  endpoint and MinIO answers that the bucket exists, the run returns an error, writes a
  status that is not ready and names the conflict (with the reason ErrCreateBucket), writes
  no secret, and asks nothing else of MinIO.
\<close>
theorem bucket_no_takeover:
  assumes "condition_promise X" and "combine_promise X"
    and "MinioCall c (BucketExists n) (Exists True None) \<in> set (calls (bucket_Reconcile X req) s)"
    and "BucketCall (Get req) None b \<in> set (calls (bucket_Reconcile X req) s)"
    and "bst_endpoint (b_status b) = None"
  shows "(\<exists>re e. result (bucket_Reconcile X req) s = Returns (re, Some e))
     \<and> (\<exists>q e q'. BucketCall (StatusUpdate q) e q' \<in> set (calls (bucket_Reconcile X req) s)
          \<and> says_failed X (b_conditions q) BucketConditionReasonErrCreateBucket
               (Errorf ''conflict: bucket already exists'') (om_generation (b_meta b)))
     \<and> (\<forall>sec. \<not> writes_secret (calls (bucket_Reconcile X req) s) sec)
     \<and> (\<forall>c' r a. MinioCall c' r a \<in> set (calls (bucket_Reconcile X req) s) \<longrightarrow> r = BucketExists (b_name b))"
proof (rule converging_call [OF assms(1,3) _ _ _ converge_conflict [OF assms(1,2)]])
  fix b' u
  assume t: "calls (bucket_Reconcile X req) s = BucketCall (Get req) None b' # u"
    and c: "MinioCall c (BucketExists n) (Exists True None) \<in> set u" and "\<not> deleted b'" "prepared X b'"
    and k: "conflict_refused X b' (result (bucket_Reconcile X req) s) u"
  have "list_all (converge_call X b') u"
  proof (rule bucket_run_call [OF assms(1,3)])
    fix b'' u'
    assume "calls (bucket_Reconcile X req) s = BucketCall (Get req) None b'' # u'"
      "\<not> deleted b'' \<Longrightarrow> prepared X b'' \<Longrightarrow> list_all (converge_call X b'') u'"
    then show ?thesis using t \<open>\<not> deleted b'\<close> \<open>prepared X b'\<close> by simp
  qed simp
  then have "BucketCall (Get req) None b \<notin> set u" by (auto simp: list_all_iff)
  then have "b' = b" using assms(4) t by simp
  with k c assms(5) show ?thesis unfolding t conflict_refused_def by auto
qed simp_all

theorem bucket_no_takeover_witness:
  "\<exists>re e. result (bucket_Reconcile ref_env data_key) (start (with_bucket (live_bucket None) [''data''])) = Returns (re, Some e)"
proof -
  have "\<exists>c. MinioCall c (BucketExists ''data'') (Exists True None)
     \<in> set (calls (bucket_Reconcile ref_env data_key) (start (with_bucket (live_bucket None) [''data''])))"
    and "BucketCall (Get data_key) None (live_bucket None)
     \<in> set (calls (bucket_Reconcile ref_env data_key) (start (with_bucket (live_bucket None) [''data''])))"
    and "bst_endpoint (b_status (live_bucket None)) = None"
    by (simp_all add: bucket_run_defs)
  then show ?thesis using bucket_no_takeover [OF ref_condition_promise ref_combine_promise] by blast
qed

text \<open>
  C8. Ready means in place. When a run on a Bucket that was not ready writes a status with
  the Ready condition true, then in that run the account of the Bucket was read or created,
  MinIO confirmed that its bucket exists, the status has an endpoint (so the controller made
  the bucket), and the secret was written without an error; the status it writes has no Error
  and no Creating condition and the phase Ready.
\<close>
theorem bucket_ready_means_in_place:
  assumes "condition_promise X" and "semantic_promise X"
    and "BucketCall (StatusUpdate q) e q' \<in> set (calls (bucket_Reconcile X req) s)"
    and "condition_true X (b_conditions q) BucketConditionReady"
    and "BucketCall (Get req) None b \<in> set (calls (bucket_Reconcile X req) s)"
    and "\<not> condition_true X (b_conditions b) BucketConditionReady" and "\<not> deleted b"
  shows "account_found (calls (bucket_Reconcile X req) s) \<and> bst_endpoint (b_status b) \<noteq> None
     \<and> (\<exists>c. MinioCall c (BucketExists (b_name b)) (Exists True None) \<in> set (calls (bucket_Reconcile X req) s))
     \<and> (\<exists>sec sec'. SecretCall (Create sec) None sec' \<in> set (calls (bucket_Reconcile X req) s)
            \<or> SecretCall (Update sec) None sec' \<in> set (calls (bucket_Reconcile X req) s))
     \<and> bst_phase (b_status q) = BucketConditionReady
     \<and> find_condition X (b_conditions q) BucketConditionError = None
     \<and> find_condition X (b_conditions q) BucketConditionCreating = None"
proof (rule bucket_run_call [OF assms(1,3)])
  fix b' u
  assume t: "calls (bucket_Reconcile X req) s = BucketCall (Get req) None b' # u"
    and c: "BucketCall (StatusUpdate q) e q' \<in> set u"
    and del: "deleted b' \<Longrightarrow> list_all (deletion_call X b') u"
    and p: "\<not> deleted b' \<Longrightarrow> \<not> prepared X b' \<Longrightarrow> list_all (prepare_call X b') u"
    and v: "\<not> deleted b' \<Longrightarrow> prepared X b' \<Longrightarrow> list_all (converge_call X b') u"
  have "BucketCall (Get req) None b \<notin> set u"
    using del p v by (cases "deleted b'"; cases "prepared X b'") (auto simp: list_all_iff)
  then have b: "b' = b" using assms(5) t by simp
  have prep: "prepared X b"
  proof (rule ccontr)
    assume "\<not> prepared X b"
    then have "prepare_call X b (BucketCall (StatusUpdate q) e q')"
      using p c assms(7) unfolding b list_all_iff by blast
    then show False using assms(4) by simp
  qed
  have "tr (bucket_Reconcile X req) (\<lambda>_ t. \<forall>b u. t = BucketCall (Get req) None b # u
      \<and> \<not> deleted b \<and> prepared X b \<longrightarrow> ready_sound X b u)"
    by (rule converging_run [OF assms(1)], rule converge_ready [OF assms(1)])
  from trD [OF this, of s] have "ready_sound X b u" using t b prep assms(7) by blast
  then show ?thesis using c assms(2,4,6) account_found_append(3)
    unfolding ready_sound_def in_place_def t b by fastforce
qed simp

lemma ready_run:
  defines "t \<equiv> calls (bucket_Reconcile ref_env data_key) (start (with_bucket (live_bucket (Some ''e'')) [''data'']))"
  shows "\<exists>q q'. BucketCall (StatusUpdate q) None q' \<in> set t
      \<and> condition_true ref_env (b_conditions q) BucketConditionReady"
    and "BucketCall (Get data_key) None (live_bucket (Some ''e'')) \<in> set t"
    and "\<exists>sec. writes_secret t sec"
    and "result (bucket_Reconcile ref_env data_key) (start (with_bucket (live_bucket (Some ''e'')) [''data''])) = Returns (no_requeue, None)"
  unfolding t_def
  by (simp_all add: bucket_run_defs conj_disj_distribR ex_disj_distrib writes_secret_def)

lemma live_bucket_facts:
  "\<not> condition_true ref_env (b_conditions (live_bucket ep)) BucketConditionReady" "\<not> deleted (live_bucket ep)"
  "prepared ref_env (live_bucket ep)"
  by (simp_all add: bucket_run_defs deleted_def prepared_def)

theorem bucket_ready_means_in_place_witness:
  "\<exists>q. find_condition ref_env (b_conditions q) BucketConditionError = None
     \<and> bst_phase (b_status q) = BucketConditionReady"
proof -
  obtain q q' where "BucketCall (StatusUpdate q) None q'
      \<in> set (calls (bucket_Reconcile ref_env data_key) (start (with_bucket (live_bucket (Some ''e'')) [''data''])))"
    and "condition_true ref_env (b_conditions q) BucketConditionReady" using ready_run(1) by blast
  from bucket_ready_means_in_place [OF ref_condition_promise ref_semantic_promise this ready_run(2)
      live_bucket_facts(1,2)] show ?thesis by blast
qed

text \<open>
  C9. What a quiet run means. When a run on a prepared Bucket that is not being deleted
  returns no error and asks for no requeue, then it has either updated the Bucket, or made
  its MinIO bucket and recorded the endpoint (both bring the Bucket back for another run), or
  everything is in place; no failure of Kubernetes or MinIO on the way is dropped. Because
  the code compares a secret with a pointer to one, which are never deeply equal, a run that
  finds everything in place still writes the secret every time.
\<close>
theorem bucket_quiet_run:
  assumes "condition_promise X" and "combine_promise X" and "semantic_promise X"
    and "BucketCall (Get req) None b \<in> set (calls (bucket_Reconcile X req) s)"
    and "\<not> deleted b" and "prepared X b"
    and "result (bucket_Reconcile X req) s = Returns (no_requeue, None)"
  shows "(\<exists>q q'. BucketCall (Update q) None q' \<in> set (calls (bucket_Reconcile X req) s))
     \<or> (\<exists>c q q'. MinioCall c (MakeBucket (b_name b)) (Done None) \<in> set (calls (bucket_Reconcile X req) s)
          \<and> BucketCall (StatusUpdate q) None q' \<in> set (calls (bucket_Reconcile X req) s)
          \<and> bst_endpoint (b_status q) \<noteq> None)
     \<or> (in_place X b (calls (bucket_Reconcile X req) s)
          \<and> (\<exists>sec. writes_secret (calls (bucket_Reconcile X req) s) sec))"
proof (rule bucket_run_obtain [OF assms(1), of req s])
  fix e b' u
  assume t: "calls (bucket_Reconcile X req) s = BucketCall (Get req) e b' # u"
    and nil: "e \<noteq> None \<Longrightarrow> u = []"
    and del: "deleted b' \<Longrightarrow> e = None \<Longrightarrow> list_all (deletion_call X b') u"
    and p: "\<not> deleted b' \<Longrightarrow> e = None \<Longrightarrow> \<not> prepared X b' \<Longrightarrow> list_all (prepare_call X b') u"
    and v: "\<not> deleted b' \<Longrightarrow> e = None \<Longrightarrow> prepared X b' \<Longrightarrow> list_all (converge_call X b') u"
  have e: "e = None"
  proof (rule ccontr)
    assume "e \<noteq> None"
    then show False using nil assms(4) t by simp
  qed
  have "BucketCall (Get req) None b \<notin> set u"
    using del p v e by (cases "deleted b'"; cases "prepared X b'") (auto simp: list_all_iff)
  then have b: "b' = b" using assms(4) t by simp
  have "tr (bucket_Reconcile X req) (\<lambda>r t. \<forall>b u. t = BucketCall (Get req) None b # u
      \<and> \<not> deleted b \<and> prepared X b \<longrightarrow> r = Returns (no_requeue, None) \<longrightarrow>
     (\<exists>q q'. BucketCall (Update q) None q' \<in> set u)
   \<or> (\<exists>c q'. MinioCall c (MakeBucket (b_name b)) (Done None) \<in> set u \<and> (\<exists>q. BucketCall (StatusUpdate q) None q' \<in> set u
          \<and> bst_endpoint (b_status q) \<noteq> None))
   \<or> in_place X b u)"
    by (rule converging_run [OF assms(1)], rule converge_success [OF assms(1,2)])
  from trD [OF this, of s] have "(\<exists>q q'. BucketCall (Update q) None q' \<in> set u)
   \<or> (\<exists>c q'. MinioCall c (MakeBucket (b_name b)) (Done None) \<in> set u \<and> (\<exists>q. BucketCall (StatusUpdate q) None q' \<in> set u
          \<and> bst_endpoint (b_status q) \<noteq> None))
   \<or> in_place X b u" using t e b assms(5-7) by blast
  moreover have "\<exists>sec. writes_secret u sec" if "in_place X b u"
    using that assms(3) unfolding in_place_def writes_secret_def by blast
  moreover have "in_place X b (c # u)" if "in_place X b u" for c
    using that by (auto simp: in_place_def)
  ultimately show ?thesis unfolding t writes_secret_simps by fastforce
qed

theorem bucket_quiet_run_witness:
  "\<exists>s. result (bucket_Reconcile ref_env data_key) (start s) = Returns (no_requeue, None)
     \<and> ((\<exists>q q'. BucketCall (Update q) None q' \<in> set (calls (bucket_Reconcile ref_env data_key) (start s)))
      \<or> (\<exists>c. MinioCall c (MakeBucket ''data'') (Done None) \<in> set (calls (bucket_Reconcile ref_env data_key) (start s)))
      \<or> (\<exists>sec. writes_secret (calls (bucket_Reconcile ref_env data_key) (start s)) sec))"
proof -
  have "b_name (live_bucket (Some ''e'')) = ''data''" by (simp add: live_bucket_def new_meta_def)
  then show ?thesis
    using bucket_quiet_run [OF ref_condition_promise ref_combine_promise ref_semantic_promise ready_run(2)
        live_bucket_facts(2,3) ready_run(4)] ready_run(4) by metis
qed

text \<open>
  C7. What the secret contains. Every secret that a run creates or updates has the type
  of a bucket access and is built from credentials that the run read from the secret of
  the Bucket's account, after MinIO confirmed the bucket. For a template as admission lets it
  through (distinct keys, none of the five reserved ones), the reserved keys hold the name of
  the bucket, the two credentials, and the endpoint and the protocol of the provider; every
  template entry holds its text rendered with that access; and there are no other keys.
\<close>
theorem bucket_secret_content:
  assumes "condition_promise X"
    and "writes_secret (calls (bucket_Reconcile X req) s) sec"
  shows "\<exists>b mc as. BucketCall (Get req) None b \<in> set (calls (bucket_Reconcile X req) s)
     \<and> SecretCall (Get (account_secret_key b)) None as \<in> set (calls (bucket_Reconcile X req) s)
     \<and> MinioCall (Client mc) (BucketExists (b_name b)) (Exists True None) \<in> set (calls (bucket_Reconcile X req) s)
     \<and> sec_type sec = BucketAccessSecretType
     \<and> (distinct (map fst (bs_secretTemplate (b_spec b))) \<and> template_ok X (bs_secretTemplate (b_spec b)) \<longrightarrow>
          sec_data sec MinioBucket = Some (b_name b)
        \<and> sec_data sec MinioAccessKey = Some (data_of as MinioAccessKey)
        \<and> sec_data sec MinioSecretKey = Some (data_of as MinioSecretKey)
        \<and> sec_data sec MinioEndpoint = Some (Endpoint X mc)
        \<and> sec_data sec MinioSecure = Some (if Secure X mc then ''true'' else ''false'')
        \<and> (\<forall>(k, v) \<in> set (bs_secretTemplate (b_spec b)). \<exists>buf.
             template_execute X v (access_of X mc b as) = Inr buf \<and> sec_data sec k = Some buf)
        \<and> dom (sec_data sec) = set reserved_keys \<union> fst ` set (bs_secretTemplate (b_spec b)))"
proof -
  obtain c where c: "c \<in> set (calls (bucket_Reconcile X req) s)"
    and cs: "\<exists>e s'. c = SecretCall (Create sec) e s' \<or> c = SecretCall (Update sec) e s'"
    using assms(2) unfolding writes_secret_def by blast
  show ?thesis
  proof (rule converging_call [OF assms(1) c _ _ _ converge_secrets [OF assms(1)]])
    fix b u
    assume t: "calls (bucket_Reconcile X req) s = BucketCall (Get req) None b # u" and cu: "c \<in> set u"
      and "\<forall>s. writes_secret u s \<longrightarrow>
     (\<exists>mc as. SecretCall (Get (account_secret_key b)) None as \<in> set u
        \<and> MinioCall (Client mc) (BucketExists (b_name b)) (Exists True None) \<in> set u
        \<and> carries_access X mc b as s)"
    moreover have "writes_secret u sec" using cu cs unfolding writes_secret_def by blast
    ultimately obtain mc as where m: "SecretCall (Get (account_secret_key b)) None as \<in> set u"
      "MinioCall (Client mc) (BucketExists (b_name b)) (Exists True None) \<in> set u"
      and carries: "carries_access X mc b as sec" by blast
    show ?thesis
      using m carries_secret_data [OF carries] carries unfolding t
      by (intro exI [of _ b] exI [of _ mc] exI [of _ as]) (simp add: carries_access_def)
  qed (use cs in auto)
qed

theorem bucket_secret_content_witness:
  "\<exists>sec. sec_type sec = BucketAccessSecretType
     \<and> writes_secret (calls (bucket_Reconcile ref_env data_key)
          (start (with_bucket (live_bucket (Some ''e'')) [''data'']))) sec"
  using ready_run(3) bucket_secret_content [OF ref_condition_promise] by blast

text \<open>
  The secret does not depend on the order of a Go map. For a template with distinct keys,
  which a map has, building the secret succeeds in one order of iteration exactly when it
  does in another, and gives the same secret.
\<close>
theorem bucket_secret_order:
  assumes "mset m = mset (bs_secretTemplate (b_spec b))" and "distinct (map fst m)"
  shows "build_secret X mc (b\<lparr>b_spec := (b_spec b)\<lparr>bs_secretTemplate := m\<rparr>\<rparr>) secret as = Inr s2
     \<longleftrightarrow> build_secret X mc b secret as = Inr s2"
proof -
  let ?b = "b\<lparr>b_spec := (b_spec b)\<lparr>bs_secretTemplate := m\<rparr>\<rparr>"
  have "access_of X mc ?b as = access_of X mc b as" "access_data X mc ?b as = access_data X mc b as"
    by (simp_all add: access_of_def access_data_def)
  moreover have "render X a (bs_secretTemplate (b_spec b)) d = Inr data \<longleftrightarrow> render X a m d = Inr data" for a d data
    using assms by (intro render_order) simp_all
  ultimately show ?thesis unfolding build_secret_iff by simp
qed

theorem bucket_secret_order_witness:
  "\<exists>mc as s2. build_secret ref_env mc
        (demo_bucket\<lparr>b_spec := (b_spec demo_bucket)\<lparr>bs_secretTemplate := [(''a'', ''x''), (''b'', ''y'')]\<rparr>\<rparr>) zero_secret as = Inr s2
    \<and> build_secret ref_env mc
        (demo_bucket\<lparr>b_spec := (b_spec demo_bucket)\<lparr>bs_secretTemplate := [(''b'', ''y''), (''a'', ''x'')]\<rparr>\<rparr>) zero_secret as = Inr s2"
proof -
  let ?b = "demo_bucket\<lparr>b_spec := (b_spec demo_bucket)\<lparr>bs_secretTemplate := [(''a'', ''x''), (''b'', ''y'')]\<rparr>\<rparr>"
  have "mset [(''b'', ''y''), (''a'', ''x'')] = mset (bs_secretTemplate (b_spec ?b))"
    and "distinct (map fst [(''b'', ''y''), (''a'', ''x'')])" by simp_all
  have "\<exists>s2. build_secret ref_env mc ?b zero_secret app_secret = Inr s2" for mc
    by (simp add: build_secret_def ref_env_def ref_template_def)
  then show ?thesis using bucket_secret_order [OF \<open>mset _ = _\<close> \<open>distinct _\<close>] by fastforce
qed

text \<open>
  C12. Reconciling a Bucket always returns. Whatever Kubernetes and MinIO answer, a run does
  not panic (in particular it never follows a nil secret name) and does not end the process,
  and its first call reads the requested Bucket.
\<close>
theorem bucket_reconcile_returns:
  assumes "condition_promise X"
  shows "returned (result (bucket_Reconcile X req) s)
     \<and> (\<exists>e b u. calls (bucket_Reconcile X req) s = BucketCall (Get req) e b # u \<and> (e \<noteq> None \<longrightarrow> u = []))"
  using trD [OF bucket_run [OF assms], of req s] unfolding bucket_run_shape_def by blast

theorem bucket_reconcile_returns_witness:
  "returned (result (bucket_Reconcile ref_env data_key) (start empty_sim))"
  using bucket_reconcile_returns [OF ref_condition_promise] by blast




end
