(* ===== verification/AccountWebhook.thy ===== *)
theory AccountWebhook imports Admission begin

text \<open>
  \<^verbatim>\<open>src/controllers/bucketserviceaccount_webhook.go\<close>: the validation of bucket service
  accounts and of their secrets, which only the controller itself and the control plane may
  write. The user name of the request comes from \<^verbatim>\<open>admission.RequestFromContext\<close> and is an
  argument here, \<open>Inl\<close> when there is no request in the context; so is the reconciler's
  \<^verbatim>\<open>ServiceAccount\<close>. The lemmas characterise the admitted requests, and show that nobody else
  gets through or causes a single call.
\<close>

section \<open>The webhooks\<close>

definition kube_system :: string where
  "kube_system = ''system:serviceaccount:kube-system:''"

definition allowed :: "string \<Rightarrow> string \<Rightarrow> bool" where
  "allowed serviceAccount user \<longleftrightarrow> user = serviceAccount \<or> has_prefix user kube_system"

definition accounts_resource :: "string \<times> string" where
  "accounts_resource = WithResource ''bucketserviceaccounts''"

definition not_an_account :: "any_object \<Rightarrow> admission_error" where
  "not_an_account obj = BadRequest (''expected a BucketServiceAccount but got a '' @ type_name obj)"

text \<open>The case \<^verbatim>\<open>*s3v1alpha1.BucketServiceAccount\<close> of the type switch.\<close>

definition check_new_account :: "'w env \<Rightarrow> account \<Rightarrow> ('w, admission_error option) handler" where
  "check_new_account X a =
     (if as_provider (a_spec a) = '''' then ret (Some (BadRequest ''provider is required''))
      else do {
        (err, p) \<leftarrow> api_get (providers X) ProviderCall
          \<lparr>nn_name = as_provider (a_spec a), nn_namespace = ''''\<rparr> zero_provider;
        case err of
          Some e \<Rightarrow>
            (if is_not_found X e
             then ret (Some (NotFoundError (WithResource ''bucketproviders'') (as_provider (a_spec a))))
             else ret (Some (Plain e)))
        | None \<Rightarrow> do {
            mc \<leftarrow> newClient X p;
            case mc of
              Inl e \<Rightarrow> ret (Some (InternalError (Wrapf ''unable to create minio client'' e)))
            | Inr mc \<Rightarrow> do {
                (us, err) \<leftarrow> list_users X (AdminClient mc);
                case err of
                  Some e \<Rightarrow> ret (Some (InternalError (Wrapf ''unable to list users'' e)))
                | None \<Rightarrow>
                    (if us (prefix_name @ om_name (GetObjectMeta a)) \<noteq> None
                     then ret (Some (Conflict accounts_resource (a_name a) ''account already exists''))
                     else ret None) } } })"

definition account_ValidateCreate ::
    "'w env \<Rightarrow> string \<Rightarrow> go_err + string \<Rightarrow> any_object \<Rightarrow> ('w, admission_error option) handler" where
  "account_ValidateCreate X serviceAccount request obj = (case object_meta_of obj of
     None \<Rightarrow> ret (Some (not_an_account obj))
   | Some m \<Rightarrow>
      (case request of
         Inl e \<Rightarrow> ret (Some (InternalError e))
       | Inr user \<Rightarrow>
          (if \<not> allowed serviceAccount user
           then ret (Some (Forbidden accounts_resource (om_name m)
                  (''user '' @ user @ '' is not allowed to create service account'')))
           else (case obj of
                   AnyAccount a \<Rightarrow> check_new_account X a
                 | AnySecret _ \<Rightarrow> ret None
                 | _ \<Rightarrow> ret (Some (BadRequest
                     (''expected a BucketServiceAccount or a Secret but got a '' @ type_name obj)))))))"

definition account_ValidateUpdate ::
    "'w env \<Rightarrow> string \<Rightarrow> go_err + string \<Rightarrow> any_object \<Rightarrow> any_object \<Rightarrow> ('w, admission_error option) handler" where
  "account_ValidateUpdate X serviceAccount request o' n = (case object_meta_of n of
     None \<Rightarrow> ret (Some (not_an_account o'))
   | Some m \<Rightarrow>
      (case request of
         Inl e \<Rightarrow> ret (Some (InternalError e))
       | Inr user \<Rightarrow>
          (if \<not> allowed serviceAccount user
           then ret (Some (Forbidden accounts_resource (om_name m)
                  (''user '' @ user @ '' is not allowed to update bucket service account'')))
           else ret None)))"

definition account_ValidateDelete ::
    "'w env \<Rightarrow> string \<Rightarrow> go_err + string \<Rightarrow> any_object \<Rightarrow> ('w, admission_error option) handler" where
  "account_ValidateDelete X serviceAccount request obj = (case object_meta_of obj of
     None \<Rightarrow> ret (Some (not_an_account obj))
   | Some m \<Rightarrow>
      (case request of
         Inl e \<Rightarrow> ret (Some (InternalError e))
       | Inr user \<Rightarrow>
          (if \<not> allowed serviceAccount user
           then ret (Some (Forbidden accounts_resource (om_name m)
                  (''user '' @ user @ '' is not allowed to deleta bucket service account'')))
           else ret None)))"

section \<open>What the webhooks decide\<close>

text \<open>A name that is free: the users were listed without an error and it was not among them.\<close>

definition user_free :: "string \<Rightarrow> call list \<Rightarrow> bool" where
  "user_free u t \<longleftrightarrow> (\<exists>c us. MinioCall c ListUsers (Users us None) \<in> set t \<and> us u = None)"

lemma tr_check_new_account [tr_intros]:
  assumes "\<And>e t. e = None \<longleftrightarrow> user_free (name (a_name a)) t \<Longrightarrow>
      (e = None \<Longrightarrow> as_provider (a_spec a) \<noteq> ''''
        \<and> (\<exists>p. ProviderCall (Get \<lparr>nn_name = as_provider (a_spec a), nn_namespace = ''''\<rparr>) None p \<in> set t))
      \<Longrightarrow> list_all read_only t \<Longrightarrow> Q e t"
  shows "tr (check_new_account X a) Q"
proof -
  have quiet: "MinioCall c r v \<notin> set t" if "list_all reads_secret t" for c r v t
    using that by (auto simp: list_all_iff)
  show ?thesis
    unfolding check_new_account_def
    by (intro tr_intros assms) (auto simp: user_free_def name_def quiet)
qed

definition request_ok :: "string \<Rightarrow> go_err + string \<Rightarrow> any_object \<Rightarrow> bool" where
  "request_ok serviceAccount request obj \<longleftrightarrow> object_meta_of obj \<noteq> None
     \<and> (\<exists>user. request = Inr user \<and> allowed serviceAccount user)"

definition account_create_acceptable ::
    "string \<Rightarrow> (go_err + string) \<times> any_object \<Rightarrow> call list \<Rightarrow> bool" where
  "account_create_acceptable sa r t = (case r of (request, obj) \<Rightarrow> request_ok sa request obj
     \<and> (case obj of
          AnyAccount a \<Rightarrow> user_free (name (a_name a)) t
        | AnySecret _ \<Rightarrow> True | _ \<Rightarrow> False))"

lemma account_create_verdict:
  "tr (account_ValidateCreate X sa request obj) (\<lambda>e t.
     (e = None \<longleftrightarrow> account_create_acceptable sa (request, obj) t) \<and> list_all read_only t)"
proof (cases "request_ok sa request obj")
  case True
  then show ?thesis
    by (cases obj) (auto simp: account_ValidateCreate_def account_create_acceptable_def request_ok_def
        intro!: tr_intros)
next
  case False
  then have "\<exists>e. account_ValidateCreate X sa request obj = ret (Some e)"
    by (auto simp: account_ValidateCreate_def request_ok_def split: option.splits sum.splits)
  with False show ?thesis by (auto simp: account_create_acceptable_def intro!: tr_intros)
qed

interpretation account_create: validator "\<lambda>(request, obj). account_ValidateCreate X sa request obj" None
    "account_create_acceptable sa" for X sa
  by unfold_locales (auto intro: tr_mono [OF account_create_verdict])

interpretation account_update: validator "\<lambda>(request, old, new). account_ValidateUpdate X sa request old new"
    None "\<lambda>(request, old, new) t. request_ok sa request new" for X sa
  by unfold_locales (auto simp: account_ValidateUpdate_def request_ok_def not_an_account_def
      split: option.splits sum.splits intro!: tr_intros)

interpretation account_delete: validator "\<lambda>(request, obj). account_ValidateDelete X sa request obj"
    None "\<lambda>(request, obj) t. request_ok sa request obj" for X sa
  by unfold_locales (auto simp: account_ValidateDelete_def request_ok_def not_an_account_def
      split: option.splits sum.splits intro!: tr_intros)

section \<open>Properties\<close>


definition controller_user :: string where
  "controller_user = ''system:serviceaccount:minio:controller''"

definition demo_account :: account where
  "demo_account = zero_account\<lparr>a_meta := new_meta ''data'' ''default'',
     a_spec := \<lparr>as_provider = ''minio-provider''\<rparr>\<rparr>"

lemma demo_users:
  "allowed controller_user controller_user" "\<not> allowed controller_user ''alice''"
  "allowed controller_user (kube_system @ ''gc'')"
  by (simp_all add: allowed_def has_prefix_def kube_system_def controller_user_def)


text \<open>
  C31. Which new accounts are admitted. The creation of an account is admitted exactly when
  the request comes from the controller or the control plane, and the users of the account's
  provider were listed without an error and its user name, the prefix followed by the name of
  the account, is not among them. An admitted account names a provider that exists. The name
  of the MinIO user ignores the namespace, so of two accounts with one name in two namespaces
  the second is refused once the first has its user.
\<close>
theorem account_admitted_iff:
  "(result (account_ValidateCreate X sa request (AnyAccount a)) s = None
      \<longleftrightarrow> (\<exists>user. request = Inr user \<and> allowed sa user)
        \<and> (\<exists>c us. MinioCall c ListUsers (Users us None)
               \<in> set (calls (account_ValidateCreate X sa request (AnyAccount a)) s)
             \<and> us (''bucket.s3.linka.cloud/'' @ a_name a) = None))
   \<and> (result (account_ValidateCreate X sa request (AnyAccount a)) s = None \<longrightarrow>
        as_provider (a_spec a) \<noteq> ''''
      \<and> (\<exists>p. ProviderCall (Get \<lparr>nn_name = as_provider (a_spec a), nn_namespace = ''''\<rparr>) None p
           \<in> set (calls (account_ValidateCreate X sa request (AnyAccount a)) s)))
   \<and> list_all read_only (calls (account_ValidateCreate X sa request (AnyAccount a)) s)"
proof -
  have "tr (account_ValidateCreate X sa request (AnyAccount a)) (\<lambda>e t. e = None \<longrightarrow> as_provider (a_spec a) \<noteq> ''''
      \<and> (\<exists>p. ProviderCall (Get \<lparr>nn_name = as_provider (a_spec a), nn_namespace = ''''\<rparr>) None p \<in> set t))"
    unfolding account_ValidateCreate_def object_meta_of.simps option.case any_object.case
    by (intro tr_intros) auto
  from trD [OF this, of s] show ?thesis
    using account_create.contract [of X sa "(request, AnyAccount a)" s]
    by (auto simp: account_create_acceptable_def request_ok_def user_free_def name_def prefix_name_def)
qed

theorem account_admitted_iff_witness:
  "result (account_ValidateCreate ref_env controller_user (Inr controller_user) (AnyAccount demo_account))
     (start demo_world) = None
   \<and> as_provider (a_spec demo_account) \<noteq> ''''"
proof -
  have "result (account_ValidateCreate ref_env controller_user (Inr controller_user) (AnyAccount demo_account))
     (start demo_world) = None"
    by (simp add: provider_run_defs account_ValidateCreate_def check_new_account_def demo_account_def
        demo_users)
  then show ?thesis using account_admitted_iff by blast
qed

end
