(* ===== verification/Collector.thy ===== *)
theory Collector imports AccountWorlds Buckets begin

text \<open>
  The garbage collector of dangling accounts and the field index by which an account finds
  its buckets (the end of \<^verbatim>\<open>src/controllers/bucketserviceaccount_controller.go\<close>), and what
  follows from MinIO users being named after accounts without their namespace.
\<close>

section \<open>What the collector calls\<close>

text \<open>The conditions the loop looks at; an account is ripe when the last condition is one and all of them are old.\<close>

definition waits :: "condition \<Rightarrow> bool" where
  "waits d \<longleftrightarrow> cd_type d = BucketSAConditionDeletionPending \<or> cd_type d = BucketSAConditionDeleting"

definition ripe :: "int \<Rightarrow> int \<Rightarrow> account \<Rightarrow> bool" where
  "ripe T ttl a \<longleftrightarrow> a_conditions a \<noteq> [] \<and> waits (last (a_conditions a))
     \<and> (\<forall>d \<in> set (a_conditions a). waits d \<longrightarrow> cd_lastTransitionTime d + ttl \<le> T)"

lemma tr_now_before:
  assumes "\<And>w. fst (clock X w) \<le> T" and "\<And>t. t \<le> T \<Longrightarrow> Q t []"
  shows "tr (now X) Q"
  using assms by (simp add: now_def tr_def result_def final_def split: prod.splits) (metis fst_conv)

lemma tr_gc_scan:
  assumes clock: "\<And>w. fst (clock X w) \<le> T"
    and "Q None []"
    and "\<forall>d \<in> set cs. waits d \<longrightarrow> cd_lastTransitionTime d + ttl \<le> T \<Longrightarrow>
      Q (Some (if cs = [] then found else waits (last cs))) []"
  shows "tr (gc_scan X ttl found cs) Q"
  using assms(2,3)
proof (induction cs arbitrary: found)
  case (Cons d cs)
  have rest: "tr (gc_scan X ttl (waits d) cs) Q" if "waits d \<longrightarrow> cd_lastTransitionTime d + ttl \<le> T"
    by (rule Cons.IH) (use Cons.prems that in auto)
  show ?case
    unfolding gc_scan.simps Let_def waits_def [symmetric]
  proof (rule tr_if)
    assume "waits d"
    show "tr (do {t \<leftarrow> now X; if cd_lastTransitionTime d + ttl > t then ret None else gc_scan X ttl (waits d) cs}) Q"
      by (rule tr_bind, rule tr_now_before [OF clock]) (auto intro!: tr_intros Cons.prems rest)
  qed (use rest in simp)
qed (simp add: tr_return)

text \<open>What grounds the calls of the collector; \<open>R\<close> tells the accounts it may act on.\<close>

fun collects :: "'w env \<Rightarrow> (account \<Rightarrow> bool) \<Rightarrow> call \<Rightarrow> call list \<Rightarrow> bool" where
  "collects X R (ListAccounts sel e items) xs = (sel = None)"
| "collects X R (AccountCall (StatusUpdate q) e q') xs = (\<exists>a t. R a \<and> q = deleting_account X t a)"
| "collects X R (AccountCall (Delete v) e v') xs = (\<exists>a. R a
     \<and> (if condition_true X (a_conditions a) BucketSAConditionDeleting then v = a
        else \<exists>t. xs = [AccountCall (StatusUpdate (deleting_account X t a)) None v, AccountCall (Delete v) e v']))"
| "collects X R _ xs = False"

lemma collects_mono: "collects X R c xs \<Longrightarrow> (\<And>a. R a \<Longrightarrow> S a) \<Longrightarrow> collects X S c xs"
  by (cases "(X, R, c, xs)" rule: collects.cases) (auto split: if_splits)

lemma collected_mono:
  "justified (collects X R) t \<Longrightarrow> (\<And>a. R a \<Longrightarrow> S a) \<Longrightarrow> justified (collects X S) t"
  by (erule justified_mono) (rule collects_mono)

lemma tr_gc_delete:
  assumes "R v"
  shows "tr (gc_delete X v) (\<lambda>_. justified (collects X R))"
proof -
  have two: "justified (collects X R) [AccountCall (StatusUpdate (deleting_account X t v)) None v', AccountCall (Delete v') e w]"
    if "\<not> condition_true X (a_conditions v) BucketSAConditionDeleting" for t v' e w
  proof -
    have "justified (collects X R) ([AccountCall (StatusUpdate (deleting_account X t v)) None v'] @ [AccountCall (Delete v') e w])"
      by (intro justified_last justified_calm) (use assms that in auto)
    then show ?thesis by simp
  qed
  have one: "justified (collects X R) [AccountCall (StatusUpdate (deleting_account X t v)) e v']" for t e v'
    by (rule justified_calm) (use assms in auto)
  have gone: "justified (collects X R) [AccountCall (Delete v) e w]"
    if "condition_true X (a_conditions v) BucketSAConditionDeleting" for e w
    by (rule justified_calm) (use assms that in auto)
  show ?thesis
    unfolding gc_delete_def deleting_account_def [symmetric]
    by (intro tr_intros) (auto simp: one two split: if_splits intro: gone)
qed

lemma tr_gc_each:
  assumes clock: "\<And>w. fst (clock X w) \<le> T" and "\<And>a. a \<in> set vs \<Longrightarrow> ripe T ttl a \<Longrightarrow> R a"
  shows "tr (gc_each X ttl vs) (\<lambda>_. justified (collects X R))"
  using assms(2)
proof (induction vs)
  case (Cons v vs)
  have rest: "tr (gc_each X ttl vs) (\<lambda>_ u. justified (collects X R) (t @ u))" if "justified (collects X R) t" for t
    by (rule tr_mono [OF Cons.IH]) (use Cons.prems that in \<open>auto intro: justified_append\<close>)
  show ?case
    unfolding gc_each.simps
  proof (intro tr_bind tr_gc_scan [OF clock], goal_cases)
    case 1
    then show ?case using rest [of "[]"] by (auto intro!: tr_intros)
  next
    case 2
    show ?case
    proof (cases "ripe T ttl v")
      case True
      then have "R v" using Cons.prems by simp
      have "tr (gc_delete X v) (\<lambda>_. justified (collects X R))" by (rule tr_gc_delete, fact)
      then show ?thesis
        using rest [of "[]"] by (auto intro!: tr_intros elim!: tr_mono simp: rest intro: justified_append)
    next
      case False
      then have "\<not> waits (last (a_conditions v)) \<or> a_conditions v = []" using 2 by (auto simp: ripe_def)
      then show ?thesis using rest [of "[]"] by (auto intro!: tr_intros intro: justified_append)
    qed
  qed
qed (simp add: tr_return)

text \<open>The accounts a tick may act on are those the API server listed.\<close>

definition listed_ripe :: "int \<Rightarrow> int \<Rightarrow> call list \<Rightarrow> account \<Rightarrow> bool" where
  "listed_ripe T ttl t a \<longleftrightarrow> (\<exists>items. ListAccounts None None items \<in> set t \<and> a \<in> set items \<and> ripe T ttl a)"

lemma listed_ripe_append: "listed_ripe T ttl t a \<or> listed_ripe T ttl u a \<Longrightarrow> listed_ripe T ttl (t @ u) a"
  by (auto simp: listed_ripe_def)

lemma tr_gc_tick:
  assumes clock: "\<And>w. fst (clock X w) \<le> T"
  shows "tr (gc_tick X ttl) (\<lambda>_ t. justified (collects X (listed_ripe T ttl t)) t)"
proof -
  have each: "tr (gc_each X ttl items) (\<lambda>_ u. justified (collects X (listed_ripe T ttl (ListAccounts None None items # u)))
      (ListAccounts None None items # u))" for items
  proof (rule tr_mono [OF tr_gc_each [OF clock, of items ttl "\<lambda>a. a \<in> set items \<and> ripe T ttl a"]])
    fix u assume u: "justified (collects X (\<lambda>a. a \<in> set items \<and> ripe T ttl a)) u"
    show "justified (collects X (listed_ripe T ttl (ListAccounts None None items # u))) (ListAccounts None None items # u)"
      by (rule justified_Cons [OF _ collected_mono [OF u]]) (auto simp: listed_ripe_def)
  qed simp
  show ?thesis
    unfolding gc_tick_def by (intro tr_intros) (use each in \<open>auto intro!: justified_calm\<close>)
qed

lemma tr_gc:
  assumes clock: "\<And>w. fst (clock X w) \<le> T"
  shows "tr (gc X ttl n) (\<lambda>_ t. justified (collects X (listed_ripe T ttl t)) t)"
proof (induction n)
  case (Suc n)
  show ?case
    unfolding gc.simps
  proof (rule tr_bind, rule tr_mono [OF tr_gc_tick [OF clock]], rule tr_mono [OF Suc])
    fix t u
    assume "justified (collects X (listed_ripe T ttl t)) t" and "justified (collects X (listed_ripe T ttl u)) u"
    then show "justified (collects X (listed_ripe T ttl (t @ u))) (t @ u)"
      by (intro justified_append) (erule collected_mono, simp add: listed_ripe_append)+
  qed
qed (simp add: tr_return)

section \<open>The collector\<close>


text \<open>A world at time 1000 with an account whose deletion is pending since time 0, and one with an error after that.\<close>

definition pending_condition :: condition where
  "pending_condition = cond ''DeletionPending'' ConditionTrue ''DanglingServiceAccount'' '''' 0"

definition error_condition :: condition where
  "error_condition = cond ''Error'' ConditionTrue ''ErrCreatePolicy'' '''' 0"

definition dangling_world :: "condition list \<Rightarrow> sim" where
  "dangling_world cs = demo_world\<lparr>sim_accounts := [(app_key, live_account cs)], sim_clock := 1000\<rparr>"

lemmas gc_run_defs = account_run_defs gc_tick_def gc_delete_def dangling_world_def pending_condition_def error_condition_def

text \<open>The first is collected, the second never is, because the last condition decides.\<close>

lemma gc_forgets_failed_accounts:
  "\<exists>v e v'. AccountCall (Delete v) e v' \<in> set (calls (gc ref_env 60 1) (start (dangling_world [pending_condition])))"
  "list_all (\<lambda>c. \<exists>l. c = ListAccounts None None l)
     (calls (gc ref_env 60 1) (start (dangling_world [pending_condition, error_condition])))"
  by (simp_all add: gc_run_defs)

text \<open>The clock of the reference environment is not bounded, so the witness stops it.\<close>

definition stopped_env :: "sim env" where
  "stopped_env = ref_env\<lparr>clock := (\<lambda>w. (1000, w))\<rparr>"


section \<open>The index\<close>

text \<open>
  C27. A bucket is found by the account that controls it. When the bucket reconciler made an
  account the controller of a bucket whose owner references are well formed, the index
  yields exactly the name of this account, even if another account was its controller before;
  for a bucket without a controller, and for one controlled by an object of another group,
  version or kind, it yields nothing.
\<close>
theorem account_index_follows_controller:
  assumes "controller_promise X" and "group_version_promise X" and "owners_ok X (om_ownerReferences (b_meta b))"
    and "gvk_for_object X (AnyAccount a) = Inr \<lparr>gvk_group_version = GroupVersion, gvk_kind = ''BucketServiceAccount''\<rparr>"
  shows "(\<exists>m. ForceControllerReference X (account_object a) (b_meta b) = Inr m \<and> account_index X (b\<lparr>b_meta := m\<rparr>) = [a_name a])
     \<and> (filter is_controller (om_ownerReferences (b_meta b)) = [] \<longrightarrow> account_index X b = [])
     \<and> (\<forall>r. get_controller_of X (om_ownerReferences (b_meta b)) = Some r \<and>
          (or_apiVersion r \<noteq> group_version_string X GroupVersion \<or> or_kind r \<noteq> ''BucketServiceAccount'') \<longrightarrow> account_index X b = [])"
proof -
  let ?g = "\<lparr>gvk_group_version = GroupVersion, gvk_kind = ''BucketServiceAccount''\<rparr>"
  let ?ref = "controller_ref X ?g (a_meta a)" and ?refs = "om_ownerReferences (b_meta b)"
  have key: "ref_key X ?ref \<noteq> None" using controller_ref_key [OF assms(2), of ?g] by simp
  have "get_controller_of X (forced X ?ref ?refs) = Some ?ref"
    by (rule get_controller_filter [OF assms(1) forced_owners(2) [OF assms(3) controller_ref_is_controller key]])
  moreover have "get_controller_of X ?refs = None" if "filter is_controller ?refs = []"
    using that assms(1)
    by (simp add: controller_promise_def is_controller_def [abs_def] List.find_None_iff filter_empty_conv)
  ultimately show ?thesis
    using assms(4) force_ref_forced [OF assms(1,3) key]
    by (auto simp: ForceControllerReference_def account_object_def account_index_def controller_ref_def)
qed

theorem account_index_follows_controller_witness:
  "\<exists>m. ForceControllerReference ref_env (account_object (live_account [])) (b_meta (zero_bucket\<lparr>b_meta := demo_owned\<rparr>)) = Inr m
     \<and> account_index ref_env (zero_bucket\<lparr>b_meta := m\<rparr>) = [''app'']"
proof -
  have "owners_ok ref_env (om_ownerReferences (b_meta (zero_bucket\<lparr>b_meta := demo_owned\<rparr>)))"
    by (simp add: owners_ok_def demo_owned_def ref_env_def ref_key_def ref_parse_gv_def is_controller_def)
  moreover have "gvk_for_object ref_env (AnyAccount (live_account [])) =
      Inr \<lparr>gvk_group_version = GroupVersion, gvk_kind = ''BucketServiceAccount''\<rparr>"
    by (simp add: ref_env_def ref_gvk_def)
  moreover have "a_name (live_account []) = ''app''" by (simp add: live_account_def new_meta_def)
  ultimately show ?thesis
    using account_index_follows_controller [OF ref_controller_promise ref_group_version_promise] by fastforce
qed

section \<open>Accounts of two namespaces\<close>

definition other_key :: nsname where
  "other_key = \<lparr>nn_name = ''app'', nn_namespace = ''other''\<rparr>"

definition shared_world :: sim where
  "shared_world = demo_world\<lparr>
     sim_accounts := [(app_key, live_account [creating_condition]),
       (other_key, (live_account [creating_condition])\<lparr>a_meta := (a_meta (live_account []))\<lparr>om_namespace := ''other''\<rparr>\<rparr>)],
     sim_users := [name ''app''], sim_keys := 1, sim_keys_of := [(name ''app'', ''AK'')],
     sim_secrets := (meta_key (sec_meta account_credentials), account_credentials) # sim_secrets demo_world\<rparr>"


end
