(* ===== verification/System.thy ===== *)
theory System imports AccountProperties BucketProperties BucketWebhook AccountWebhook Collector begin

text \<open>
  The controller as a whole: its reconcilers, its webhooks and its collector run side by side
  and interleave their calls. The theory states which calls are authorised by what the
  controller was told before, shows it of each component through one contract, and proves
  that it holds of every history of the running system.
\<close>

section \<open>What authorises a call\<close>

text \<open>
  \<open>authorised X C c\<close>: the calls \<open>C\<close> that came before, with their answers, allow the call \<open>c\<close>.
  Buckets and providers are never created or deleted in Kubernetes; whatever changes MinIO
  is for an object that the API server showed, and destruction needs one that is under
  deletion and was announced to be.
\<close>

fun authorised :: "'w env \<Rightarrow> call set \<Rightarrow> call \<Rightarrow> bool" where
  "authorised X C (MinioCall _ (RemoveBucketWithOptions n _) _) =
     (\<exists>req b. BucketCall (Get req) None b \<in> C \<and> deleted b \<and> condition_true X (b_conditions b) BucketConditionDeleting
        \<and> bs_reclaimPolicy (b_spec b) = BucketReclaimDelete \<and> n = b_name b)"
| "authorised X C (MinioCall _ (MakeBucket n) _) = (\<exists>req b. BucketCall (Get req) None b \<in> C \<and> \<not> deleted b \<and> n = b_name b)"
| "authorised X C (MinioCall _ (RemoveBucket n) _) = (\<exists>req b. BucketCall (Get req) None b \<in> C \<and> \<not> deleted b)"
| "authorised X C (MinioCall _ (RemoveUser u) _) =
     (\<exists>req a. AccountCall (Get req) None a \<in> C \<and> account_deleted a
        \<and> condition_true X (a_conditions a) BucketSAConditionDeleting \<and> u = name (a_name a))"
| "authorised X C (MinioCall _ (AddUser u _) _) = (\<exists>v a. AccountCall v None a \<in> C \<and> u = name (a_name a))"
| "authorised X C (MinioCall _ (AddServiceAccount u) _) = (\<exists>v a. AccountCall v None a \<in> C \<and> u = name (a_name a))"
| "authorised X C (MinioCall _ (DeleteServiceAccount k) _) =
     ((\<exists>v a. AccountCall v None a \<in> C) \<or> (\<exists>req b. BucketCall (Get req) None b \<in> C \<and> k = name (b_name b)))"
| "authorised X C (MinioCall _ (AddCannedPolicy _ _) _) = (\<exists>v a. AccountCall v None a \<in> C)"
| "authorised X C (MinioCall _ (SetPolicy _ _ g) _) = (\<not> g \<and> (\<exists>v a. AccountCall v None a \<in> C))"
| "authorised X C (SecretCall (Get _) _ _) = True"
| "authorised X C (SecretCall _ _ _) =
     ((\<exists>v a. AccountCall v None a \<in> C) \<or> (\<exists>req b. BucketCall (Get req) None b \<in> C \<and> \<not> deleted b))"
| "authorised X C (BucketCall (Create _) _ _) = False"
| "authorised X C (BucketCall (Delete _) _ _) = False"
| "authorised X C (BucketCall (Update _) _ _) = (\<exists>req b. BucketCall (Get req) None b \<in> C)"
| "authorised X C (BucketCall (StatusUpdate _) _ _) = (\<exists>req b. BucketCall (Get req) None b \<in> C)"
| "authorised X C (AccountCall (Create q) _ _) = (\<exists>req b. BucketCall (Get req) None b \<in> C \<and> \<not> deleted b \<and> q = account_for b)"
| "authorised X C (AccountCall (Delete _) _ _) = (\<exists>items. ListAccounts None None items \<in> C)"
| "authorised X C (AccountCall (Update _) _ _) = (\<exists>req a. AccountCall (Get req) None a \<in> C)"
| "authorised X C (ProviderCall (Create _) _ _) = False"
| "authorised X C (ProviderCall (Update _) _ _) = False"
| "authorised X C (ProviderCall (Delete _) _ _) = False"
| "authorised X C _ = True"

lemma authorised_mono: "authorised X C c \<Longrightarrow> C \<subseteq> D \<Longrightarrow> authorised X D c"
  by (cases "(X, C, c)" rule: authorised.cases) (simp_all, (blast | auto)+)

text \<open>A trace in which every call is authorised by the calls before it.\<close>

definition orderly :: "'w env \<Rightarrow> call list \<Rightarrow> bool" where
  "orderly X t \<longleftrightarrow> (\<forall>us c vs. t = us @ c # vs \<longrightarrow> authorised X (set us) c)"

lemma orderly_Nil [simp]: "orderly X []"
  by (simp add: orderly_def)

lemma orderly_snoc: "orderly X (t @ [c]) \<longleftrightarrow> orderly X t \<and> authorised X (set t) c"
proof
  assume "orderly X (t @ [c])"
  then show "orderly X t \<and> authorised X (set t) c" unfolding orderly_def by force
next
  assume a: "orderly X t \<and> authorised X (set t) c"
  show "orderly X (t @ [c])"
    unfolding orderly_def
  proof (intro allI impI)
    fix us d vs assume s: "t @ [c] = us @ d # vs"
    show "authorised X (set us) d"
    proof (cases vs rule: rev_cases)
      case Nil
      then show ?thesis using s a by simp
    next
      case (snoc ws e)
      then have "t = us @ d # ws" using s by simp
      then show ?thesis using a unfolding orderly_def by blast
    qed
  qed
qed

lemma orderly_append: "orderly X t \<Longrightarrow> (\<And>c. c \<in> set u \<Longrightarrow> authorised X (set t) c) \<Longrightarrow> orderly X (t @ u)"
proof (induction u rule: rev_induct)
  case (snoc c u)
  then have "orderly X ((t @ u) @ [c])"
    unfolding orderly_snoc by (auto intro: authorised_mono)
  then show ?case by simp
qed simp

lemma orderly_calm: "(\<And>c. c \<in> set t \<Longrightarrow> authorised X {} c) \<Longrightarrow> orderly X t"
  using orderly_append [of X "[]" t] by simp

text \<open>A run that is told of an object first, and whose other calls this authorises.\<close>

lemma orderly_run:
  assumes "authorised X {} c" and "\<And>d. d \<in> set u \<Longrightarrow> authorised X {c} d"
  shows "orderly X (c # u)"
proof -
  have "orderly X [c]" using assms(1) orderly_snoc [of X "[]" c] by simp
  from orderly_append [OF this, of u] assms(2) show ?thesis by simp
qed

section \<open>The contract of a component\<close>

locale component =
  fixes X :: "'w env"
    and run :: "'r \<Rightarrow> ('w, 'a) handler"
  assumes obeys: "condition_promise X \<Longrightarrow> tr (run r) (\<lambda>_. orderly X)"
begin

lemma orderly_calls: "condition_promise X \<Longrightarrow> orderly X (calls (run r) s)"
  using trD [OF obeys] .

end

text \<open>A handler whose calls change nothing is a component.\<close>

lemma read_only_authorised: "read_only c \<Longrightarrow> authorised X C c"
  by (cases c rule: read_only.cases) simp_all

lemma reader_obeys: "tr m (\<lambda>_. list_all read_only) \<Longrightarrow> tr m (\<lambda>_. orderly X)"
  by (erule tr_mono) (auto simp: list_all_iff read_only_authorised intro: orderly_calm)

lemma deletion_authorised:
  "deletion_call X b c \<Longrightarrow> deleted b \<Longrightarrow> authorised X {BucketCall (Get req) None b} c"
  by (cases "(X, b, c)" rule: deletion_call.cases) auto

lemma prepare_authorised:
  "prepare_call X b c \<Longrightarrow> authorised X {BucketCall (Get req) None b} c"
  by (cases "(X, b, c)" rule: prepare_call.cases) auto

lemma account_step_authorised:
  "account_step_call b c \<Longrightarrow> \<not> deleted b \<Longrightarrow> authorised X {BucketCall (Get req) None b} c"
  by (cases "(b, c)" rule: account_step_call.cases) auto

lemma converge_authorised:
  assumes "converge_call X b c" and "\<not> deleted b"
  shows "authorised X {BucketCall (Get req) None b} c"
proof -
  have "authorised X {BucketCall (Get req) None b} (SecretCall v e s)" for v e s
    using assms(2) by (cases v) auto
  then show ?thesis
    using assms account_step_authorised [of b c X req] by (cases "(X, b, c)" rule: converge_call.cases) auto
qed

interpretation bucket_component: component X "bucket_Reconcile X" for X
proof
  fix req assume "condition_promise X"
  from bucket_run [OF this, of req] show "tr (bucket_Reconcile X req) (\<lambda>_. orderly X)"
  proof (rule tr_mono)
    fix r t assume "returned r \<and> bucket_run_shape X req t"
    then obtain e b u where t: "t = BucketCall (Get req) e b # u" and u: "e \<noteq> None \<longrightarrow> u = []"
      and c: "e = None \<and> deleted b \<longrightarrow> list_all (deletion_call X b) u"
        "e = None \<and> \<not> deleted b \<and> \<not> prepared X b \<longrightarrow> list_all (prepare_call X b) u"
        "e = None \<and> \<not> deleted b \<and> prepared X b \<longrightarrow> list_all (converge_call X b) u"
      unfolding bucket_run_shape_def by blast
    show "orderly X t"
      unfolding t
    proof (rule orderly_run)
      fix d assume d: "d \<in> set u"
      then have e: "e = None" using u by (cases e) auto
      show "authorised X {BucketCall (Get req) e b} d"
        using c d deletion_authorised prepare_authorised converge_authorised unfolding e by (metis list_all_iff)
    qed simp
  qed
qed

lemma closing_authorised:
  "closing_call X a c \<Longrightarrow> account_deleted a \<Longrightarrow> authorised X {AccountCall (Get req) None a} c"
  by (cases "(X, a, c)" rule: closing_call.cases) auto

lemma serving_authorised: "serving_call b c \<Longrightarrow> AccountCall v None b \<in> C \<Longrightarrow> authorised X C c"
  by (cases "(b, c)" rule: serving_call.cases) auto

interpretation account_component: component X "account_Reconcile X" for X
proof
  fix req assume cp: "condition_promise X"
  from account_run [OF cp account_converge_calls [OF cp], of req] show "tr (account_Reconcile X req) (\<lambda>_. orderly X)"
  proof (rule tr_mono)
    fix r t assume "account_runs X req (\<lambda>b r. list_all (serving_call b)) r t"
    then show "orderly X t"
    proof cases
      case (closing a u)
      then show ?thesis by (auto intro!: orderly_run closing_authorised simp: list_all_iff)
    next
      case (serving b pre u)
      have "orderly X pre" using serving(2) by (auto simp: current_def intro!: orderly_run)
      moreover obtain v where "AccountCall v None b \<in> set pre" using current_told [OF serving(2)] by metis
      ultimately show ?thesis using serving(1,3) by (auto intro!: orderly_append serving_authorised simp: list_all_iff)
    qed (auto intro!: orderly_run)
  qed
qed

lemma provider_authorised: "provider_allowed req c \<Longrightarrow> authorised X C c"
  by (cases "(req, c)" rule: provider_allowed.cases) auto

interpretation provider_component: component X "provider_Reconcile X" for X
  by unfold_locales (rule tr_mono [OF provider_footprint],
    auto simp: list_all_iff intro!: orderly_calm provider_authorised)

text \<open>The collector deletes only after it listed.\<close>

lemma tr_gc_delete_calls: "tr (gc_delete X v) (\<lambda>_. list_all (\<lambda>c. \<exists>q e q'. c = AccountCall (StatusUpdate q) e q' \<or> c = AccountCall (Delete q) e q'))"
  unfolding gc_delete_def by (intro tr_intros) (auto intro!: tr_intros split: if_splits)

lemma tr_gc_scan_silent: "tr (gc_scan X ttl found cs) (\<lambda>_ t. t = [])"
proof (induction cs arbitrary: found)
  case (Cons d cs)
  then show ?case unfolding gc_scan.simps Let_def by (auto intro!: tr_intros)
qed (simp add: tr_return)

lemma tr_gc_each_calls:
  "tr (gc_each X ttl vs) (\<lambda>_. list_all (\<lambda>c. \<exists>q e q'. c = AccountCall (StatusUpdate q) e q' \<or> c = AccountCall (Delete q) e q'))"
proof (induction vs)
  case (Cons v vs)
  show ?case
    unfolding gc_each.simps
  proof (rule tr_bind, rule tr_mono [OF tr_gc_scan_silent])
    fix r and t :: "call list" assume "t = []"
    then show "tr (do {_ \<leftarrow> if r = Some True then gc_delete X v else ret (); gc_each X ttl vs})
        (\<lambda>b u. list_all (\<lambda>c. \<exists>q e q'. c = AccountCall (StatusUpdate q) e q' \<or> c = AccountCall (Delete q) e q') (t @ u))"
      by (intro tr_intros) (auto intro!: tr_mono [OF tr_gc_delete_calls] tr_mono [OF Cons.IH])
  qed
qed (simp add: tr_return)

interpretation collector_component: component X "gc_tick X" for X
proof
  fix ttl
  have "orderly X (ListAccounts None None items # u)"
    if "list_all (\<lambda>c. \<exists>q e q'. c = AccountCall (StatusUpdate q) e q' \<or> c = AccountCall (Delete q) e q') u" for items u
    using that by (intro orderly_run) (auto simp: list_all_iff)
  moreover have "orderly X [ListAccounts None e items]" for e items
    by (rule orderly_calm) simp
  ultimately show "tr (gc_tick X ttl) (\<lambda>_. orderly X)"
    unfolding gc_tick_def by (intro tr_intros) (auto intro!: tr_mono [OF tr_gc_each_calls])
qed

text \<open>The webhooks, through the contract of the validators.\<close>

lemma default_reads: "tr (bucket_Default X obj) (\<lambda>_. list_all read_only)"
  unfolding bucket_Default_def by (cases obj) (auto intro!: tr_intros)

interpretation bucket_default_component: component X "bucket_Default X" for X
  by unfold_locales (rule reader_obeys [OF default_reads])

interpretation bucket_create_component: component X "bucket_ValidateCreate X" for X
  by unfold_locales (rule reader_obeys [OF bucket_create.reads])

interpretation bucket_update_component: component X "\<lambda>(old, new). bucket_ValidateUpdate X old new" for X
  by unfold_locales (rule reader_obeys [OF bucket_update.reads])

interpretation bucket_delete_component: component X "bucket_ValidateDelete X" for X
  by unfold_locales (rule reader_obeys [OF bucket_delete.reads])

interpretation provider_create_component: component X "provider_ValidateCreate X" for X
  by unfold_locales (rule reader_obeys [OF provider_create.reads])

interpretation provider_update_component: component X "\<lambda>(old, new). provider_ValidateUpdate X old new" for X
  by unfold_locales (rule reader_obeys [OF provider_update.reads])

interpretation provider_delete_component: component X "provider_ValidateDelete X" for X
  by unfold_locales (rule reader_obeys [OF provider_delete.reads])

interpretation account_create_component: component X "\<lambda>(request, obj). account_ValidateCreate X sa request obj" for X sa
  by unfold_locales (rule reader_obeys [OF account_create.reads])

interpretation account_update_component: component X "\<lambda>(request, old, new). account_ValidateUpdate X sa request old new" for X sa
  by unfold_locales (rule reader_obeys [OF account_update.reads])

interpretation account_delete_component: component X "\<lambda>(request, obj). account_ValidateDelete X sa request obj" for X sa
  by unfold_locales (rule reader_obeys [OF account_delete.reads])

section \<open>The running system\<close>

text \<open>The trace of one run of a handler, started in any state of the world.\<close>

inductive handler_run :: "'w env \<Rightarrow> string \<Rightarrow> call list \<Rightarrow> bool" for X sa where
  reconciles_bucket: "handler_run X sa (calls (bucket_Reconcile X req) (s :: 'w st))"
| reconciles_account: "handler_run X sa (calls (account_Reconcile X req) (s :: 'w st))"
| reconciles_provider: "handler_run X sa (calls (provider_Reconcile X req) (s :: 'w st))"
| collects_accounts: "handler_run X sa (calls (gc_tick X ttl) (s :: 'w st))"
| defaults_bucket: "handler_run X sa (calls (bucket_Default X obj) (s :: 'w st))"
| creates_bucket: "handler_run X sa (calls (bucket_ValidateCreate X obj) (s :: 'w st))"
| updates_bucket: "handler_run X sa (calls (bucket_ValidateUpdate X old new) (s :: 'w st))"
| deletes_bucket: "handler_run X sa (calls (bucket_ValidateDelete X obj) (s :: 'w st))"
| creates_provider: "handler_run X sa (calls (provider_ValidateCreate X obj) (s :: 'w st))"
| updates_provider: "handler_run X sa (calls (provider_ValidateUpdate X old new) (s :: 'w st))"
| deletes_provider: "handler_run X sa (calls (provider_ValidateDelete X obj) (s :: 'w st))"
| creates_account: "handler_run X sa (calls (account_ValidateCreate X sa request obj) (s :: 'w st))"
| updates_account: "handler_run X sa (calls (account_ValidateUpdate X sa request old new) (s :: 'w st))"
| deletes_account: "handler_run X sa (calls (account_ValidateDelete X sa request obj) (s :: 'w st))"

lemma handler_run_orderly:
  assumes cp: "condition_promise X" and "handler_run X sa t"
  shows "orderly X t"
  using assms(2)
proof cases
  case (updates_bucket old new s)
  then show ?thesis using bucket_update_component.orderly_calls [OF cp, of "(old, new)"] by simp
next
  case (updates_provider old new s)
  then show ?thesis using provider_update_component.orderly_calls [OF cp, of "(old, new)"] by simp
next
  case (creates_account r obj s)
  then show ?thesis using account_create_component.orderly_calls [OF cp, of sa "(r, obj)"] by simp
next
  case (updates_account r old new s)
  then show ?thesis using account_update_component.orderly_calls [OF cp, of sa "(r, old, new)"] by simp
next
  case (deletes_account r obj s)
  then show ?thesis using account_delete_component.orderly_calls [OF cp, of sa "(r, obj)"] by simp
qed (simp_all add: bucket_component.orderly_calls account_component.orderly_calls provider_component.orderly_calls
  collector_component.orderly_calls bucket_default_component.orderly_calls bucket_create_component.orderly_calls
  bucket_delete_component.orderly_calls provider_create_component.orderly_calls provider_delete_component.orderly_calls cp)

text \<open>
  The system is the list of the runs that are under way, each with the calls it still has to
  make, and the log of everything that was called. A run starts, makes its next call, or
  stops where it is, because the process ended or lost its leadership.
\<close>

type_synonym system = "call list list \<times> call list"

inductive sys_step :: "'w env \<Rightarrow> string \<Rightarrow> system \<Rightarrow> system \<Rightarrow> bool" for X sa where
  starts: "handler_run X sa t \<Longrightarrow> sys_step X sa (runs, log) (t # runs, log)"
| performs: "sys_step X sa (us @ (c # t) # vs, log) (us @ t # vs, log @ [c])"
| stops: "sys_step X sa (us @ t # vs, log) (us @ vs, log)"

inductive_cases sys_stepE: "sys_step X sa (runs, log) S"

inductive reachable :: "'w env \<Rightarrow> string \<Rightarrow> system \<Rightarrow> bool" for X sa where
  idle: "reachable X sa ([], [])"
| moves: "reachable X sa S \<Longrightarrow> sys_step X sa S S' \<Longrightarrow> reachable X sa S'"

text \<open>The invariant: the log is orderly, and each run goes on from calls that are in the log.\<close>

definition sound :: "'w env \<Rightarrow> system \<Rightarrow> bool" where
  "sound X S \<longleftrightarrow> orderly X (snd S) \<and> (\<forall>t \<in> set (fst S). \<exists>p. orderly X (p @ t) \<and> set p \<subseteq> set (snd S))"

lemma orderly_next: "orderly X (p @ c # t) \<Longrightarrow> authorised X (set p) c"
  unfolding orderly_def by blast

lemma sound_step:
  assumes cp: "condition_promise X" and "sys_step X sa S S'" and s: "sound X S"
  shows "sound X S'"
  using assms(2)
proof cases
  case (starts t runs log)
  then show ?thesis using s handler_run_orderly [OF cp]
    by (auto simp: sound_def intro: exI [of _ "[]"])
next
  case (performs us c t vs log)
  then obtain p where p: "orderly X (p @ c # t)" "set p \<subseteq> set log" using s by (auto simp: sound_def)
  then have "authorised X (set log) c" by (rule authorised_mono [OF orderly_next])
  then have "orderly X (log @ [c])" using s performs by (simp add: sound_def orderly_snoc)
  moreover have "\<exists>p. orderly X (p @ r) \<and> set p \<subseteq> set (log @ [c])" if "r \<in> set (us @ t # vs)" for r
  proof (cases "r = t")
    case True
    have "orderly X ((p @ [c]) @ t) \<and> set (p @ [c]) \<subseteq> set (log @ [c])" using p by auto
    then show ?thesis unfolding True by blast
  next
    case False
    then have "r \<in> set (fst S)" using that performs by auto
    moreover have "\<forall>r \<in> set (fst S). \<exists>q. orderly X (q @ r) \<and> set q \<subseteq> set log"
      using s performs by (simp add: sound_def)
    ultimately obtain q where "orderly X (q @ r)" "set q \<subseteq> set log" by blast
    then show ?thesis by (intro exI [of _ q]) auto
  qed
  ultimately show ?thesis using performs by (simp add: sound_def)
next
  case (stops us t vs log)
  then show ?thesis using s by (auto simp: sound_def)
qed

lemma reachable_sound: "condition_promise X \<Longrightarrow> reachable X sa S \<Longrightarrow> sound X S"
  by (rotate_tac, induction rule: reachable.induct) (simp add: sound_def, blast intro: sound_step)

text \<open>A single run can be performed from the idle state.\<close>

lemma run_reachable:
  assumes "handler_run X sa (us @ vs)"
  shows "reachable X sa ([vs], us)"
  using assms
proof (induction us arbitrary: vs rule: rev_induct)
  case Nil
  then show ?case using reachable.moves [OF reachable.idle sys_step.starts] by fastforce
next
  case (snoc c us)
  then have "reachable X sa ([c # vs], us)" by simp
  then show ?case using reachable.moves sys_step.performs [of X sa "[]" c vs "[]" us] by fastforce
qed

section \<open>Properties\<close>

text \<open>
  C2. Every call of the running system is authorised. However the reconcilers, the webhooks
  and the collector interleave, and wherever their runs are cut off, in every history of
  calls each call is authorised by the calls before it: no bucket is removed with its
  contents and no user is removed unless the API server had shown its object under deletion
  and announced, with the reclaim policy Delete and its own name for a bucket; buckets and
  users are made for objects that were shown; accounts are deleted after they were listed;
  and no Bucket or provider is ever created or deleted in Kubernetes.
\<close>
theorem system_authorised:
  assumes "condition_promise X" and "reachable X sa (runs, us @ c # vs)"
  shows "authorised X (set us) c"
  using reachable_sound [OF assms] orderly_next [of X us c vs] by (simp add: sound_def)

theorem system_authorised_witness:
  "\<exists>runs us c vs a. reachable ref_env ''controller'' (runs, us @ MinioCall c (RemoveBucketWithOptions ''data'' True) a # vs)
     \<and> (\<exists>req b. BucketCall (Get req) None b \<in> set us \<and> bs_reclaimPolicy (b_spec b) = BucketReclaimDelete)"
proof -
  let ?t = "calls (bucket_Reconcile ref_env data_key) (start (with_bucket dying_bucket [''data'']))"
  obtain c where "MinioCall c (RemoveBucketWithOptions ''data'' True) (Done None) \<in> set ?t"
    using dying_run(1) by blast
  then obtain us vs where "?t = us @ MinioCall c (RemoveBucketWithOptions ''data'' True) (Done None) # vs"
    by (meson split_list)
  moreover have "handler_run ref_env ''controller'' ?t" by (rule reconciles_bucket)
  ultimately have r: "reachable ref_env ''controller'' ([[]], us @ MinioCall c (RemoveBucketWithOptions ''data'' True) (Done None) # vs)"
    using run_reachable [of ref_env "''controller''" ?t "[]"] by simp
  from system_authorised [OF ref_condition_promise r]
  have "\<exists>req b. BucketCall (Get req) None b \<in> set us \<and> bs_reclaimPolicy (b_spec b) = BucketReclaimDelete"
    unfolding authorised.simps by blast
  with r show ?thesis by blast
qed

end
