(* ===== verification/Startup.thy ===== *)
theory Startup imports Base64 AccountWebhook Accounts begin

text \<open>
  \<^verbatim>\<open>src/main.go\<close> and the \<^verbatim>\<open>SetupWithManager\<close> and \<^verbatim>\<open>SetupWebhookWithManager\<close> methods of
  the three reconcilers: how the process learns the name of its own service account, on which
  the admission of service accounts rests, and in which order it registers its parts before
  the manager starts. Parsing of PEM, X.509 and JSON, and the registration with the manager,
  are parameters; a failing step ends the process with \<^verbatim>\<open>os.Exit(1)\<close> after a log line.
\<close>

section \<open>The identity of the controller\<close>

text \<open>The two fields of \<^verbatim>\<open>rest.Config\<close> that are read; \<^verbatim>\<open>CertData\<close> is a slice, which may be nil.\<close>

record rest_config =
  rc_certData :: "byte list option"
  rc_bearerToken :: string

text \<open>
  \<^verbatim>\<open>pem.Decode\<close> (the bytes of the first block), \<^verbatim>\<open>x509.ParseCertificate\<close> (the common name of the
  subject) and \<^verbatim>\<open>json.Unmarshal\<close> into a struct whose only field is \<^verbatim>\<open>sub\<close> (its value afterwards).
\<close>

record decoders =
  pem_decode :: "byte list \<Rightarrow> byte list option"
  parse_certificate :: "byte list \<Rightarrow> go_err + string"
  unmarshal_sub :: "byte list \<Rightarrow> go_err + string"

definition find_service_account :: "decoders \<Rightarrow> rest_config \<Rightarrow> string \<Rightarrow> string go" where
  "find_service_account D cfg serviceAccount =
     (case rc_certData cfg of
        Some certData \<Rightarrow>
          (case pem_decode D certData of
             None \<Rightarrow> Exits ''unable to decode cert data''
           | Some b \<Rightarrow>
              (case parse_certificate D b of
                 Inl _ \<Rightarrow> Exits ''unable to parse cert''
               | Inr commonName \<Rightarrow> Returns commonName))
      | None \<Rightarrow>
         (if rc_bearerToken cfg \<noteq> '''' then
            (let parts = split_on (CHR ''.'') (rc_bearerToken cfg) in
             if length parts \<noteq> 3 then Exits ''unable to parse bearer token''
             else case decode (parts ! 1) of
                    None \<Rightarrow> Exits ''unable to decode bearer token''
                  | Some b \<Rightarrow>
                     (case unmarshal_sub D b of
                        Inl _ \<Rightarrow> Exits ''unable to parse bearer token''
                      | Inr subject \<Rightarrow> Returns subject))
          else if serviceAccount \<noteq> '''' then Returns serviceAccount
          else Exits ''unable to find service account''))"

section \<open>The registration\<close>

record manager_options =
  mo_healthProbeBindAddress :: string
  mo_leaderElection :: bool
  mo_leaderElectionID :: string
  mo_leaderElectionReleaseOnCancel :: bool
  mo_port :: nat
  mo_certDir :: string
  mo_metricsBindAddress :: string

text \<open>The steps that are left to the controller-runtime library; types are known by their names.\<close>

datatype startup_step =
    NewManager manager_options
  | IndexField string string
  | StartCollector int int
  | BuildController string "string list"
  | BuildWebhook string bool bool
  | AddHealthzCheck string
  | AddReadyzCheck string
  | StartManager

type_synonym 'w steps = "startup_step \<Rightarrow> 'w \<Rightarrow> go_err option \<times> 'w"
type_synonym ('w, 'a) startup = "('w, startup_step \<times> go_err option, 'a) prog"

definition perform :: "'w steps \<Rightarrow> startup_step \<Rightarrow> ('w, go_err option) startup" where
  "perform S c = ext (S c) (\<lambda>e. (c, e))"

definition bucket_SetupWithManager :: "'w steps \<Rightarrow> ('w, go_err option) startup" where
  "bucket_SetupWithManager S = perform S (BuildController ''Bucket'' [''Secret''])"

text \<open>The collector is a goroutine of its own, with which nothing can go wrong here.\<close>

definition account_SetupWithManager :: "'w steps \<Rightarrow> ('w, go_err option) startup" where
  "account_SetupWithManager S = do {
     err \<leftarrow> perform S (IndexField ''Bucket'' ownerKey);
     case err of
       Some e \<Rightarrow> ret (Some e)
     | None \<Rightarrow> do {
         _ \<leftarrow> ext (\<lambda>w. ((), snd (S (StartCollector (5 * second) (60 * second)) w)))
               (\<lambda>_. (StartCollector (5 * second) (60 * second), None));
         perform S (BuildController ''BucketServiceAccount'' [''Bucket'', ''Secret'']) } }"

definition provider_SetupWithManager :: "'w steps \<Rightarrow> ('w, go_err option) startup" where
  "provider_SetupWithManager S = perform S (BuildController ''BucketProvider'' [])"

definition bucket_SetupWebhookWithManager :: "'w steps \<Rightarrow> ('w, go_err option) startup" where
  "bucket_SetupWebhookWithManager S = perform S (BuildWebhook ''Bucket'' True True)"

definition account_SetupWebhookWithManager :: "'w steps \<Rightarrow> ('w, go_err option) startup" where
  "account_SetupWebhookWithManager S = do {
     err \<leftarrow> perform S (BuildWebhook ''BucketServiceAccount'' False True);
     case err of
       Some e \<Rightarrow> ret (Some e)
     | None \<Rightarrow> perform S (BuildWebhook ''Secret'' False True) }"

definition provider_SetupWebhookWithManager :: "'w steps \<Rightarrow> ('w, go_err option) startup" where
  "provider_SetupWebhookWithManager S = perform S (BuildWebhook ''BucketProvider'' False True)"

section \<open>The program\<close>

text \<open>The values of the command line flags.\<close>

record flags =
  fl_metricsAddr :: string
  fl_probeAddr :: string
  fl_enableLeaderElection :: bool
  fl_certs :: string
  fl_serviceAccount :: string

definition default_flags :: flags where
  "default_flags = \<lparr>fl_metricsAddr = '':8080'', fl_probeAddr = '':8081'', fl_enableLeaderElection = False,
     fl_certs = '''', fl_serviceAccount = ''''\<rparr>"

definition options_of :: "flags \<Rightarrow> manager_options" where
  "options_of f = \<lparr>mo_healthProbeBindAddress = fl_probeAddr f, mo_leaderElection = fl_enableLeaderElection f,
     mo_leaderElectionID = ''58e2baca.linka.cloud'', mo_leaderElectionReleaseOnCancel = True,
     mo_port = 9443, mo_certDir = fl_certs f, mo_metricsBindAddress = fl_metricsAddr f\<rparr>"

text \<open>\<^verbatim>\<open>if err := step; err != nil { log; os.Exit(1) }\<close>, and what comes after it.\<close>

definition or_exit :: "('w, go_err option) startup \<Rightarrow> string \<Rightarrow> ('w, 'a go) startup \<Rightarrow> ('w, 'a go) startup" where
  "or_exit act msg rest = do {
     err \<leftarrow> act;
     case err of Some e \<Rightarrow> ret (Exits msg) | None \<Rightarrow> rest }"

text \<open>
  The program returns the service account it runs as, which the account reconciler holds and
  its admission compares user names with.
\<close>

definition main :: "decoders \<Rightarrow> 'w steps \<Rightarrow> rest_config \<Rightarrow> flags \<Rightarrow> ('w, string go) startup" where
  "main D S cfg f = go_on (find_service_account D cfg (fl_serviceAccount f)) (\<lambda>serviceAccount.
     or_exit (perform S (NewManager (options_of f))) ''unable to start manager'' (
     or_exit (bucket_SetupWithManager S) ''unable to create controller'' (
     or_exit (bucket_SetupWebhookWithManager S) ''unable to create webhook'' (
     or_exit (account_SetupWithManager S) ''unable to create controller'' (
     or_exit (account_SetupWebhookWithManager S) ''unable to create webhook'' (
     or_exit (provider_SetupWithManager S) ''unable to create controller'' (
     or_exit (provider_SetupWebhookWithManager S) ''unable to create webhook'' (
     or_exit (perform S (AddHealthzCheck ''healthz'')) ''unable to set up health check'' (
     or_exit (perform S (AddReadyzCheck ''readyz'')) ''unable to set up ready check'' (
     or_exit (perform S StartManager) ''problem running manager'' (
     ret (Returns serviceAccount))))))))))))"

section \<open>The plan of the start-up\<close>

text \<open>The abstract description: the steps in order, of which a start-up performs the first ones.\<close>

definition plan :: "flags \<Rightarrow> startup_step list" where
  "plan f = [NewManager (options_of f),
     BuildController ''Bucket'' [''Secret''], BuildWebhook ''Bucket'' True True,
     IndexField ''Bucket'' ownerKey, StartCollector (5 * second) (60 * second),
     BuildController ''BucketServiceAccount'' [''Bucket'', ''Secret''],
     BuildWebhook ''BucketServiceAccount'' False True, BuildWebhook ''Secret'' False True,
     BuildController ''BucketProvider'' [], BuildWebhook ''BucketProvider'' False True,
     AddHealthzCheck ''healthz'', AddReadyzCheck ''readyz'', StartManager]"

text \<open>
  \<open>follows cs r t\<close>: the trace \<open>t\<close> performs steps of \<open>cs\<close> in order, all of them successfully
  when the result \<open>r\<close> is a return, and up to and with the first failure when it is an exit.
\<close>

fun follows :: "startup_step list \<Rightarrow> 'a go \<Rightarrow> (startup_step \<times> go_err option) list \<Rightarrow> bool" where
  "follows [] r t = (t = [] \<and> returned r)"
| "follows (c # cs) r t = (case t of
     (d, e) # u \<Rightarrow> d = c \<and> (case e of
        None \<Rightarrow> follows cs r u
      | Some _ \<Rightarrow> u = [] \<and> (\<exists>m. r = Exits m))
   | [] \<Rightarrow> False)"

lemma tr_perform [tr_intros]: "(\<And>e. Q e [(c, e)]) \<Longrightarrow> tr (perform S c) Q"
  unfolding perform_def by (intro tr_ext) simp

lemma main_follows:
  assumes "find_service_account D cfg (fl_serviceAccount f) = Returns sa"
  shows "tr (main D S cfg f) (\<lambda>r t. follows (plan f) r t \<and> (\<forall>v. r = Returns v \<longrightarrow> v = sa))"
  unfolding main_def assms go_on.simps or_exit_def bucket_SetupWithManager_def bucket_SetupWebhookWithManager_def
    account_SetupWithManager_def account_SetupWebhookWithManager_def provider_SetupWithManager_def
    provider_SetupWebhookWithManager_def plan_def
  by (intro tr_intros) auto

section \<open>Properties\<close>

lemma join_three: "h @ CHR ''.'' # p @ CHR ''.'' # g = join [CHR ''.''] [h, p, g]"
  by simp

text \<open>
  C28. Who the controller is, by its token. Without a client certificate, a bearer token of
  three parts decides, whatever the flag says: when its second part is standard base64 of
  claims that name a subject, the subject is the identity. But a part in the URL alphabet of
  base64, which is the one of JSON Web Tokens, with a dash or an underscore ends the process.
\<close>
theorem token_identity:
  assumes "rc_certData cfg = None" and "rc_bearerToken cfg = h @ CHR ''.'' # p @ CHR ''.'' # g"
    and "CHR ''.'' \<notin> set h \<union> set p \<union> set g"
  shows "(\<forall>payload sub. p = encode payload \<and> unmarshal_sub D payload = Inr sub \<longrightarrow>
            find_service_account D cfg serviceAccount = Returns sub)
     \<and> (CHR ''-'' \<in> set p \<or> CHR ''_'' \<in> set p \<longrightarrow>
            find_service_account D cfg serviceAccount = Exits ''unable to decode bearer token'')"
proof -
  have parts: "split_on (CHR ''.'') (rc_bearerToken cfg) = [h, p, g]"
    unfolding assms(2) join_three by (rule split_on_join) (use assms(3) in auto)
  have "decode p = None" if "CHR ''-'' \<in> set p \<or> CHR ''_'' \<in> set p"
    using that decode_foreign [of "CHR ''-''" p] decode_foreign [of "CHR ''_''" p] by (auto simp: alphabet_def)
  then show ?thesis
    using assms(1,2) parts by (auto simp: find_service_account_def Let_def decode_encode)
qed

definition demo_decoders :: decoders where
  "demo_decoders = \<lparr>pem_decode = Some, parse_certificate = (\<lambda>b. Inr ''admin''),
     unmarshal_sub = (\<lambda>b. Inr ''system:serviceaccount:minio:controller'')\<rparr>"

theorem token_identity_witness:
  "find_service_account demo_decoders \<lparr>rc_certData = None, rc_bearerToken = ''e30.'' @ encode [97, 98] @ ''.sig''\<rparr> ''flag''
     = Returns ''system:serviceaccount:minio:controller''"
proof -
  have "CHR ''.'' \<notin> set ''e30'' \<union> set (encode [97, 98]) \<union> set ''sig''"
    by (simp add: Let_def sextet_def alphabet_def)
  then show ?thesis
    using token_identity [of "\<lparr>rc_certData = None, rc_bearerToken = ''e30.'' @ encode [97, 98] @ ''.sig''\<rparr>"
        "''e30''" "encode [97, 98]" "''sig''" demo_decoders "''flag''"]
    by (simp add: demo_decoders_def del: encode.simps)
qed

text \<open>
  C29. The start-up refines its plan. Without an identity nothing is registered and the
  process exits. With one, the steps are performed in the order of the plan, the first step
  that fails is the last and ends the process, and the program returns only when the
  manager ran, as the identity that was found.
\<close>
theorem startup_follows_plan:
  "case find_service_account D cfg (fl_serviceAccount f) of
     Returns sa \<Rightarrow> follows (plan f) (result (main D S cfg f) s) (calls (main D S cfg f) s)
       \<and> result (main D S cfg f) s \<in> {Returns sa} \<union> range Exits
   | Panics m \<Rightarrow> False
   | Exits m \<Rightarrow> result (main D S cfg f) s = Exits m \<and> calls (main D S cfg f) s = []"
proof (cases "find_service_account D cfg (fl_serviceAccount f)")
  case (Returns sa)
  from trD [OF main_follows [OF this], of S s]
  have p: "follows (plan f) (result (main D S cfg f) s) (calls (main D S cfg f) s)"
    "result (main D S cfg f) s = Returns v \<Longrightarrow> v = sa" for v by blast+
  have "follows cs r t \<Longrightarrow> returned r \<or> (\<exists>m. r = Exits m)" for cs t and r :: "string go"
    by (induction cs arbitrary: t) (auto split: list.splits option.splits)
  from this [OF p(1)] show ?thesis
    using p Returns by (cases "result (main D S cfg f) s") auto
next
  case (Panics m)
  then show ?thesis
    by (auto simp: find_service_account_def Let_def split: option.splits sum.splits if_splits)
next
  case (Exits m)
  then show ?thesis by (simp add: main_def)
qed

end
