(* ===== verification/Scheme.thy ===== *)
theory Scheme imports Startup begin

text \<open>
  What happens before \<^verbatim>\<open>main\<close>: \<^verbatim>\<open>src/api/v1alpha1/groupversion_info.go\<close> with the \<^verbatim>\<open>init\<close> functions of
  the three files of the API types, and the \<^verbatim>\<open>init\<close> function of \<^verbatim>\<open>src/main.go\<close>. The API types are
  registered with a builder, and the builder's types with the scheme that the manager gets.
  The builder of controller-runtime and the scheme of apimachinery are parameters.
\<close>

section \<open>The library\<close>

text \<open>
  \<open>'b\<close> is the value of a \<^verbatim>\<open>scheme.Builder\<close>, \<open>'s\<close> of a \<^verbatim>\<open>runtime.Scheme\<close>; Go types are known by their
  names. \<open>recognizes\<close> is \<^verbatim>\<open>Scheme.Recognizes\<close>; a builder has a group version and the types it was given.
\<close>

record ('b, 's) scheme_library =
  new_builder :: "group_version \<Rightarrow> 'b"
  builder_Register :: "'b \<Rightarrow> string list \<Rightarrow> 'b"
  builder_AddToScheme :: "'b \<Rightarrow> 's \<Rightarrow> go_err option \<times> 's"
  builder_version :: "'b \<Rightarrow> group_version"
  builder_types :: "'b \<Rightarrow> string set"
  NewScheme :: 's
  client_go_AddToScheme :: "'s \<Rightarrow> go_err option \<times> 's"
  recognizes :: "'s \<Rightarrow> group_version \<Rightarrow> string \<Rightarrow> bool"

definition scheme_promise :: "('b, 's) scheme_library \<Rightarrow> bool" where
  "scheme_promise L \<longleftrightarrow>
     (\<forall>g. builder_version L (new_builder L g) = g \<and> builder_types L (new_builder L g) = {})
   \<and> (\<forall>b ts. builder_version L (builder_Register L b ts) = builder_version L b
        \<and> builder_types L (builder_Register L b ts) = builder_types L b \<union> set ts)
   \<and> (\<forall>b s s'. builder_AddToScheme L b s = (None, s') \<longrightarrow> (\<forall>g n. recognizes L s' g n \<longleftrightarrow>
        recognizes L s g n \<or> g = builder_version L b \<and> n \<in> builder_types L b))"

section \<open>The package of the API types\<close>

text \<open>The package variable, and what the \<^verbatim>\<open>init\<close> functions of the files make of it, in their order.\<close>

definition SchemeBuilder :: "('b, 's) scheme_library \<Rightarrow> 'b" where
  "SchemeBuilder L = new_builder L GroupVersion"

definition init_bucket_types :: "('b, 's) scheme_library \<Rightarrow> 'b \<Rightarrow> 'b" where
  "init_bucket_types L b = builder_Register L b [''Bucket'', ''BucketList'']"

definition init_bucketprovider_types :: "('b, 's) scheme_library \<Rightarrow> 'b \<Rightarrow> 'b" where
  "init_bucketprovider_types L b = builder_Register L b [''BucketProvider'', ''BucketProviderList'']"

definition init_bucketserviceaccount_types :: "('b, 's) scheme_library \<Rightarrow> 'b \<Rightarrow> 'b" where
  "init_bucketserviceaccount_types L b = builder_Register L b [''BucketServiceAccount'', ''BucketServiceAccountList'']"

definition package_init :: "('b, 's) scheme_library \<Rightarrow> 'b" where
  "package_init L = init_bucketserviceaccount_types L (init_bucketprovider_types L (init_bucket_types L (SchemeBuilder L)))"

text \<open>
  \<^verbatim>\<open>AddToScheme\<close> is a method value: it is bound to the pointer \<^verbatim>\<open>SchemeBuilder\<close> before the \<^verbatim>\<open>init\<close>
  functions run, and adds what the builder holds at the time of the call.
\<close>

definition AddToScheme :: "('b, 's) scheme_library \<Rightarrow> 'b \<Rightarrow> 's \<Rightarrow> go_err option \<times> 's" where
  "AddToScheme L builder s = builder_AddToScheme L builder s"

section \<open>The program's own init function\<close>

text \<open>\<^verbatim>\<open>utilruntime.Must\<close>.\<close>

definition Must :: "go_err option \<times> 's \<Rightarrow> 's go" where
  "Must r = (case r of (None, s) \<Rightarrow> Returns s | (Some e, s) \<Rightarrow> Panics (Error e))"

definition main_init :: "('b, 's) scheme_library \<Rightarrow> 's go" where
  "main_init L = (case Must (client_go_AddToScheme L (NewScheme L)) of
     Returns scheme \<Rightarrow> Must (AddToScheme L (package_init L) scheme)
   | Panics m \<Rightarrow> Panics m
   | Exits m \<Rightarrow> Exits m)"

text \<open>The process: the initialisation, and then \<open>main\<close>.\<close>

definition process :: "('b, 's) scheme_library \<Rightarrow> decoders \<Rightarrow> 'w steps \<Rightarrow> rest_config \<Rightarrow> flags \<Rightarrow> ('w, string go) startup" where
  "process L D S cfg f = go_on (main_init L) (\<lambda>scheme. main D S cfg f)"

section \<open>What is registered\<close>

definition api_types :: "string list" where
  "api_types = [''Bucket'', ''BucketList'', ''BucketProvider'', ''BucketProviderList'',
     ''BucketServiceAccount'', ''BucketServiceAccountList'']"

lemma package_init_builds:
  assumes "scheme_promise L"
  shows "builder_version L (package_init L) = GroupVersion" "builder_types L (package_init L) = set api_types"
  using assms unfolding scheme_promise_def
  by (simp_all add: package_init_def SchemeBuilder_def init_bucket_types_def init_bucketprovider_types_def
      init_bucketserviceaccount_types_def api_types_def insert_commute)

text \<open>The program ends in a panic before \<open>main\<close> unless both registrations succeed; and then:\<close>

lemma main_init_returns:
  "main_init L = Returns s \<longleftrightarrow> (\<exists>s0. client_go_AddToScheme L (NewScheme L) = (None, s0)
     \<and> builder_AddToScheme L (package_init L) s0 = (None, s))"
  by (auto simp: main_init_def Must_def AddToScheme_def split: prod.splits option.splits go.splits)

lemma main_init_registers:
  assumes "scheme_promise L" and "main_init L = Returns s"
  shows "recognizes L s g n \<longleftrightarrow> recognizes L (snd (client_go_AddToScheme L (NewScheme L))) g n
     \<or> g = GroupVersion \<and> n \<in> set api_types"
proof -
  obtain s0 where s0: "client_go_AddToScheme L (NewScheme L) = (None, s0)"
    "builder_AddToScheme L (package_init L) s0 = (None, s)"
    using assms(2) unfolding main_init_returns by blast
  have "recognizes L s g n \<longleftrightarrow> recognizes L s0 g n
     \<or> g = builder_version L (package_init L) \<and> n \<in> builder_types L (package_init L)"
    using assms(1) s0(2) unfolding scheme_promise_def by blast
  then show ?thesis by (simp add: s0(1) package_init_builds [OF assms(1)])
qed

text \<open>The kinds that the controllers read and write are among them.\<close>

lemma kinds_registered:
  "ref_gvk obj = Inr k \<Longrightarrow> gvk_kind k \<in> set api_types \<or> gvk_kind k = ''Secret''"
  by (cases obj) (auto simp: ref_gvk_def api_types_def)

text \<open>
  A process that registered anything with the manager or started it has the types of the API in
  its scheme, and follows the plan of the start-up.
\<close>

theorem process_registers_first:
  assumes "scheme_promise L" and "calls (process L D S cfg f) s \<noteq> []"
  shows "\<exists>scheme sa. main_init L = Returns scheme \<and> (\<forall>n \<in> set api_types. recognizes L scheme GroupVersion n)
     \<and> find_service_account D cfg (fl_serviceAccount f) = Returns sa
     \<and> follows (plan f) (result (process L D S cfg f) s) (calls (process L D S cfg f) s)"
proof (cases "main_init L")
  case (Returns scheme)
  then have p: "process L D S cfg f = main D S cfg f" by (simp add: process_def)
  obtain sa where sa: "find_service_account D cfg (fl_serviceAccount f) = Returns sa"
  proof (cases "find_service_account D cfg (fl_serviceAccount f)")
    case (Panics m)
    then show thesis using assms(2) by (simp add: p main_def)
  next
    case (Exits m)
    then show thesis using assms(2) by (simp add: p main_def)
  qed
  from trD [OF main_follows [OF sa], of S s] show ?thesis
    using Returns sa main_init_registers [OF assms(1) Returns] unfolding p by blast
qed (use assms(2) in \<open>simp_all add: process_def\<close>)

text \<open>A library that keeps the promise.\<close>

definition ref_library :: "(group_version \<times> string list, (group_version \<times> string) list) scheme_library" where
  "ref_library = \<lparr>new_builder = (\<lambda>g. (g, [])), builder_Register = (\<lambda>b ts. (fst b, snd b @ ts)),
     builder_AddToScheme = (\<lambda>b s. (None, s @ map (Pair (fst b)) (snd b))),
     builder_version = fst, builder_types = (\<lambda>b. set (snd b)), NewScheme = [],
     client_go_AddToScheme = (\<lambda>s. (None, s @ [(\<lparr>gv_group = '''', gv_version = ''v1''\<rparr>, ''Secret'')])),
     recognizes = (\<lambda>s g n. (g, n) \<in> set s)\<rparr>"

lemma ref_scheme_promise: "scheme_promise ref_library"
  by (auto simp: scheme_promise_def ref_library_def)

lemma ref_main_init: "\<exists>s. main_init ref_library = Returns s"
  unfolding main_init_returns by (simp add: ref_library_def)

definition quiet_steps :: "unit steps" where
  "quiet_steps c w = (None, w)"

definition flagged_config :: rest_config where
  "flagged_config = \<lparr>rc_certData = None, rc_bearerToken = ''''\<rparr>"

lemma plan_starts: "follows (plan f) r t \<Longrightarrow> t \<noteq> []"
  by (auto simp: plan_def)

theorem process_registers_first_witness:
  "\<exists>scheme. main_init ref_library = Returns scheme \<and> (\<forall>n \<in> set api_types. recognizes ref_library scheme GroupVersion n)"
proof -
  let ?f = "default_flags\<lparr>fl_serviceAccount := ''controller''\<rparr>"
  have sa: "find_service_account demo_decoders flagged_config (fl_serviceAccount ?f) = Returns ''controller''"
    by (simp add: find_service_account_def flagged_config_def)
  obtain sch where "main_init ref_library = Returns sch" using ref_main_init by blast
  then have p: "process ref_library demo_decoders quiet_steps flagged_config ?f = main demo_decoders quiet_steps flagged_config ?f"
    by (simp add: process_def)
  have "follows (plan ?f) (result (main demo_decoders quiet_steps flagged_config ?f) s)
      (calls (main demo_decoders quiet_steps flagged_config ?f) s)" for s
    using trD [OF main_follows [OF sa], of quiet_steps s] by blast
  then have "calls (process ref_library demo_decoders quiet_steps flagged_config ?f) s \<noteq> []" for s
    unfolding p using plan_starts by blast
  from process_registers_first [OF ref_scheme_promise this] show ?thesis by blast
qed

end
