(* ===== verification/Memory.thy ===== *)
theory Memory imports Prelude ApiTypes begin

text \<open>
  Go memory as far as deep copies need it: cells that hold strings, maps and arrays, pointers
  and slices into them, and allocation. A deep copy is judged by a contract: the copy means
  the same API value as the original, in cells that did not exist before, and nothing that
  existed has changed. The theory proves the contract for pointers, maps and slices and
  shows how it passes to structures.
\<close>

section \<open>Structures in memory\<close>

text \<open>
  The API types with their references spelled out: a pointer and a map are addresses or nil,
  a slice is a window into an array. Object metadata is a type parameter: its structure and
  its copy belong to another package. \<^verbatim>\<open>Condition\<close>, \<^verbatim>\<open>SecretRef\<close>, \<^verbatim>\<open>BucketProviderSpec\<close>,
  \<^verbatim>\<open>BucketServiceAccountSpec\<close> and \<^verbatim>\<open>BucketAccess\<close> hold no references and are as in \<open>ApiTypes\<close>.
\<close>

type_synonym addr = nat

record slice =
  sl_array :: addr
  sl_offset :: nat
  sl_length :: nat

record type_meta =
  tm_kind :: string
  tm_apiVersion :: string

record mem_bucket_spec =
  ms_provider :: string
  ms_serviceAccount :: string
  ms_reclaimPolicy :: string
  ms_secretName :: "addr option"
  ms_secretTemplate :: "addr option"

record mem_bucket_status =
  mst_endpoint :: "addr option"
  mst_secretName :: "addr option"
  mst_conditions :: "slice option"
  mst_phase :: string

record 'm mem_bucket =
  mb_type :: type_meta
  mb_meta :: 'm
  mb_spec :: mem_bucket_spec
  mb_status :: mem_bucket_status

record mem_provider_status =
  mpt_conditions :: "slice option"
  mpt_phase :: string

record 'm mem_provider =
  mp_type :: type_meta
  mp_meta :: 'm
  mp_spec :: provider_spec
  mp_status :: mem_provider_status

record mem_account_status =
  mat_secretName :: "addr option"
  mat_conditions :: "slice option"
  mat_phase :: string

record 'm mem_account =
  ma_type :: type_meta
  ma_meta :: 'm
  ma_spec :: account_spec
  ma_status :: mem_account_status

text \<open>The three list types, with their metadata and the slice of their items.\<close>

record 'l mem_list =
  ml_type :: type_meta
  ml_meta :: 'l
  ml_items :: "slice option"

type_synonym 'l mem_bucketList = "'l mem_list"

type_synonym 'l mem_providerList = "'l mem_list"

type_synonym 'l mem_accountList = "'l mem_list"

section \<open>The heap\<close>

text \<open>The cells that object metadata refers to hold values of the parameter \<^verbatim>\<open>'c\<close>.\<close>

datatype ('m, 'c) cell =
    StringCell string
  | MapCell "string \<rightharpoonup> string"
  | ConditionCells "condition list"
  | BucketCells "'m mem_bucket list"
  | ProviderCells "'m mem_provider list"
  | AccountCells "'m mem_account list"
  | MetadataCell 'c

record ('m, 'c) heap =
  cells :: "addr \<rightharpoonup> ('m, 'c) cell"
  limit :: addr

definition heap_ok :: "('m, 'c) heap \<Rightarrow> bool" where
  "heap_ok h \<longleftrightarrow> dom (cells h) \<subseteq> {..<limit h}"

definition extends :: "('m, 'c) heap \<Rightarrow> ('m, 'c) heap \<Rightarrow> bool" where
  "extends h h' \<longleftrightarrow> limit h \<le> limit h' \<and> (\<forall>a < limit h. cells h' a = cells h a)"

type_synonym ('m, 'c, 'v) copying = "(('m, 'c) heap, 'v) state"

text \<open>\<^verbatim>\<open>new\<close> and \<^verbatim>\<open>make\<close>, and reading and writing through an address.\<close>

definition alloc :: "('m, 'c) cell \<Rightarrow> ('m, 'c, addr) copying" where
  "alloc c = State (\<lambda>h. (limit h, h\<lparr>cells := (cells h)(limit h \<mapsto> c), limit := Suc (limit h)\<rparr>))"

definition cell_at :: "addr \<Rightarrow> ('m, 'c, ('m, 'c) cell option) copying" where
  "cell_at a = State (\<lambda>h. (cells h a, h))"

definition set_cell :: "addr \<Rightarrow> ('m, 'c) cell \<Rightarrow> ('m, 'c, unit) copying" where
  "set_cell a c = State (\<lambda>h. ((), h\<lparr>cells := (cells h)(a \<mapsto> c)\<rparr>))"

lemma run_alloc [simp]: "run_state (alloc c) h = (limit h, h\<lparr>cells := (cells h)(limit h \<mapsto> c), limit := Suc (limit h)\<rparr>)"
  by (simp add: alloc_def)

lemma run_cell_at [simp]: "run_state (cell_at a) h = (cells h a, h)"
  by (simp add: cell_at_def)

lemma run_set_cell [simp]: "run_state (set_cell a c) h = ((), h\<lparr>cells := (cells h)(a \<mapsto> c)\<rparr>)"
  by (simp add: set_cell_def)

lemma extends_refl [simp]: "extends h h"
  by (simp add: extends_def)

lemma extends_trans: "extends h h' \<Longrightarrow> extends h' h'' \<Longrightarrow> extends h h''"
  by (auto simp: extends_def)

text \<open>A heap with one cell more.\<close>

lemma new_cell:
  assumes "heap_ok h" and "cells h' = (cells h)(limit h \<mapsto> c)" and "limit h' = Suc (limit h)"
  shows "heap_ok h'" and "extends h h'"
proof -
  have "dom (cells h') \<subseteq> insert (limit h) {..<limit h}" using assms(1,2) by (auto simp: heap_ok_def)
  then show "heap_ok h'" using assms(3) unfolding heap_ok_def by fastforce
  show "extends h h'" using assms by (auto simp: extends_def)
qed

lemma heap_ok_cell: "heap_ok h \<Longrightarrow> cells h a = Some c \<Longrightarrow> a < limit h"
  by (auto simp: heap_ok_def)

section \<open>The contract of a deep copy\<close>

text \<open>
  \<open>holds h v x\<close>: in the heap \<open>h\<close>, the structure \<open>v\<close> stands for the API value \<open>x\<close>; \<open>foot h v\<close>
  are the addresses that are reached from it.
\<close>

locale deep_copying =
  fixes copy :: "'v \<Rightarrow> ('m, 'c, 'v) copying"
    and holds :: "('m, 'c) heap \<Rightarrow> 'v \<Rightarrow> 'x \<Rightarrow> bool"
    and foot :: "('m, 'c) heap \<Rightarrow> 'v \<Rightarrow> addr set"
  assumes local: "holds h v x \<Longrightarrow> (\<And>a. a \<in> foot h v \<Longrightarrow> cells h' a = cells h a) \<Longrightarrow>
      holds h' v x \<and> foot h' v = foot h v"
    and allocated: "heap_ok h \<Longrightarrow> holds h v x \<Longrightarrow> foot h v \<subseteq> {..<limit h}"
    and copies: "heap_ok h \<Longrightarrow> holds h v x \<Longrightarrow> run_state (copy v) h = (v', h') \<Longrightarrow>
      heap_ok h' \<and> extends h h' \<and> holds h' v' x \<and> foot h' v' \<subseteq> {limit h..<limit h'}"
begin

lemma still_holds: "heap_ok h \<Longrightarrow> holds h v x \<Longrightarrow> extends h h' \<Longrightarrow> holds h' v x \<and> foot h' v = foot h v"
  using local allocated unfolding extends_def by blast

text \<open>The original and the copy share nothing, so a change to the one is not seen by the other.\<close>

lemma isolated:
  assumes "heap_ok h" and "holds h v x" and "run_state (copy v) h = (v', h')"
  shows "holds h' v' x" and "holds h' v x" and "foot h' v \<inter> foot h' v' = {}"
    and "(\<And>a. a \<notin> foot h' v' \<Longrightarrow> cells h2 a = cells h' a) \<Longrightarrow> holds h2 v x"
    and "(\<And>a. a \<notin> foot h' v \<Longrightarrow> cells h2 a = cells h' a) \<Longrightarrow> holds h2 v' x"
proof -
  have c: "heap_ok h'" "extends h h'" "holds h' v' x" "foot h' v' \<subseteq> {limit h..<limit h'}"
    using copies [OF assms] by blast+
  have o: "holds h' v x" "foot h' v = foot h v" using still_holds [OF assms(1,2) c(2)] by blast+
  have "foot h v \<subseteq> {..<limit h}" using allocated [OF assms(1,2)] .
  then have d: "foot h' v \<inter> foot h' v' = {}" using c(4) o(2) by fastforce
  show "holds h' v' x" "holds h' v x" "foot h' v \<inter> foot h' v' = {}" using c o d by blast+
  show "holds h2 v x" if "\<And>a. a \<notin> foot h' v' \<Longrightarrow> cells h2 a = cells h' a"
    using local [OF o(1), of h2] that d by blast
  show "holds h2 v' x" if "\<And>a. a \<notin> foot h' v \<Longrightarrow> cells h2 a = cells h' a"
    using local [OF c(3), of h2] that d by blast
qed

end

section \<open>References\<close>

text \<open>A structure without references is copied by its assignment.\<close>

definition copy_value :: "'v \<Rightarrow> ('m, 'c, 'v) copying" where
  "copy_value v = ret v"

interpretation value_copy: deep_copying copy_value "\<lambda>h v x. v = x" "\<lambda>h v. {}"
  by unfold_locales (simp_all add: copy_value_def)

text \<open>\<^verbatim>\<open>*out = new(string); **out = **in\<close>, when the pointer is not nil.\<close>

definition copy_string :: "addr option \<Rightarrow> ('m, 'c, addr option) copying" where
  "copy_string p = (case p of
     None \<Rightarrow> ret None
   | Some a \<Rightarrow> do {
       out \<leftarrow> alloc (StringCell '''');
       c \<leftarrow> cell_at a;
       _ \<leftarrow> (case c of Some c \<Rightarrow> set_cell out c | None \<Rightarrow> ret ());
       ret (Some out) })"

definition string_holds :: "('m, 'c) heap \<Rightarrow> addr option \<Rightarrow> string option \<Rightarrow> bool" where
  "string_holds h p x \<longleftrightarrow> (case p of
     None \<Rightarrow> x = None
   | Some a \<Rightarrow> (case x of None \<Rightarrow> False | Some s \<Rightarrow> cells h a = Some (StringCell s)))"

abbreviation pointer_foot :: "('m, 'c) heap \<Rightarrow> addr option \<Rightarrow> addr set" where
  "pointer_foot h p \<equiv> set_option p"

interpretation string_copy: deep_copying copy_string string_holds pointer_foot
proof
  fix h h' :: "('a, 'b) heap" and p p' x
  assume h: "heap_ok h" "string_holds h p x" "run_state (copy_string p) h = (p', h')"
  show "heap_ok h' \<and> extends h h' \<and> string_holds h' p' x \<and> set_option p' \<subseteq> {limit h..<limit h'}"
  proof (cases p)
    case None
    then show ?thesis using h by (auto simp: copy_string_def string_holds_def)
  next
    case (Some a)
    then obtain s where s: "x = Some s" "cells h a = Some (StringCell s)"
      using h(2) by (auto simp: string_holds_def split: option.splits)
    then have "a < limit h" using h(1) heap_ok_cell by blast
    then have "p' = Some (limit h)" "cells h' = (cells h)(limit h \<mapsto> StringCell s)" "limit h' = Suc (limit h)"
      using h(3) Some s by (auto simp: copy_string_def)
    then show ?thesis using new_cell [OF h(1)] s by (auto simp: string_holds_def)
  qed
qed (auto simp: string_holds_def split: option.splits dest: heap_ok_cell)

text \<open>A fresh map, into which the entries are put one by one; the order of the entries is not observable.\<close>

definition copy_map :: "addr option \<Rightarrow> ('m, 'c, addr option) copying" where
  "copy_map p = (case p of
     None \<Rightarrow> ret None
   | Some a \<Rightarrow> do {
       out \<leftarrow> alloc (MapCell Map.empty);
       c \<leftarrow> cell_at a;
       _ \<leftarrow> (case c of Some (MapCell m) \<Rightarrow> set_cell out (MapCell (Map.empty ++ m)) | _ \<Rightarrow> ret ());
       ret (Some out) })"

definition map_holds :: "('m, 'c) heap \<Rightarrow> addr option \<Rightarrow> (string \<times> string) list \<Rightarrow> bool" where
  "map_holds h p x \<longleftrightarrow> distinct (map fst x) \<and> (case p of
     None \<Rightarrow> x = []
   | Some a \<Rightarrow> cells h a = Some (MapCell (map_of x)))"

interpretation map_copy: deep_copying copy_map map_holds pointer_foot
proof
  fix h h' :: "('a, 'b) heap" and p p' x
  assume h: "heap_ok h" "map_holds h p x" "run_state (copy_map p) h = (p', h')"
  show "heap_ok h' \<and> extends h h' \<and> map_holds h' p' x \<and> set_option p' \<subseteq> {limit h..<limit h'}"
  proof (cases p)
    case None
    then show ?thesis using h by (auto simp: copy_map_def map_holds_def)
  next
    case (Some a)
    then have s: "cells h a = Some (MapCell (map_of x))" "distinct (map fst x)"
      using h(2) by (auto simp: map_holds_def)
    then have "a < limit h" using h(1) heap_ok_cell by blast
    then have "p' = Some (limit h)" "cells h' = (cells h)(limit h \<mapsto> MapCell (map_of x))" "limit h' = Suc (limit h)"
      using h(3) Some s by (auto simp: copy_map_def)
    then show ?thesis using new_cell [OF h(1)] s by (auto simp: map_holds_def)
  qed
qed (auto simp: map_holds_def split: option.splits dest: heap_ok_cell)

section \<open>Slices\<close>

text \<open>
  The array cells of one element type are made by \<open>C\<close> and taken apart by \<open>P\<close>. A slice is
  copied into a fresh array of its length, element by element.
\<close>

definition array_at :: "(('m, 'c) cell \<Rightarrow> 'v list option) \<Rightarrow> ('m, 'c) heap \<Rightarrow> addr \<Rightarrow> 'v list option" where
  "array_at P h a = (case cells h a of None \<Rightarrow> None | Some c \<Rightarrow> P c)"

definition elements :: "(('m, 'c) cell \<Rightarrow> 'v list option) \<Rightarrow> ('m, 'c) heap \<Rightarrow> slice \<Rightarrow> 'v list" where
  "elements P h s = (case array_at P h (sl_array s) of
     None \<Rightarrow> [] | Some xs \<Rightarrow> take (sl_length s) (drop (sl_offset s) xs))"

fun copy_elements :: "('v list \<Rightarrow> ('m, 'c) cell) \<Rightarrow> (('m, 'c) cell \<Rightarrow> 'v list option) \<Rightarrow> ('v \<Rightarrow> ('m, 'c, 'v) copying) \<Rightarrow>
    addr \<Rightarrow> nat \<Rightarrow> 'v list \<Rightarrow> ('m, 'c, unit) copying" where
  "copy_elements C P copy out i [] = ret ()"
| "copy_elements C P copy out i (x # xs) = do {
     y \<leftarrow> copy x;
     ys \<leftarrow> State (\<lambda>h. (array_at P h out, h));
     _ \<leftarrow> (case ys of Some ys \<Rightarrow> set_cell out (C (ys[i := y])) | None \<Rightarrow> ret ());
     copy_elements C P copy out (Suc i) xs }"

definition copy_slice :: "('v list \<Rightarrow> ('m, 'c) cell) \<Rightarrow> (('m, 'c) cell \<Rightarrow> 'v list option) \<Rightarrow> 'v \<Rightarrow> ('v \<Rightarrow> ('m, 'c, 'v) copying) \<Rightarrow>
    slice option \<Rightarrow> ('m, 'c, slice option) copying" where
  "copy_slice C P zero copy p = (case p of
     None \<Rightarrow> ret None
   | Some s \<Rightarrow> do {
       xs \<leftarrow> State (\<lambda>h. (elements P h s, h));
       out \<leftarrow> alloc (C (replicate (sl_length s) zero));
       _ \<leftarrow> copy_elements C P copy out 0 xs;
       ret (Some \<lparr>sl_array = out, sl_offset = 0, sl_length = sl_length s\<rparr>) })"

definition slice_holds :: "(('m, 'c) cell \<Rightarrow> 'v list option) \<Rightarrow> (('m, 'c) heap \<Rightarrow> 'v \<Rightarrow> 'x \<Rightarrow> bool) \<Rightarrow>
    ('m, 'c) heap \<Rightarrow> slice option \<Rightarrow> 'x list \<Rightarrow> bool" where
  "slice_holds P H h p vs \<longleftrightarrow> (case p of
     None \<Rightarrow> vs = []
   | Some s \<Rightarrow> array_at P h (sl_array s) \<noteq> None \<and> length (elements P h s) = sl_length s
       \<and> list_all2 (H h) (elements P h s) vs)"

definition slice_foot :: "(('m, 'c) cell \<Rightarrow> 'v list option) \<Rightarrow> (('m, 'c) heap \<Rightarrow> 'v \<Rightarrow> addr set) \<Rightarrow>
    ('m, 'c) heap \<Rightarrow> slice option \<Rightarrow> addr set" where
  "slice_foot P F h p = (case p of
     None \<Rightarrow> {} | Some s \<Rightarrow> insert (sl_array s) (\<Union>x \<in> set (elements P h s). F h x))"

lemma elements_cong:
  "cells h' (sl_array s) = cells h (sl_array s) \<Longrightarrow> elements P h' s = elements P h s"
  "cells h' (sl_array s) = cells h (sl_array s) \<Longrightarrow> array_at P h' (sl_array s) = array_at P h (sl_array s)"
  by (simp_all add: elements_def array_at_def)

lemma related_value: "list_all2 R xs ys \<Longrightarrow> x \<in> set xs \<Longrightarrow> \<exists>y \<in> set ys. R x y"
  by (induction xs ys rule: list_all2_induct) auto

context deep_copying begin

text \<open>A structure in fresh cells still stands for its value when other cells change.\<close>

lemma apart:
  assumes "holds h v x" and "foot h v \<subseteq> A" and "\<And>a. a \<in> A \<Longrightarrow> cells h' a = cells h a"
  shows "holds h' v x" and "foot h' v = foot h v"
  using local [OF assms(1), of h'] assms(2,3) by blast+

lemma element_step:
  fixes i :: nat
  assumes "heap_ok h" "holds h x v" "out < limit h" "cells h out = Some (C arr)" "P (C arr) = Some arr"
    and "run_state (copy x) h = (y, h1)"
    and h2: "h2 = h1\<lparr>cells := (cells h1)(out \<mapsto> C (arr[i := y]))\<rparr>"
  shows "array_at P h1 out = Some arr" and "heap_ok h2" and "limit h \<le> limit h2" and "holds h2 y v"
    and "foot h2 y \<subseteq> {limit h..<limit h2}" and "\<And>a. a < limit h \<Longrightarrow> a \<noteq> out \<Longrightarrow> cells h2 a = cells h a"
proof -
  have c: "heap_ok h1" "extends h h1" "holds h1 y v" "foot h1 y \<subseteq> {limit h..<limit h1}"
    using copies [OF assms(1,2,6)] by blast+
  show "array_at P h1 out = Some arr" using assms(3-5) c(2) by (simp add: array_at_def extends_def)
  have "out < limit h1" using assms(3) c(2) by (simp add: extends_def)
  then show "heap_ok h2" using c(1) unfolding h2 heap_ok_def by auto
  show "limit h \<le> limit h2" using c(2) by (simp add: h2 extends_def)
  have e: "cells h2 a = cells h1 a" if "a \<in> {limit h..<limit h1}" for a
    using that assms(3) by (simp add: h2)
  show "holds h2 y v" using apart(1) [OF c(3,4) e] .
  show "foot h2 y \<subseteq> {limit h..<limit h2}" using apart(2) [OF c(3,4) e] c(4) by (simp add: h2)
  show "cells h2 a = cells h a" if "a < limit h" "a \<noteq> out" for a
    using that c(2) by (simp add: h2 extends_def)
qed

lemma copy_elements_run:
  assumes PC: "\<And>ys. P (C ys) = Some ys"
    and "heap_ok h" "out < limit h" "cells h out = Some (C arr)" "i + length xs \<le> length arr"
    and "heap_ok h0" "list_all2 (holds h0) xs vs" "extends h0 h" "limit h0 \<le> out"
    and "run_state (copy_elements C P copy out i xs) h = (u, h')"
  shows "heap_ok h' \<and> limit h \<le> limit h' \<and> (\<forall>a < limit h. a \<noteq> out \<longrightarrow> cells h' a = cells h a)
     \<and> (\<exists>ys. cells h' out = Some (C (take i arr @ ys @ drop (i + length xs) arr)) \<and> list_all2 (holds h') ys vs
          \<and> (\<forall>y \<in> set ys. foot h' y \<subseteq> {limit h..<limit h'}))"
  using assms(2-)
proof (induction xs arbitrary: h i arr vs)
  case Nil
  then show ?case by (auto intro!: exI [of _ "[]"])
next
  case (Cons x xs)
  obtain v ws where vs: "vs = v # ws" "holds h0 x v" "list_all2 (holds h0) xs ws"
    using Cons.prems(6) by (auto simp: list_all2_Cons1)
  have hx: "holds h x v" using still_holds [OF Cons.prems(5) vs(2) Cons.prems(7)] by blast
  obtain y h1 where y: "run_state (copy x) h = (y, h1)" by fastforce
  define h2 where "h2 = h1\<lparr>cells := (cells h1)(out \<mapsto> C (arr[i := y]))\<rparr>"
  note e = element_step [where P = P and i = i, OF Cons.prems(1) hx Cons.prems(2,3) PC y h2_def]
  have run: "run_state (copy_elements C P copy out (Suc i) xs) h2 = (u, h')"
    using Cons.prems(9) y e(1) by (simp add: h2_def)
  have "out < limit h2" using Cons.prems(2) e(3) by simp
  moreover have "cells h2 out = Some (C (arr[i := y]))" by (simp add: h2_def)
  moreover have "Suc i + length xs \<le> length (arr[i := y])" using Cons.prems(4) by simp
  moreover have "extends h0 h2" using Cons.prems(7,8) e(3,6) unfolding extends_def by auto
  ultimately have ih: "heap_ok h' \<and> limit h2 \<le> limit h' \<and> (\<forall>a < limit h2. a \<noteq> out \<longrightarrow> cells h' a = cells h2 a)
     \<and> (\<exists>ys. cells h' out = Some (C (take (Suc i) (arr[i := y]) @ ys @ drop (Suc i + length xs) (arr[i := y])))
          \<and> list_all2 (holds h') ys ws \<and> (\<forall>y \<in> set ys. foot h' y \<subseteq> {limit h2..<limit h'}))"
    by (rule Cons.IH [OF e(2) _ _ _ Cons.prems(5) vs(3) _ Cons.prems(8) run])
  then obtain ys where ys: "cells h' out = Some (C (take (Suc i) (arr[i := y]) @ ys @ drop (Suc i + length xs) (arr[i := y])))"
      "list_all2 (holds h') ys ws" "\<forall>y \<in> set ys. foot h' y \<subseteq> {limit h2..<limit h'}"
    by (elim conjE exE)
  note i = ih [THEN conjunct1] ih [THEN conjunct2, THEN conjunct1] ih [THEN conjunct2, THEN conjunct2, THEN conjunct1]
  have "cells h' a = cells h2 a" if "a \<in> {limit h..<limit h2}" for a
    using that i(3) Cons.prems(2) by simp
  then have "holds h' y v" "foot h' y \<subseteq> {limit h..<limit h'}"
    using apart [OF e(4,5), of h'] subset_trans [OF e(5), of "{limit h..<limit h'}"] i(2) by simp_all
  moreover have "take (Suc i) (arr[i := y]) @ ys @ drop (Suc i + length xs) (arr[i := y])
      = take i arr @ (y # ys) @ drop (i + length (x # xs)) arr"
    using Cons.prems(4) by (simp add: take_Suc_conv_app_nth)
  moreover have "\<forall>z \<in> set ys. foot h' z \<subseteq> {limit h..<limit h'}" using ys(3) e(3) by fastforce
  ultimately have "\<exists>zs. cells h' out = Some (C (take i arr @ zs @ drop (i + length (x # xs)) arr))
      \<and> list_all2 (holds h') zs vs \<and> (\<forall>z \<in> set zs. foot h' z \<subseteq> {limit h..<limit h'})"
    using ys(1,2) vs(1) by (intro exI [of _ "y # ys"]) simp
  moreover have "\<forall>a < limit h. a \<noteq> out \<longrightarrow> cells h' a = cells h a" using i(3) e(3,6) by simp
  moreover have "limit h \<le> limit h'" using i(2) e(3) by (rule le_trans [rotated])
  ultimately show ?case using i(1) by (intro conjI)
qed

lemma slice_deep_copying:
  assumes PC: "\<And>ys. P (C ys) = Some ys"
  shows "deep_copying (copy_slice C P zero copy) (slice_holds P holds) (slice_foot P foot)"
proof
  fix h h' :: "('m, 'c) heap" and p vs
  assume s: "slice_holds P holds h p vs" and eq: "\<And>a. a \<in> slice_foot P foot h p \<Longrightarrow> cells h' a = cells h a"
  show "slice_holds P holds h' p vs \<and> slice_foot P foot h' p = slice_foot P foot h p"
  proof (cases p)
    case None
    then show ?thesis using s by (simp add: slice_holds_def slice_foot_def)
  next
    case (Some q)
    have el: "elements P h' q = elements P h q" "array_at P h' (sl_array q) = array_at P h (sl_array q)"
      using elements_cong [of h' q h] eq Some by (auto simp: slice_foot_def)
    have each: "holds h' x v \<and> foot h' x = foot h x" if "x \<in> set (elements P h q)" "holds h x v" for x v
      using local [OF that(2), of h'] eq that(1) Some by (force simp: slice_foot_def)
    have l: "list_all2 (holds h) (elements P h q) vs" using s Some by (simp add: slice_holds_def)
    then have "list_all2 (holds h') (elements P h q) vs"
      using each by (auto simp: list_all2_conv_all_nth)
    moreover have "foot h' x = foot h x" if "x \<in> set (elements P h q)" for x
      using related_value [OF l that] each [OF that] by blast
    ultimately show ?thesis using s Some el by (auto simp: slice_holds_def slice_foot_def)
  qed
next
  fix h :: "('m, 'c) heap" and p vs
  assume ok: "heap_ok h" and s: "slice_holds P holds h p vs"
  show "slice_foot P foot h p \<subseteq> {..<limit h}"
  proof (cases p)
    case (Some q)
    have "sl_array q < limit h"
      using s Some heap_ok_cell [OF ok] by (auto simp: slice_holds_def array_at_def split: option.splits)
    moreover have "foot h x \<subseteq> {..<limit h}" if x: "x \<in> set (elements P h q)" for x
    proof -
      have "list_all2 (holds h) (elements P h q) vs" using s Some by (simp add: slice_holds_def)
      from related_value [OF this x] obtain v where "holds h x v" by (elim bexE)
      from allocated [OF ok this] show ?thesis .
    qed
    ultimately show ?thesis using Some by (auto simp: slice_foot_def)
  qed (simp add: slice_foot_def)
next
  fix h h' :: "('m, 'c) heap" and p p' vs
  assume ok: "heap_ok h" and s: "slice_holds P holds h p vs" and r: "run_state (copy_slice C P zero copy p) h = (p', h')"
  show "heap_ok h' \<and> extends h h' \<and> slice_holds P holds h' p' vs \<and> slice_foot P foot h' p' \<subseteq> {limit h..<limit h'}"
  proof (cases p)
    case None
    then show ?thesis using ok s r by (auto simp: copy_slice_def slice_holds_def slice_foot_def)
  next
    case (Some q)
    let ?xs = "elements P h q" and ?arr = "replicate (sl_length q) zero"
    define h1 where "h1 = h\<lparr>cells := (cells h)(limit h \<mapsto> C ?arr), limit := Suc (limit h)\<rparr>"
    have new: "heap_ok h1" "extends h h1" using new_cell [OF ok, of h1] by (simp_all add: h1_def)
    have len: "length ?xs = sl_length q" and l: "list_all2 (holds h) ?xs vs"
      using s Some by (simp_all add: slice_holds_def)
    obtain u where run: "run_state (copy_elements C P copy (limit h) 0 ?xs) h1 = (u, h')"
      and p': "p' = Some \<lparr>sl_array = limit h, sl_offset = 0, sl_length = sl_length q\<rparr>"
      using r Some by (auto simp: copy_slice_def h1_def split: prod.splits)
    have "limit h < limit h1" "cells h1 (limit h) = Some (C ?arr)" by (simp_all add: h1_def)
    then obtain ys where c: "heap_ok h'" "limit h1 \<le> limit h'" "\<forall>a < limit h1. a \<noteq> limit h \<longrightarrow> cells h' a = cells h1 a"
      and ys: "cells h' (limit h) = Some (C ys)" "list_all2 (holds h') ys vs" "\<forall>y \<in> set ys. foot h' y \<subseteq> {limit h1..<limit h'}"
      using copy_elements_run [OF PC new(1) _ _ _ ok l new(2) _ run, of ?arr] len by auto
    have "length ys = sl_length q" using ys(2) l len by (simp add: list_all2_lengthD)
    then have el: "elements P h' \<lparr>sl_array = limit h, sl_offset = 0, sl_length = sl_length q\<rparr> = ys"
      "array_at P h' (limit h) = Some ys"
      using ys(1) PC by (simp_all add: elements_def array_at_def)
    have "extends h h'" using new(2) c by (auto simp: extends_def h1_def)
    moreover have "slice_holds P holds h' p' vs" using p' el ys(2) \<open>length ys = _\<close> by (simp add: slice_holds_def)
    moreover have "slice_foot P foot h' p' \<subseteq> {limit h..<limit h'}"
      using p' el ys(3) c(2) by (fastforce simp: slice_foot_def h1_def)
    ultimately show ?thesis using c(1) by blast
  qed
qed

end

section \<open>Structures\<close>

text \<open>Two fields are copied one after the other; the other fields are kept by the assignment.\<close>

definition copy_both :: "('v \<Rightarrow> ('m, 'c, 'v) copying) \<Rightarrow> ('w \<Rightarrow> ('m, 'c, 'w) copying) \<Rightarrow>
    'v \<times> 'w \<Rightarrow> ('m, 'c, 'v \<times> 'w) copying" where
  "copy_both f g vw = do { v \<leftarrow> f (fst vw); w \<leftarrow> g (snd vw); ret (v, w) }"

lemma both_deep_copying:
  fixes H :: "('m, 'c) heap \<Rightarrow> 'v \<Rightarrow> 'x \<Rightarrow> bool" and K :: "('m, 'c) heap \<Rightarrow> 'w \<Rightarrow> 'y \<Rightarrow> bool"
  assumes "deep_copying f H F" and "deep_copying g K G"
  shows "deep_copying (copy_both f g) (\<lambda>h v x. H h (fst v) (fst x) \<and> K h (snd v) (snd x))
    (\<lambda>h v. F h (fst v) \<union> G h (snd v))"
proof
  fix h h' :: "('m, 'c) heap" and v x
  assume "H h (fst v) (fst x) \<and> K h (snd v) (snd x)"
    and "\<And>a. a \<in> F h (fst v) \<union> G h (snd v) \<Longrightarrow> cells h' a = cells h a"
  then show "(H h' (fst v) (fst x) \<and> K h' (snd v) (snd x)) \<and> F h' (fst v) \<union> G h' (snd v) = F h (fst v) \<union> G h (snd v)"
    using deep_copying.local [OF assms(1), of h "fst v" "fst x" h'] deep_copying.local [OF assms(2), of h "snd v" "snd x" h'] by simp
next
  fix h :: "('m, 'c) heap" and v x
  assume "heap_ok h" and "H h (fst v) (fst x) \<and> K h (snd v) (snd x)"
  then show "F h (fst v) \<union> G h (snd v) \<subseteq> {..<limit h}"
    using deep_copying.allocated [OF assms(1)] deep_copying.allocated [OF assms(2)] by (elim conjE) (rule Un_least)
next
  fix h h' :: "('m, 'c) heap" and v v' x
  assume ok: "heap_ok h" and s: "H h (fst v) (fst x) \<and> K h (snd v) (snd x)" and r: "run_state (copy_both f g v) h = (v', h')"
  obtain y h1 where y: "run_state (f (fst v)) h = (y, h1)" by fastforce
  obtain z where z: "run_state (g (snd v)) h1 = (z, h')" and v': "v' = (y, z)"
    using r y by (auto simp: copy_both_def split: prod.splits)
  have 1: "heap_ok h1 \<and> extends h h1 \<and> H h1 y (fst x) \<and> F h1 y \<subseteq> {limit h..<limit h1}"
    using deep_copying.copies [OF assms(1) ok _ y] s by blast
  have k: "K h1 (snd v) (snd x)" using deep_copying.still_holds [OF assms(2) ok] s 1 by blast
  have 2: "heap_ok h' \<and> extends h1 h' \<and> K h' z (snd x) \<and> G h' z \<subseteq> {limit h1..<limit h'}"
    using deep_copying.copies [OF assms(2) _ k z] 1 by blast
  have 3: "H h' y (fst x) \<and> F h' y = F h1 y" using deep_copying.still_holds [OF assms(1)] 1 2 by blast
  have "limit h \<le> limit h1" "limit h1 \<le> limit h'" using 1 2 by (simp_all add: extends_def)
  then have "F h' y \<union> G h' z \<subseteq> {limit h..<limit h'}"
    using 1 2 3 by (intro Un_least) (force+)
  moreover have "extends h h'" using extends_trans [of h h1 h'] 1 2 by simp
  ultimately show "heap_ok h' \<and> extends h h' \<and> (H h' (fst v') (fst x) \<and> K h' (snd v') (snd x))
      \<and> F h' (fst v') \<union> G h' (snd v') \<subseteq> {limit h..<limit h'}"
    using 2 3 v' by simp
qed

text \<open>A structure of which only the part \<open>get v\<close> is copied, and the rest, \<open>R\<close>, assigned.\<close>

lemma part_deep_copying:
  fixes H :: "('m, 'c) heap \<Rightarrow> 'v \<Rightarrow> 'x \<Rightarrow> bool"
  assumes "deep_copying f H F"
    and run: "\<And>v h. run_state (g v) h = (put (fst (run_state (f (get v)) h)) v, snd (run_state (f (get v)) h))"
    and "\<And>v w. get (put w v) = w" and "\<And>v w x. R (put w v) x = R v x"
  shows "deep_copying g (\<lambda>h v x. H h (get v) (sel x) \<and> R v x) (\<lambda>h v. F h (get v))"
proof
  fix h h' :: "('m, 'c) heap" and v x
  assume "H h (get v) (sel x) \<and> R v x" and "\<And>a. a \<in> F h (get v) \<Longrightarrow> cells h' a = cells h a"
  then show "(H h' (get v) (sel x) \<and> R v x) \<and> F h' (get v) = F h (get v)"
    using deep_copying.local [OF assms(1), of h "get v" "sel x" h'] by simp
next
  fix h :: "('m, 'c) heap" and v x
  assume "heap_ok h" and "H h (get v) (sel x) \<and> R v x"
  then show "F h (get v) \<subseteq> {..<limit h}" using deep_copying.allocated [OF assms(1)] by (elim conjE)
next
  fix h h' :: "('m, 'c) heap" and v v' x
  assume ok: "heap_ok h" and s: "H h (get v) (sel x) \<and> R v x" and r: "run_state (g v) h = (v', h')"
  obtain w where w: "run_state (f (get v)) h = (w, h')" "v' = put w v"
    using r unfolding run by (metis prod.collapse prod.inject)
  then show "heap_ok h' \<and> extends h h' \<and> (H h' (get v') (sel x) \<and> R v' x) \<and> F h' (get v') \<subseteq> {limit h..<limit h'}"
    using deep_copying.copies [OF assms(1) ok conjunct1 [OF s] w(1)] s assms(3,4) by simp
qed

end
