(* ===== verification/DeepCopy.thy ===== *)
theory DeepCopy imports Memory begin

text \<open>
  The copies of \<^verbatim>\<open>src/api/v1alpha1/zz_generated.deepcopy.go\<close>: \<^verbatim>\<open>DeepCopyInto\<close>, \<^verbatim>\<open>DeepCopy\<close> and
  \<^verbatim>\<open>DeepCopyObject\<close> of every API type over the memory of \<open>Memory\<close>. The reconciler of buckets makes
  the account the controller of such a copy and then compares copy and original; the caches of
  the client hand out copies. The rest of the development passes API values instead, which the
  contract proved here justifies: a copy stands for the same value, and neither the copy nor
  the original sees a change of the other.
\<close>

section \<open>What other packages copy\<close>

text \<open>
  The copies of \<^verbatim>\<open>metav1.Condition\<close>, \<^verbatim>\<open>metav1.ObjectMeta\<close> and \<^verbatim>\<open>metav1.ListMeta\<close>, and the zero
  values with which \<^verbatim>\<open>make\<close> fills an array.
\<close>

record ('m, 'c, 'l) metadata_package =
  mc_condition :: "condition \<Rightarrow> ('m, 'c, condition) copying"
  mc_object :: "'m \<Rightarrow> ('m, 'c, 'm) copying"
  mc_list :: "'l \<Rightarrow> ('m, 'c, 'l) copying"
  mc_zero :: 'm
  mc_zero_condition :: condition

text \<open>The metadata values of the API that structures of that package stand for, and their cells.\<close>

record ('m, 'c, 'l, 'k) metadata_meaning =
  mm_object_holds :: "('m, 'c) heap \<Rightarrow> 'm \<Rightarrow> object_meta \<Rightarrow> bool"
  mm_object_foot :: "('m, 'c) heap \<Rightarrow> 'm \<Rightarrow> addr set"
  mm_list_holds :: "('m, 'c) heap \<Rightarrow> 'l \<Rightarrow> 'k \<Rightarrow> bool"
  mm_list_foot :: "('m, 'c) heap \<Rightarrow> 'l \<Rightarrow> addr set"

definition metadata_contract :: "('m, 'c, 'l) metadata_package \<Rightarrow> ('m, 'c, 'l, 'k) metadata_meaning \<Rightarrow> bool" where
  "metadata_contract K M \<longleftrightarrow>
     deep_copying (mc_condition K) (\<lambda>h v x. v = x) (\<lambda>h v. {})
   \<and> deep_copying (mc_object K) (mm_object_holds M) (mm_object_foot M)
   \<and> deep_copying (mc_list K) (mm_list_holds M) (mm_list_foot M)"

section \<open>Pointers to structures\<close>

text \<open>
  A pointer to a structure is nil or the structure; \<^verbatim>\<open>new\<close> makes a new variable, so the result
  of \<^verbatim>\<open>DeepCopy\<close> is a structure of its own. A value of the interface \<^verbatim>\<open>runtime.Object\<close> is nil or
  holds a pointer, which may itself be nil.
\<close>

type_synonym 'v interface = "'v option option"

definition deep_copy :: "('v \<Rightarrow> ('m, 'c, 'v) copying) \<Rightarrow> 'v option \<Rightarrow> ('m, 'c, 'v option) copying" where
  "deep_copy into p = (case p of
     None \<Rightarrow> ret None
   | Some v \<Rightarrow> do { out \<leftarrow> into v; ret (Some out) })"

definition copied_object :: "'v option \<Rightarrow> 'v interface" where
  "copied_object p = (case p of Some c \<Rightarrow> Some (Some c) | None \<Rightarrow> None)"

section \<open>Structures without references\<close>

definition secretRef_DeepCopyInto :: "secret_ref \<Rightarrow> ('m, 'c, secret_ref) copying" where
  "secretRef_DeepCopyInto v = ret v"

definition secretRef_DeepCopy :: "secret_ref option \<Rightarrow> ('m, 'c, secret_ref option) copying" where
  "secretRef_DeepCopy p = deep_copy secretRef_DeepCopyInto p"

definition bucketAccess_DeepCopyInto :: "bucket_access \<Rightarrow> ('m, 'c, bucket_access) copying" where
  "bucketAccess_DeepCopyInto v = ret v"

definition bucketAccess_DeepCopy :: "bucket_access option \<Rightarrow> ('m, 'c, bucket_access option) copying" where
  "bucketAccess_DeepCopy p = deep_copy bucketAccess_DeepCopyInto p"

definition providerSpec_DeepCopyInto :: "provider_spec \<Rightarrow> ('m, 'c, provider_spec) copying" where
  "providerSpec_DeepCopyInto v = ret (v\<lparr>ps_accessKey := ps_accessKey v, ps_secretKey := ps_secretKey v\<rparr>)"

definition providerSpec_DeepCopy :: "provider_spec option \<Rightarrow> ('m, 'c, provider_spec option) copying" where
  "providerSpec_DeepCopy p = deep_copy providerSpec_DeepCopyInto p"

definition accountSpec_DeepCopyInto :: "account_spec \<Rightarrow> ('m, 'c, account_spec) copying" where
  "accountSpec_DeepCopyInto v = ret v"

definition accountSpec_DeepCopy :: "account_spec option \<Rightarrow> ('m, 'c, account_spec option) copying" where
  "accountSpec_DeepCopy p = deep_copy accountSpec_DeepCopyInto p"

text \<open>Their copy is the assignment of the structure.\<close>

lemma plain_copies:
  "secretRef_DeepCopyInto = copy_value" "bucketAccess_DeepCopyInto = copy_value"
  "providerSpec_DeepCopyInto = copy_value" "accountSpec_DeepCopyInto = copy_value"
  by (simp_all add: fun_eq_iff copy_value_def secretRef_DeepCopyInto_def bucketAccess_DeepCopyInto_def
      providerSpec_DeepCopyInto_def accountSpec_DeepCopyInto_def)

section \<open>Specs and statuses\<close>

fun conditions_of :: "('m, 'c) cell \<Rightarrow> condition list option" where
  "conditions_of (ConditionCells xs) = Some xs"
| "conditions_of _ = None"

abbreviation copy_conditions :: "('m, 'c, 'l) metadata_package \<Rightarrow> slice option \<Rightarrow> ('m, 'c, slice option) copying" where
  "copy_conditions K \<equiv> copy_slice ConditionCells conditions_of (mc_zero_condition K) (mc_condition K)"

abbreviation conditions_hold :: "('m, 'c) heap \<Rightarrow> slice option \<Rightarrow> condition list \<Rightarrow> bool" where
  "conditions_hold \<equiv> slice_holds conditions_of (\<lambda>h v x. v = x)"

abbreviation conditions_foot :: "('m, 'c) heap \<Rightarrow> slice option \<Rightarrow> addr set" where
  "conditions_foot \<equiv> slice_foot conditions_of (\<lambda>h v. {})"

definition bucketSpec_DeepCopyInto :: "mem_bucket_spec \<Rightarrow> ('m, 'c, mem_bucket_spec) copying" where
  "bucketSpec_DeepCopyInto v = do {
     secretName \<leftarrow> copy_string (ms_secretName v);
     secretTemplate \<leftarrow> copy_map (ms_secretTemplate v);
     ret (v\<lparr>ms_secretName := secretName, ms_secretTemplate := secretTemplate\<rparr>) }"

definition bucketSpec_DeepCopy :: "mem_bucket_spec option \<Rightarrow> ('m, 'c, mem_bucket_spec option) copying" where
  "bucketSpec_DeepCopy p = deep_copy bucketSpec_DeepCopyInto p"

definition bucketSpec_holds :: "('m, 'c) heap \<Rightarrow> mem_bucket_spec \<Rightarrow> bucket_spec \<Rightarrow> bool" where
  "bucketSpec_holds h v x \<longleftrightarrow>
     (string_holds h (ms_secretName v) (bs_secretName x) \<and> map_holds h (ms_secretTemplate v) (bs_secretTemplate x))
   \<and> ms_provider v = bs_provider x \<and> ms_serviceAccount v = bs_serviceAccount x
   \<and> ms_reclaimPolicy v = bs_reclaimPolicy x"

definition bucketSpec_foot :: "('m, 'c) heap \<Rightarrow> mem_bucket_spec \<Rightarrow> addr set" where
  "bucketSpec_foot h v = set_option (ms_secretName v) \<union> set_option (ms_secretTemplate v)"

lemma bucketSpec_copying: "deep_copying bucketSpec_DeepCopyInto bucketSpec_holds bucketSpec_foot"
  using part_deep_copying [OF both_deep_copying [OF string_copy.deep_copying_axioms map_copy.deep_copying_axioms],
      where g = bucketSpec_DeepCopyInto
        and get = "\<lambda>v. (ms_secretName v, ms_secretTemplate v)"
        and put = "\<lambda>w v. v\<lparr>ms_secretName := fst w, ms_secretTemplate := snd w\<rparr>"
        and sel = "\<lambda>x. (bs_secretName x, bs_secretTemplate x)"
        and R = "\<lambda>v x. ms_provider v = bs_provider x \<and> ms_serviceAccount v = bs_serviceAccount x
          \<and> ms_reclaimPolicy v = bs_reclaimPolicy x"]
  by (simp add: bucketSpec_DeepCopyInto_def copy_both_def case_prod_unfold bucketSpec_holds_def [abs_def]
      bucketSpec_foot_def [abs_def])

definition bucketStatus_DeepCopyInto :: "('m, 'c, 'l) metadata_package \<Rightarrow> mem_bucket_status \<Rightarrow>
    ('m, 'c, mem_bucket_status) copying" where
  "bucketStatus_DeepCopyInto K v = do {
     endpoint \<leftarrow> copy_string (mst_endpoint v);
     secretName \<leftarrow> copy_string (mst_secretName v);
     conditions \<leftarrow> copy_conditions K (mst_conditions v);
     ret (v\<lparr>mst_endpoint := endpoint, mst_secretName := secretName, mst_conditions := conditions\<rparr>) }"

definition bucketStatus_DeepCopy :: "('m, 'c, 'l) metadata_package \<Rightarrow> mem_bucket_status option \<Rightarrow>
    ('m, 'c, mem_bucket_status option) copying" where
  "bucketStatus_DeepCopy K p = deep_copy (bucketStatus_DeepCopyInto K) p"

definition bucketStatus_holds :: "('m, 'c) heap \<Rightarrow> mem_bucket_status \<Rightarrow> bucket_status \<Rightarrow> bool" where
  "bucketStatus_holds h v x \<longleftrightarrow>
     (string_holds h (mst_endpoint v) (bst_endpoint x) \<and> string_holds h (mst_secretName v) (bst_secretName x)
      \<and> conditions_hold h (mst_conditions v) (bst_conditions x))
   \<and> mst_phase v = bst_phase x"

definition bucketStatus_foot :: "('m, 'c) heap \<Rightarrow> mem_bucket_status \<Rightarrow> addr set" where
  "bucketStatus_foot h v = set_option (mst_endpoint v) \<union> (set_option (mst_secretName v)
     \<union> conditions_foot h (mst_conditions v))"

lemma conditions_copying:
  "metadata_contract K M \<Longrightarrow> deep_copying (copy_conditions K) conditions_hold conditions_foot"
  unfolding metadata_contract_def by (rule deep_copying.slice_deep_copying) simp_all

lemma bucketStatus_copying:
  assumes "metadata_contract K M"
  shows "deep_copying (bucketStatus_DeepCopyInto K) bucketStatus_holds bucketStatus_foot"
  using part_deep_copying [OF both_deep_copying [OF string_copy.deep_copying_axioms
          both_deep_copying [OF string_copy.deep_copying_axioms conditions_copying [OF assms]]],
      where g = "bucketStatus_DeepCopyInto K"
        and get = "\<lambda>v. (mst_endpoint v, mst_secretName v, mst_conditions v)"
        and put = "\<lambda>w v. v\<lparr>mst_endpoint := fst w, mst_secretName := fst (snd w), mst_conditions := snd (snd w)\<rparr>"
        and sel = "\<lambda>x. (bst_endpoint x, bst_secretName x, bst_conditions x)"
        and R = "\<lambda>v x. mst_phase v = bst_phase x"]
  by (simp add: bucketStatus_DeepCopyInto_def copy_both_def case_prod_unfold bucketStatus_holds_def [abs_def]
      bucketStatus_foot_def [abs_def])

definition providerStatus_DeepCopyInto :: "('m, 'c, 'l) metadata_package \<Rightarrow> mem_provider_status \<Rightarrow>
    ('m, 'c, mem_provider_status) copying" where
  "providerStatus_DeepCopyInto K v = do {
     conditions \<leftarrow> copy_conditions K (mpt_conditions v);
     ret (v\<lparr>mpt_conditions := conditions\<rparr>) }"

definition providerStatus_DeepCopy :: "('m, 'c, 'l) metadata_package \<Rightarrow> mem_provider_status option \<Rightarrow>
    ('m, 'c, mem_provider_status option) copying" where
  "providerStatus_DeepCopy K p = deep_copy (providerStatus_DeepCopyInto K) p"

definition providerStatus_holds :: "('m, 'c) heap \<Rightarrow> mem_provider_status \<Rightarrow> provider_status \<Rightarrow> bool" where
  "providerStatus_holds h v x \<longleftrightarrow>
     conditions_hold h (mpt_conditions v) (pst_conditions x) \<and> mpt_phase v = pst_phase x"

definition providerStatus_foot :: "('m, 'c) heap \<Rightarrow> mem_provider_status \<Rightarrow> addr set" where
  "providerStatus_foot h v = conditions_foot h (mpt_conditions v)"

lemma providerStatus_copying:
  assumes "metadata_contract K M"
  shows "deep_copying (providerStatus_DeepCopyInto K) providerStatus_holds providerStatus_foot"
  using part_deep_copying [OF conditions_copying [OF assms],
      where g = "providerStatus_DeepCopyInto K" and get = mpt_conditions
        and put = "\<lambda>w v. v\<lparr>mpt_conditions := w\<rparr>" and sel = pst_conditions
        and R = "\<lambda>v x. mpt_phase v = pst_phase x"]
  by (simp add: providerStatus_DeepCopyInto_def case_prod_unfold providerStatus_holds_def [abs_def]
      providerStatus_foot_def [abs_def])

definition accountStatus_DeepCopyInto :: "('m, 'c, 'l) metadata_package \<Rightarrow> mem_account_status \<Rightarrow>
    ('m, 'c, mem_account_status) copying" where
  "accountStatus_DeepCopyInto K v = do {
     secretName \<leftarrow> copy_string (mat_secretName v);
     conditions \<leftarrow> copy_conditions K (mat_conditions v);
     ret (v\<lparr>mat_secretName := secretName, mat_conditions := conditions\<rparr>) }"

definition accountStatus_DeepCopy :: "('m, 'c, 'l) metadata_package \<Rightarrow> mem_account_status option \<Rightarrow>
    ('m, 'c, mem_account_status option) copying" where
  "accountStatus_DeepCopy K p = deep_copy (accountStatus_DeepCopyInto K) p"

definition accountStatus_holds :: "('m, 'c) heap \<Rightarrow> mem_account_status \<Rightarrow> account_status \<Rightarrow> bool" where
  "accountStatus_holds h v x \<longleftrightarrow>
     (string_holds h (mat_secretName v) (ast_secretName x) \<and> conditions_hold h (mat_conditions v) (ast_conditions x))
   \<and> mat_phase v = ast_phase x"

definition accountStatus_foot :: "('m, 'c) heap \<Rightarrow> mem_account_status \<Rightarrow> addr set" where
  "accountStatus_foot h v = set_option (mat_secretName v) \<union> conditions_foot h (mat_conditions v)"

lemma accountStatus_copying:
  assumes "metadata_contract K M"
  shows "deep_copying (accountStatus_DeepCopyInto K) accountStatus_holds accountStatus_foot"
  using part_deep_copying [OF both_deep_copying [OF string_copy.deep_copying_axioms conditions_copying [OF assms]],
      where g = "accountStatus_DeepCopyInto K"
        and get = "\<lambda>v. (mat_secretName v, mat_conditions v)"
        and put = "\<lambda>w v. v\<lparr>mat_secretName := fst w, mat_conditions := snd w\<rparr>"
        and sel = "\<lambda>x. (ast_secretName x, ast_conditions x)"
        and R = "\<lambda>v x. mat_phase v = ast_phase x"]
  by (simp add: accountStatus_DeepCopyInto_def copy_both_def case_prod_unfold accountStatus_holds_def [abs_def]
      accountStatus_foot_def [abs_def])

section \<open>Objects\<close>

text \<open>An object stands for its type metadata and an API value.\<close>

definition bucket_DeepCopyInto :: "('m, 'c, 'l) metadata_package \<Rightarrow> 'm mem_bucket \<Rightarrow> ('m, 'c, 'm mem_bucket) copying" where
  "bucket_DeepCopyInto K v = do {
     objectMeta \<leftarrow> mc_object K (mb_meta v);
     spec \<leftarrow> bucketSpec_DeepCopyInto (mb_spec v);
     status \<leftarrow> bucketStatus_DeepCopyInto K (mb_status v);
     ret (v\<lparr>mb_type := mb_type v, mb_meta := objectMeta, mb_spec := spec, mb_status := status\<rparr>) }"

definition bucket_DeepCopy :: "('m, 'c, 'l) metadata_package \<Rightarrow> 'm mem_bucket option \<Rightarrow>
    ('m, 'c, 'm mem_bucket option) copying" where
  "bucket_DeepCopy K p = deep_copy (bucket_DeepCopyInto K) p"

definition bucket_DeepCopyObject :: "('m, 'c, 'l) metadata_package \<Rightarrow> 'm mem_bucket option \<Rightarrow>
    ('m, 'c, 'm mem_bucket interface) copying" where
  "bucket_DeepCopyObject K p = do { c \<leftarrow> bucket_DeepCopy K p; ret (copied_object c) }"

definition bucket_holds :: "('m, 'c, 'l, 'k) metadata_meaning \<Rightarrow> ('m, 'c) heap \<Rightarrow> 'm mem_bucket \<Rightarrow>
    type_meta \<times> bucket \<Rightarrow> bool" where
  "bucket_holds M h v x \<longleftrightarrow>
     (mm_object_holds M h (mb_meta v) (b_meta (snd x)) \<and> bucketSpec_holds h (mb_spec v) (b_spec (snd x))
      \<and> bucketStatus_holds h (mb_status v) (b_status (snd x)))
   \<and> mb_type v = fst x"

definition bucket_foot :: "('m, 'c, 'l, 'k) metadata_meaning \<Rightarrow> ('m, 'c) heap \<Rightarrow> 'm mem_bucket \<Rightarrow> addr set" where
  "bucket_foot M h v = mm_object_foot M h (mb_meta v) \<union> (bucketSpec_foot h (mb_spec v)
     \<union> bucketStatus_foot h (mb_status v))"

lemma object_metadata_copying:
  "metadata_contract K M \<Longrightarrow> deep_copying (mc_object K) (mm_object_holds M) (mm_object_foot M)"
  by (simp add: metadata_contract_def)

lemma bucket_copying:
  assumes "metadata_contract K M"
  shows "deep_copying (bucket_DeepCopyInto K) (bucket_holds M) (bucket_foot M)"
  using part_deep_copying [OF both_deep_copying [OF object_metadata_copying [OF assms]
          both_deep_copying [OF bucketSpec_copying bucketStatus_copying [OF assms]]],
      where g = "bucket_DeepCopyInto K"
        and get = "\<lambda>v. (mb_meta v, mb_spec v, mb_status v)"
        and put = "\<lambda>w v. v\<lparr>mb_meta := fst w, mb_spec := fst (snd w), mb_status := snd (snd w)\<rparr>"
        and sel = "\<lambda>x. (b_meta (snd x), b_spec (snd x), b_status (snd x))"
        and R = "\<lambda>v x. mb_type v = fst x"]
  by (simp add: bucket_DeepCopyInto_def copy_both_def case_prod_unfold bucket_holds_def [abs_def]
      bucket_foot_def [abs_def])

definition provider_DeepCopyInto :: "('m, 'c, 'l) metadata_package \<Rightarrow> 'm mem_provider \<Rightarrow>
    ('m, 'c, 'm mem_provider) copying" where
  "provider_DeepCopyInto K v = do {
     objectMeta \<leftarrow> mc_object K (mp_meta v);
     status \<leftarrow> providerStatus_DeepCopyInto K (mp_status v);
     ret (v\<lparr>mp_type := mp_type v, mp_meta := objectMeta, mp_spec := mp_spec v, mp_status := status\<rparr>) }"

definition provider_DeepCopy :: "('m, 'c, 'l) metadata_package \<Rightarrow> 'm mem_provider option \<Rightarrow>
    ('m, 'c, 'm mem_provider option) copying" where
  "provider_DeepCopy K p = deep_copy (provider_DeepCopyInto K) p"

definition provider_DeepCopyObject :: "('m, 'c, 'l) metadata_package \<Rightarrow> 'm mem_provider option \<Rightarrow>
    ('m, 'c, 'm mem_provider interface) copying" where
  "provider_DeepCopyObject K p = do { c \<leftarrow> provider_DeepCopy K p; ret (copied_object c) }"

definition provider_holds :: "('m, 'c, 'l, 'k) metadata_meaning \<Rightarrow> ('m, 'c) heap \<Rightarrow> 'm mem_provider \<Rightarrow>
    type_meta \<times> provider \<Rightarrow> bool" where
  "provider_holds M h v x \<longleftrightarrow>
     (mm_object_holds M h (mp_meta v) (p_meta (snd x)) \<and> providerStatus_holds h (mp_status v) (p_status (snd x)))
   \<and> mp_type v = fst x \<and> mp_spec v = p_spec (snd x)"

definition provider_foot :: "('m, 'c, 'l, 'k) metadata_meaning \<Rightarrow> ('m, 'c) heap \<Rightarrow> 'm mem_provider \<Rightarrow> addr set" where
  "provider_foot M h v = mm_object_foot M h (mp_meta v) \<union> providerStatus_foot h (mp_status v)"

lemma provider_copying:
  assumes "metadata_contract K M"
  shows "deep_copying (provider_DeepCopyInto K) (provider_holds M) (provider_foot M)"
  using part_deep_copying [OF both_deep_copying [OF object_metadata_copying [OF assms] providerStatus_copying [OF assms]],
      where g = "provider_DeepCopyInto K"
        and get = "\<lambda>v. (mp_meta v, mp_status v)"
        and put = "\<lambda>w v. v\<lparr>mp_meta := fst w, mp_status := snd w\<rparr>"
        and sel = "\<lambda>x. (p_meta (snd x), p_status (snd x))"
        and R = "\<lambda>v x. mp_type v = fst x \<and> mp_spec v = p_spec (snd x)"]
  by (simp add: provider_DeepCopyInto_def copy_both_def case_prod_unfold provider_holds_def [abs_def]
      provider_foot_def [abs_def])

definition account_DeepCopyInto :: "('m, 'c, 'l) metadata_package \<Rightarrow> 'm mem_account \<Rightarrow>
    ('m, 'c, 'm mem_account) copying" where
  "account_DeepCopyInto K v = do {
     objectMeta \<leftarrow> mc_object K (ma_meta v);
     status \<leftarrow> accountStatus_DeepCopyInto K (ma_status v);
     ret (v\<lparr>ma_type := ma_type v, ma_meta := objectMeta, ma_spec := ma_spec v, ma_status := status\<rparr>) }"

definition account_DeepCopy :: "('m, 'c, 'l) metadata_package \<Rightarrow> 'm mem_account option \<Rightarrow>
    ('m, 'c, 'm mem_account option) copying" where
  "account_DeepCopy K p = deep_copy (account_DeepCopyInto K) p"

definition account_DeepCopyObject :: "('m, 'c, 'l) metadata_package \<Rightarrow> 'm mem_account option \<Rightarrow>
    ('m, 'c, 'm mem_account interface) copying" where
  "account_DeepCopyObject K p = do { c \<leftarrow> account_DeepCopy K p; ret (copied_object c) }"

definition account_holds :: "('m, 'c, 'l, 'k) metadata_meaning \<Rightarrow> ('m, 'c) heap \<Rightarrow> 'm mem_account \<Rightarrow>
    type_meta \<times> account \<Rightarrow> bool" where
  "account_holds M h v x \<longleftrightarrow>
     (mm_object_holds M h (ma_meta v) (a_meta (snd x)) \<and> accountStatus_holds h (ma_status v) (a_status (snd x)))
   \<and> ma_type v = fst x \<and> ma_spec v = a_spec (snd x)"

definition account_foot :: "('m, 'c, 'l, 'k) metadata_meaning \<Rightarrow> ('m, 'c) heap \<Rightarrow> 'm mem_account \<Rightarrow> addr set" where
  "account_foot M h v = mm_object_foot M h (ma_meta v) \<union> accountStatus_foot h (ma_status v)"

lemma account_copying:
  assumes "metadata_contract K M"
  shows "deep_copying (account_DeepCopyInto K) (account_holds M) (account_foot M)"
  using part_deep_copying [OF both_deep_copying [OF object_metadata_copying [OF assms] accountStatus_copying [OF assms]],
      where g = "account_DeepCopyInto K"
        and get = "\<lambda>v. (ma_meta v, ma_status v)"
        and put = "\<lambda>w v. v\<lparr>ma_meta := fst w, ma_status := snd w\<rparr>"
        and sel = "\<lambda>x. (a_meta (snd x), a_status (snd x))"
        and R = "\<lambda>v x. ma_type v = fst x \<and> ma_spec v = a_spec (snd x)"]
  by (simp add: account_DeepCopyInto_def copy_both_def case_prod_unfold account_holds_def [abs_def]
      account_foot_def [abs_def])

section \<open>Lists of objects\<close>

fun buckets_of :: "('m, 'c) cell \<Rightarrow> 'm mem_bucket list option" where
  "buckets_of (BucketCells xs) = Some xs"
| "buckets_of _ = None"

fun providers_of :: "('m, 'c) cell \<Rightarrow> 'm mem_provider list option" where
  "providers_of (ProviderCells xs) = Some xs"
| "providers_of _ = None"

fun accounts_of :: "('m, 'c) cell \<Rightarrow> 'm mem_account list option" where
  "accounts_of (AccountCells xs) = Some xs"
| "accounts_of _ = None"

abbreviation zero_type :: type_meta where "zero_type \<equiv> \<lparr>tm_kind = '''', tm_apiVersion = ''''\<rparr>"

definition zero_mem_bucket :: "'m \<Rightarrow> 'm mem_bucket" where
  "zero_mem_bucket m = \<lparr>mb_type = zero_type, mb_meta = m,
     mb_spec = \<lparr>ms_provider = '''', ms_serviceAccount = '''', ms_reclaimPolicy = '''', ms_secretName = None, ms_secretTemplate = None\<rparr>,
     mb_status = \<lparr>mst_endpoint = None, mst_secretName = None, mst_conditions = None, mst_phase = ''''\<rparr>\<rparr>"

definition zero_mem_provider :: "'m \<Rightarrow> 'm mem_provider" where
  "zero_mem_provider m = \<lparr>mp_type = zero_type, mp_meta = m, mp_spec = p_spec zero_provider,
     mp_status = \<lparr>mpt_conditions = None, mpt_phase = ''''\<rparr>\<rparr>"

definition zero_mem_account :: "'m \<Rightarrow> 'm mem_account" where
  "zero_mem_account m = \<lparr>ma_type = zero_type, ma_meta = m, ma_spec = a_spec zero_account,
     ma_status = \<lparr>mat_secretName = None, mat_conditions = None, mat_phase = ''''\<rparr>\<rparr>"

text \<open>A list stands for its type metadata, its list metadata and the values of its items.\<close>

definition list_holds :: "('m, 'c, 'l, 'k) metadata_meaning \<Rightarrow> (('m, 'c) heap \<Rightarrow> slice option \<Rightarrow> 'x list \<Rightarrow> bool) \<Rightarrow>
    ('m, 'c) heap \<Rightarrow> 'l mem_list \<Rightarrow> type_meta \<times> 'k \<times> 'x list \<Rightarrow> bool" where
  "list_holds M H h v x \<longleftrightarrow>
     (mm_list_holds M h (ml_meta v) (fst (snd x)) \<and> H h (ml_items v) (snd (snd x))) \<and> ml_type v = fst x"

definition list_foot :: "('m, 'c, 'l, 'k) metadata_meaning \<Rightarrow> (('m, 'c) heap \<Rightarrow> slice option \<Rightarrow> addr set) \<Rightarrow>
    ('m, 'c) heap \<Rightarrow> 'l mem_list \<Rightarrow> addr set" where
  "list_foot M F h v = mm_list_foot M h (ml_meta v) \<union> F h (ml_items v)"

lemma list_copying:
  assumes "metadata_contract K M" and "deep_copying copy_items H F"
    and "\<And>v. into v = do { listMeta \<leftarrow> mc_list K (ml_meta v); items \<leftarrow> copy_items (ml_items v);
      ret (v\<lparr>ml_type := ml_type v, ml_meta := listMeta, ml_items := items\<rparr>) }"
  shows "deep_copying into (list_holds M H) (list_foot M F)"
  using part_deep_copying [OF both_deep_copying [OF _ assms(2)],
      where f1 = "mc_list K" and H1 = "mm_list_holds M" and F1 = "mm_list_foot M"
        and g = into
        and get = "\<lambda>v. (ml_meta v, ml_items v)"
        and put = "\<lambda>w v. v\<lparr>ml_meta := fst w, ml_items := snd w\<rparr>"
        and sel = "\<lambda>x. (fst (snd x), snd (snd x))"
        and R = "\<lambda>v x. ml_type v = fst x"] assms(1)
  by (simp add: assms(3) metadata_contract_def copy_both_def case_prod_unfold list_holds_def [abs_def] list_foot_def [abs_def])

definition bucketList_DeepCopyInto :: "('m, 'c, 'l) metadata_package \<Rightarrow> 'l mem_bucketList \<Rightarrow> ('m, 'c, 'l mem_bucketList) copying" where
  "bucketList_DeepCopyInto K v = do {
     listMeta \<leftarrow> mc_list K (ml_meta v);
     items \<leftarrow> copy_slice BucketCells buckets_of (zero_mem_bucket (mc_zero K)) (bucket_DeepCopyInto K) (ml_items v);
     ret (v\<lparr>ml_type := ml_type v, ml_meta := listMeta, ml_items := items\<rparr>) }"

definition bucketList_DeepCopy :: "('m, 'c, 'l) metadata_package \<Rightarrow> 'l mem_bucketList option \<Rightarrow>
    ('m, 'c, 'l mem_bucketList option) copying" where
  "bucketList_DeepCopy K p = deep_copy (bucketList_DeepCopyInto K) p"

definition bucketList_DeepCopyObject :: "('m, 'c, 'l) metadata_package \<Rightarrow> 'l mem_bucketList option \<Rightarrow>
    ('m, 'c, 'l mem_bucketList interface) copying" where
  "bucketList_DeepCopyObject K p = do { c \<leftarrow> bucketList_DeepCopy K p; ret (copied_object c) }"

abbreviation bucketList_holds :: "('m, 'c, 'l, 'k) metadata_meaning \<Rightarrow> ('m, 'c) heap \<Rightarrow> 'l mem_bucketList \<Rightarrow>
    type_meta \<times> 'k \<times> (type_meta \<times> bucket) list \<Rightarrow> bool" where
  "bucketList_holds M \<equiv> list_holds M (slice_holds buckets_of (bucket_holds M))"

abbreviation bucketList_foot :: "('m, 'c, 'l, 'k) metadata_meaning \<Rightarrow> ('m, 'c) heap \<Rightarrow> 'l mem_bucketList \<Rightarrow> addr set" where
  "bucketList_foot M \<equiv> list_foot M (slice_foot buckets_of (bucket_foot M))"

lemma bucketList_copying:
  assumes "metadata_contract K M"
  shows "deep_copying (bucketList_DeepCopyInto K) (bucketList_holds M) (bucketList_foot M)"
  by (rule list_copying [OF assms deep_copying.slice_deep_copying [OF bucket_copying [OF assms]]])
     (simp_all add: bucketList_DeepCopyInto_def)

definition providerList_DeepCopyInto :: "('m, 'c, 'l) metadata_package \<Rightarrow> 'l mem_providerList \<Rightarrow> ('m, 'c, 'l mem_providerList) copying" where
  "providerList_DeepCopyInto K v = do {
     listMeta \<leftarrow> mc_list K (ml_meta v);
     items \<leftarrow> copy_slice ProviderCells providers_of (zero_mem_provider (mc_zero K)) (provider_DeepCopyInto K) (ml_items v);
     ret (v\<lparr>ml_type := ml_type v, ml_meta := listMeta, ml_items := items\<rparr>) }"

definition providerList_DeepCopy :: "('m, 'c, 'l) metadata_package \<Rightarrow> 'l mem_providerList option \<Rightarrow>
    ('m, 'c, 'l mem_providerList option) copying" where
  "providerList_DeepCopy K p = deep_copy (providerList_DeepCopyInto K) p"

definition providerList_DeepCopyObject :: "('m, 'c, 'l) metadata_package \<Rightarrow> 'l mem_providerList option \<Rightarrow>
    ('m, 'c, 'l mem_providerList interface) copying" where
  "providerList_DeepCopyObject K p = do { c \<leftarrow> providerList_DeepCopy K p; ret (copied_object c) }"

abbreviation providerList_holds :: "('m, 'c, 'l, 'k) metadata_meaning \<Rightarrow> ('m, 'c) heap \<Rightarrow> 'l mem_providerList \<Rightarrow>
    type_meta \<times> 'k \<times> (type_meta \<times> provider) list \<Rightarrow> bool" where
  "providerList_holds M \<equiv> list_holds M (slice_holds providers_of (provider_holds M))"

abbreviation providerList_foot :: "('m, 'c, 'l, 'k) metadata_meaning \<Rightarrow> ('m, 'c) heap \<Rightarrow> 'l mem_providerList \<Rightarrow> addr set" where
  "providerList_foot M \<equiv> list_foot M (slice_foot providers_of (provider_foot M))"

lemma providerList_copying:
  assumes "metadata_contract K M"
  shows "deep_copying (providerList_DeepCopyInto K) (providerList_holds M) (providerList_foot M)"
  by (rule list_copying [OF assms deep_copying.slice_deep_copying [OF provider_copying [OF assms]]])
     (simp_all add: providerList_DeepCopyInto_def)

definition accountList_DeepCopyInto :: "('m, 'c, 'l) metadata_package \<Rightarrow> 'l mem_accountList \<Rightarrow> ('m, 'c, 'l mem_accountList) copying" where
  "accountList_DeepCopyInto K v = do {
     listMeta \<leftarrow> mc_list K (ml_meta v);
     items \<leftarrow> copy_slice AccountCells accounts_of (zero_mem_account (mc_zero K)) (account_DeepCopyInto K) (ml_items v);
     ret (v\<lparr>ml_type := ml_type v, ml_meta := listMeta, ml_items := items\<rparr>) }"

definition accountList_DeepCopy :: "('m, 'c, 'l) metadata_package \<Rightarrow> 'l mem_accountList option \<Rightarrow>
    ('m, 'c, 'l mem_accountList option) copying" where
  "accountList_DeepCopy K p = deep_copy (accountList_DeepCopyInto K) p"

definition accountList_DeepCopyObject :: "('m, 'c, 'l) metadata_package \<Rightarrow> 'l mem_accountList option \<Rightarrow>
    ('m, 'c, 'l mem_accountList interface) copying" where
  "accountList_DeepCopyObject K p = do { c \<leftarrow> accountList_DeepCopy K p; ret (copied_object c) }"

abbreviation accountList_holds :: "('m, 'c, 'l, 'k) metadata_meaning \<Rightarrow> ('m, 'c) heap \<Rightarrow> 'l mem_accountList \<Rightarrow>
    type_meta \<times> 'k \<times> (type_meta \<times> account) list \<Rightarrow> bool" where
  "accountList_holds M \<equiv> list_holds M (slice_holds accounts_of (account_holds M))"

abbreviation accountList_foot :: "('m, 'c, 'l, 'k) metadata_meaning \<Rightarrow> ('m, 'c) heap \<Rightarrow> 'l mem_accountList \<Rightarrow> addr set" where
  "accountList_foot M \<equiv> list_foot M (slice_foot accounts_of (account_foot M))"

lemma accountList_copying:
  assumes "metadata_contract K M"
  shows "deep_copying (accountList_DeepCopyInto K) (accountList_holds M) (accountList_foot M)"
  by (rule list_copying [OF assms deep_copying.slice_deep_copying [OF account_copying [OF assms]]])
     (simp_all add: accountList_DeepCopyInto_def)

section \<open>Copies are faithful and apart\<close>

text \<open>
  What the callers of \<^verbatim>\<open>DeepCopyObject\<close> rely on: it answers a pointer to a structure that stands
  for the same value, the original is as it was, the two share no cell, and neither sees a
  change outside its own cells.
\<close>

definition faithful_copy :: "(('m, 'c) heap \<Rightarrow> 'v \<Rightarrow> 'x \<Rightarrow> bool) \<Rightarrow> (('m, 'c) heap \<Rightarrow> 'v \<Rightarrow> addr set) \<Rightarrow>
    ('m, 'c) heap \<Rightarrow> 'v \<Rightarrow> 'x \<Rightarrow> 'v interface \<times> ('m, 'c) heap \<Rightarrow> bool" where
  "faithful_copy H F h v x r \<longleftrightarrow> (case r of
     (Some (Some c), h') \<Rightarrow> heap_ok h' \<and> extends h h' \<and> H h' c x \<and> H h' v x \<and> F h' v \<inter> F h' c = {}
       \<and> (\<forall>h2. (\<forall>a. a \<notin> F h' c \<longrightarrow> cells h2 a = cells h' a) \<longrightarrow> H h2 v x)
       \<and> (\<forall>h2. (\<forall>a. a \<notin> F h' v \<longrightarrow> cells h2 a = cells h' a) \<longrightarrow> H h2 c x)
   | _ \<Rightarrow> False)"

lemma deep_copy_faithful:
  assumes "deep_copying into H F" and "heap_ok h" and "H h v x"
  shows "faithful_copy H F h v x (run_state (do { c \<leftarrow> deep_copy into (Some v); ret (copied_object c) }) h)"
proof -
  obtain c h' where r: "run_state (into v) h = (c, h')" by fastforce
  note i = deep_copying.isolated [OF assms r]
  have "heap_ok h' \<and> extends h h'" using deep_copying.copies [OF assms r] by blast
  then show ?thesis using r i(1-3) i(4,5) [of _ ]
    by (simp add: faithful_copy_def deep_copy_def copied_object_def)
qed

lemmas copy_object_defs =
  bucket_DeepCopyObject_def bucket_DeepCopy_def provider_DeepCopyObject_def provider_DeepCopy_def
  account_DeepCopyObject_def account_DeepCopy_def bucketList_DeepCopyObject_def bucketList_DeepCopy_def
  providerList_DeepCopyObject_def providerList_DeepCopy_def accountList_DeepCopyObject_def accountList_DeepCopy_def

text \<open>
  C39. When the package of the metadata keeps its contract, the copies of the three kinds of
  objects and of their lists answer a structure with the same API value that shares nothing
  with the original, so that neither sees the changes of the other.
\<close>
theorem deep_copies_apart:
  assumes "metadata_contract K M" and "heap_ok h"
  shows "(\<forall>b x. bucket_holds M h b x \<longrightarrow>
        faithful_copy (bucket_holds M) (bucket_foot M) h b x (run_state (bucket_DeepCopyObject K (Some b)) h))
    \<and> (\<forall>p y. provider_holds M h p y \<longrightarrow>
        faithful_copy (provider_holds M) (provider_foot M) h p y (run_state (provider_DeepCopyObject K (Some p)) h))
    \<and> (\<forall>a z. account_holds M h a z \<longrightarrow>
        faithful_copy (account_holds M) (account_foot M) h a z (run_state (account_DeepCopyObject K (Some a)) h))
    \<and> (\<forall>bl xs. bucketList_holds M h bl xs \<longrightarrow>
        faithful_copy (bucketList_holds M) (bucketList_foot M) h bl xs (run_state (bucketList_DeepCopyObject K (Some bl)) h))
    \<and> (\<forall>pl ys. providerList_holds M h pl ys \<longrightarrow>
        faithful_copy (providerList_holds M) (providerList_foot M) h pl ys (run_state (providerList_DeepCopyObject K (Some pl)) h))
    \<and> (\<forall>al zs. accountList_holds M h al zs \<longrightarrow>
        faithful_copy (accountList_holds M) (accountList_foot M) h al zs (run_state (accountList_DeepCopyObject K (Some al)) h))
    \<and> run_state (bucket_DeepCopyObject K None) h = (None, h)
    \<and> run_state (provider_DeepCopyObject K None) h = (None, h)
    \<and> run_state (account_DeepCopyObject K None) h = (None, h)
    \<and> run_state (bucketList_DeepCopyObject K None) h = (None, h)
    \<and> run_state (providerList_DeepCopyObject K None) h = (None, h)
    \<and> run_state (accountList_DeepCopyObject K None) h = (None, h)"
  unfolding copy_object_defs
  using deep_copy_faithful [OF bucket_copying [OF assms(1)] assms(2)]
    deep_copy_faithful [OF provider_copying [OF assms(1)] assms(2)]
    deep_copy_faithful [OF account_copying [OF assms(1)] assms(2)]
    deep_copy_faithful [OF bucketList_copying [OF assms(1)] assms(2)]
    deep_copy_faithful [OF providerList_copying [OF assms(1)] assms(2)]
    deep_copy_faithful [OF accountList_copying [OF assms(1)] assms(2)]
  by (intro conjI allI impI) (assumption | simp add: deep_copy_def copied_object_def)+

text \<open>A list of one bucket with a secret name, a template and a condition, with metadata without references.\<close>

definition plain_package :: "(object_meta, unit, unit) metadata_package" where
  "plain_package = \<lparr>mc_condition = copy_value, mc_object = copy_value, mc_list = copy_value,
     mc_zero = new_meta '''' '''', mc_zero_condition = \<lparr>cd_type = '''', cd_status = ConditionUnknown,
       cd_reason = '''', cd_message = '''', cd_observedGeneration = 0, cd_lastTransitionTime = 0\<rparr>\<rparr>"

definition plain_meaning :: "(object_meta, unit, unit, unit) metadata_meaning" where
  "plain_meaning = \<lparr>mm_object_holds = \<lambda>h v x. v = x, mm_object_foot = \<lambda>h v. {},
     mm_list_holds = \<lambda>h v x. v = x, mm_list_foot = \<lambda>h v. {}\<rparr>"

lemma plain_metadata: "metadata_contract plain_package plain_meaning"
  unfolding metadata_contract_def plain_package_def plain_meaning_def metadata_package.simps metadata_meaning.simps
  by (intro conjI value_copy.deep_copying_axioms)

abbreviation sample_condition :: condition where
  "sample_condition \<equiv> \<lparr>cd_type = ''Ready'', cd_status = ConditionTrue, cd_reason = '''', cd_message = '''',
     cd_observedGeneration = 1, cd_lastTransitionTime = 7\<rparr>"

definition sample_mem_bucket :: "object_meta mem_bucket" where
  "sample_mem_bucket = \<lparr>mb_type = \<lparr>tm_kind = ''Bucket'', tm_apiVersion = ''s3.linka.cloud/v1alpha1''\<rparr>,
     mb_meta = new_meta ''b'' ''ns'',
     mb_spec = \<lparr>ms_provider = ''p'', ms_serviceAccount = ''a'', ms_reclaimPolicy = ''Retain'',
       ms_secretName = Some 0, ms_secretTemplate = Some 1\<rparr>,
     mb_status = \<lparr>mst_endpoint = None, mst_secretName = Some 0,
       mst_conditions = Some \<lparr>sl_array = 2, sl_offset = 0, sl_length = 1\<rparr>, mst_phase = ''Ready''\<rparr>\<rparr>"

definition sample_bucket :: "type_meta \<times> bucket" where
  "sample_bucket = (mb_type sample_mem_bucket, \<lparr>b_meta = new_meta ''b'' ''ns'',
     b_spec = \<lparr>bs_provider = ''p'', bs_serviceAccount = ''a'', bs_reclaimPolicy = ''Retain'',
       bs_secretName = Some ''s'', bs_secretTemplate = [(''k'', ''v'')]\<rparr>,
     b_status = \<lparr>bst_endpoint = None, bst_secretName = Some ''s'', bst_conditions = [sample_condition],
       bst_phase = ''Ready''\<rparr>\<rparr>)"

definition sample_heap :: "(object_meta, unit) heap" where
  "sample_heap = \<lparr>cells = [0 \<mapsto> StringCell ''s'', 1 \<mapsto> MapCell [''k'' \<mapsto> ''v''],
     2 \<mapsto> ConditionCells [sample_condition], 3 \<mapsto> BucketCells [sample_mem_bucket]], limit = 4\<rparr>"

definition sample_list :: "unit mem_list" where
  "sample_list = \<lparr>ml_type = zero_type, ml_meta = (), ml_items = Some \<lparr>sl_array = 3, sl_offset = 0, sl_length = 1\<rparr>\<rparr>"

lemma sample_heap_ok: "heap_ok sample_heap"
  by (auto simp: sample_heap_def heap_ok_def)

lemma sample_holds: "bucketList_holds plain_meaning sample_heap sample_list (zero_type, (), [sample_bucket])"
  by (simp add: list_holds_def slice_holds_def sample_list_def sample_heap_def elements_def array_at_def
      plain_meaning_def bucket_holds_def bucketSpec_holds_def bucketStatus_holds_def sample_mem_bucket_def
      sample_bucket_def string_holds_def map_holds_def)

theorem deep_copies_apart_witness:
  "faithful_copy (bucketList_holds plain_meaning) (bucketList_foot plain_meaning) sample_heap sample_list
     (zero_type, (), [sample_bucket]) (run_state (bucketList_DeepCopyObject plain_package (Some sample_list)) sample_heap)"
  using deep_copies_apart [OF plain_metadata sample_heap_ok] sample_holds by blast

end
