(* ===== verification/Sites.thy ===== *)
theory Sites imports BucketProperties AccountWorlds Collector begin

text \<open>
  The life of one Bucket in a cluster of the reference environment that may hold any other
  objects: which worlds it goes through while the reconcilers of buckets and accounts, the
  collector and the clock take turns, from the object a user created to the one that can be
  used, and from its deletion to the end of its account. A world is the cluster without the
  Bucket, \<open>w\<close>, together with a phase; each turn is shown to move the phase.
\<close>

section \<open>Turns\<close>

abbreviation bucket_key :: "bucket \<Rightarrow> nsname" where
  "bucket_key b \<equiv> \<lparr>nn_name = b_name b, nn_namespace = b_namespace b\<rparr>"

abbreviation account_name :: "bucket \<Rightarrow> string" where
  "account_name b \<equiv> bs_serviceAccount (b_spec b)"

abbreviation account_key :: "bucket \<Rightarrow> nsname" where
  "account_key b \<equiv> \<lparr>nn_name = account_name b, nn_namespace = b_namespace b\<rparr>"

abbreviation keys_key :: "bucket \<Rightarrow> nsname" where
  "keys_key b \<equiv> \<lparr>nn_name = account_name b @ saSecretSuffix, nn_namespace = b_namespace b\<rparr>"

definition secret_name_of :: "bucket \<Rightarrow> string" where
  "secret_name_of b = (case bs_secretName (b_spec b) of
     None \<Rightarrow> b_name b @ ''-bucket-credentials'' | Some n \<Rightarrow> n)"

abbreviation secret_key :: "bucket \<Rightarrow> nsname" where
  "secret_key b \<equiv> \<lparr>nn_name = secret_name_of b, nn_namespace = b_namespace b\<rparr>"

definition policy_of :: "bucket \<Rightarrow> string" where
  "policy_of b = (if bs_reclaimPolicy (b_spec b) = '''' then BucketReclaimRetain else bs_reclaimPolicy (b_spec b))"

text \<open>A run of one of the reconcilers, of the collector (as the program starts it), or time that passes.\<close>

datatype turn = BucketTurn | AccountTurn | CollectorTurn | Wait nat

definition run_in :: "(sim, 'a) handler \<Rightarrow> sim \<Rightarrow> sim" where
  "run_in m w = world (final m (start w))"

fun take_turn :: "bucket \<Rightarrow> turn \<Rightarrow> sim \<Rightarrow> sim" where
  "take_turn b BucketTurn w = run_in (bucket_Reconcile ref_env (bucket_key b)) w"
| "take_turn b AccountTurn w = run_in (account_Reconcile ref_env (account_key b)) w"
| "take_turn b CollectorTurn w = run_in (gc_tick ref_env (60 * second)) w"
| "take_turn b (Wait d) w = w\<lparr>sim_clock := sim_clock w + int d\<rparr>"

section \<open>A Bucket and a cluster it fits into\<close>

text \<open>As a user writes it: any names, labels, secret name, reclaim policy and template, but no status.\<close>

definition fresh_bucket :: "bucket \<Rightarrow> bool" where
  "fresh_bucket b \<longleftrightarrow> om_deletionTimestamp (b_meta b) = None \<and> om_finalizers (b_meta b) = []
     \<and> om_ownerReferences (b_meta b) = [] \<and> (\<forall>c \<in> set (b_name b). plain c) \<and> bs_provider (b_spec b) \<noteq> ''''
     \<and> b_status b = b_status zero_bucket
     \<and> distinct (map fst (bs_secretTemplate (b_spec b))) \<and> template_ok ref_env (bs_secretTemplate (b_spec b))
     \<and> secret_name_of b \<noteq> account_name b @ saSecretSuffix"

definition provider_in :: "bucket \<Rightarrow> sim \<Rightarrow> provider" where
  "provider_in b w = the (map_of (sim_providers w) (provider_key b))"

definition credential_in :: "secret_ref \<Rightarrow> sim \<Rightarrow> secret" where
  "credential_in r w = the (map_of (sim_secrets w) \<lparr>nn_name = sr_name r, nn_namespace = sr_namespace r\<rparr>)"

definition credential_value :: "secret_ref \<Rightarrow> sim \<Rightarrow> string" where
  "credential_value r w = the (sec_data (credential_in r w) (sr_key r))"

definition has_credential :: "secret_ref \<Rightarrow> sim \<Rightarrow> bool" where
  "has_credential r w \<longleftrightarrow> map_of (sim_secrets w) \<lparr>nn_name = sr_name r, nn_namespace = sr_namespace r\<rparr> \<noteq> None
     \<and> sec_data (credential_in r w) (sr_key r) \<noteq> None"

text \<open>
  The provider exists with its credentials; the names of the Bucket, its account and their
  secrets are free in Kubernetes, and in MinIO; and no other account waits for its deletion.
\<close>

definition fits :: "bucket \<Rightarrow> sim \<Rightarrow> bool" where
  "fits b w \<longleftrightarrow> map_of (sim_providers w) (provider_key b) \<noteq> None
     \<and> ps_endpoint (p_spec (provider_in b w)) \<noteq> ''''
     \<and> has_credential (ps_accessKey (p_spec (provider_in b w))) w
     \<and> has_credential (ps_secretKey (p_spec (provider_in b w))) w
     \<and> map_of (sim_buckets w) (bucket_key b) = None
     \<and> (\<forall>x \<in> set (sim_buckets w). \<not> select_bucket (ownerKey, account_name b) (snd x))
     \<and> map_of (sim_accounts w) (account_key b) = None
     \<and> (\<forall>x \<in> set (sim_accounts w). \<forall>d \<in> set (a_conditions (snd x)). \<not> waits d)
     \<and> map_of (sim_secrets w) (secret_key b) = None \<and> map_of (sim_secrets w) (keys_key b) = None
     \<and> b_name b \<notin> set (sim_minio_buckets w) \<and> name (account_name b) \<notin> set (sim_users w)
     \<and> (\<forall>x \<in> set (sim_keys_of w). fst x \<noteq> name (account_name b))
     \<and> map_of (sim_policies w) (name (b_name b)) = None \<and> map_of (sim_attached w) (name (account_name b)) = None"

section \<open>From creation to use: the phases\<close>

text \<open>
  The Bucket's phase: 1 has the finalizer, 2 the name of its secret, 3 its reclaim policy, 4 its
  first condition, 5 its account, 6 its MinIO bucket, 7 its secret and Ready. The account's
  phase, once it is there: 1 has the finalizer, 2 its user and its key, 3 its policy and
  Ready. Then the times of the last conditions of the two and the clock.
\<close>

datatype phase = Phase nat nat int int int

abbreviation timed :: "int \<Rightarrow> condition \<Rightarrow> condition" where
  "timed t c \<equiv> c\<lparr>cd_lastTransitionTime := t\<rparr>"

definition grown_account :: "bucket \<Rightarrow> nat \<Rightarrow> int \<Rightarrow> account" where
  "grown_account b j ta = \<lparr>
     a_meta = (new_meta (account_name b) (b_namespace b))\<lparr>om_finalizers := if j \<ge> 1 then [finalizer] else []\<rparr>,
     a_spec = \<lparr>as_provider = bs_provider (b_spec b)\<rparr>,
     a_status = \<lparr>ast_secretName = if j \<ge> 2 then Some (account_name b @ saSecretSuffix) else None,
       ast_conditions =
         (if j \<ge> 3 then [timed ta (cond BucketSAConditionReady ConditionTrue ''Ready'' ''BucketServiceAccount is ready'' 0)]
          else if j \<ge> 2 then [timed ta (cond BucketSAConditionCreating ConditionTrue ''Creating'' ''BucketServiceAccount is being created'' 0)]
          else []),
       ast_phase = if j \<ge> 3 then ''Ready'' else ''''\<rparr>\<rparr>"

definition grown_bucket :: "bucket \<Rightarrow> sim \<Rightarrow> nat \<Rightarrow> int \<Rightarrow> bucket" where
  "grown_bucket b w i tb = \<lparr>
     b_meta = \<lparr>om_name = b_name b, om_namespace = b_namespace b, om_uid = om_uid (b_meta b),
       om_resourceVersion = om_resourceVersion (b_meta b), om_generation = om_generation (b_meta b),
       om_deletionTimestamp = None, om_labels = om_labels (b_meta b), om_annotations = om_annotations (b_meta b),
       om_finalizers = if i \<ge> 1 then [finalizer] else [],
       om_ownerReferences = if i \<ge> 5 then [ref_owner (AnyAccount (account_for b))] else []\<rparr>,
     b_spec = \<lparr>bs_provider = bs_provider (b_spec b), bs_serviceAccount = account_name b,
       bs_reclaimPolicy = if i \<ge> 3 then policy_of b else bs_reclaimPolicy (b_spec b),
       bs_secretName = if i \<ge> 2 then Some (secret_name_of b) else bs_secretName (b_spec b),
       bs_secretTemplate = bs_secretTemplate (b_spec b)\<rparr>,
     b_status = \<lparr>bst_endpoint = if i \<ge> 6 then Some (ps_endpoint (p_spec (provider_in b w))) else None,
       bst_secretName = if i \<ge> 7 then Some (secret_name_of b) else None,
       bst_conditions =
         (if i \<ge> 7 then [timed tb (cond BucketConditionReady ConditionTrue ''Ready'' ''Bucket is ready'' (om_generation (b_meta b)))]
          else if i \<ge> 4 then [timed tb (cond BucketConditionCreating ConditionTrue ''Creating'' ''Bucket is being created'' (om_generation (b_meta b)))]
          else []),
       bst_phase = if i \<ge> 7 then ''Ready'' else if i \<ge> 4 then ''Creating'' else ''''\<rparr>\<rparr>"

text \<open>The key that MinIO makes for the account, the secret that holds it, and the secret of the Bucket.\<close>

definition new_key :: "sim \<Rightarrow> string" where
  "new_key w = ''AK'' @ replicate (sim_keys w) CHR ''x''"

definition keys_secret :: "bucket \<Rightarrow> sim \<Rightarrow> secret" where
  "keys_secret b w = \<lparr>
     sec_meta = (new_meta (account_name b @ saSecretSuffix) (b_namespace b))\<lparr>
       om_labels := [''app.kubernetes.io/managed-by'' \<mapsto> ''minio-bucket-controller'', ServiceAccountAnnotation \<mapsto> account_name b],
       om_ownerReferences := [ref_owner (AnyAccount (account_for b))]\<rparr>,
     sec_type = BucketSASecretType, sec_data = [MinioAccessKey \<mapsto> new_key w, MinioSecretKey \<mapsto> ''SK'']\<rparr>"

definition client_in :: "bucket \<Rightarrow> sim \<Rightarrow> mc_client" where
  "client_in b w = (let p = p_spec (provider_in b w);
       c = \<lparr>sdk_endpoint = ps_endpoint p, sdk_accessKey = credential_value (ps_accessKey p) w,
         sdk_secretKey = credential_value (ps_secretKey p) w, sdk_secure = \<not> ps_insecure p\<rparr> in
     \<lparr>AdminClient = c, Client = c\<rparr>)"

definition used_data :: "bucket \<Rightarrow> sim \<Rightarrow> string \<rightharpoonup> string" where
  "used_data b w = projr (render ref_env (access_of ref_env (client_in b w) b (keys_secret b w))
     (bs_secretTemplate (b_spec b)) (access_data ref_env (client_in b w) b (keys_secret b w)))"

definition used_secret :: "bucket \<Rightarrow> sim \<Rightarrow> secret" where
  "used_secret b w = \<lparr>
     sec_meta = (new_meta (secret_name_of b) (b_namespace b))\<lparr>om_labels := om_labels (b_meta b),
       om_ownerReferences := [ref_owner (AnyBucket b)]\<rparr>,
     sec_type = BucketAccessSecretType, sec_data = used_data b w\<rparr>"

definition policy_text :: "bucket \<Rightarrow> string" where
  "policy_text b = compact_head @ b_name b @ compact_middle @ b_name b @ compact_tail"

fun site_world :: "bucket \<Rightarrow> sim \<Rightarrow> phase \<Rightarrow> sim" where
  "site_world b w (Phase i j tb ta c) = \<lparr>
     sim_buckets = sim_buckets w @ [(bucket_key b, grown_bucket b w i tb)],
     sim_accounts = sim_accounts w @ (if i \<ge> 5 then [(account_key b, grown_account b j ta)] else []),
     sim_providers = sim_providers w,
     sim_secrets = sim_secrets w @ (if j \<ge> 2 then [(keys_key b, keys_secret b w)] else [])
       @ (if i \<ge> 7 then [(secret_key b, used_secret b w)] else []),
     sim_clock = c,
     sim_keys = if j \<ge> 2 then Suc (sim_keys w) else sim_keys w,
     sim_minio_buckets = sim_minio_buckets w @ (if i \<ge> 6 then [b_name b] else []),
     sim_users = (if j \<ge> 2 then [name (account_name b)] else []) @ sim_users w,
     sim_keys_of = (if j \<ge> 2 then [(name (account_name b), new_key w)] else []) @ sim_keys_of w,
     sim_policies = sim_policies w @ (if j \<ge> 3 then [(name (b_name b), policy_text b)] else []),
     sim_attached = sim_attached w @ (if j \<ge> 3 then [(name (account_name b), name (b_name b))] else [])\<rparr>"

section \<open>What a run looks up\<close>

lemma put_new: "map_of l k = None \<Longrightarrow> put k v l = l @ [(k, v)]"
  by (induction k v l rule: put.induct) (auto split: if_splits)

lemma put_skip: "map_of l k = None \<Longrightarrow> put k v (l @ r) = l @ put k v r"
  by (induction k v l rule: put.induct) (auto split: if_splits)

lemma drop_none: "map_of l k = None \<Longrightarrow> drop_key k l = l"
  unfolding drop_key_def by (induction l) (auto split: if_splits)

lemma drop_skip: "map_of l k = None \<Longrightarrow> drop_key k (l @ r) = l @ drop_key k r"
  using drop_none [of l k] by (simp add: drop_key_def)

lemma drop_Cons: "drop_key k ((k', v) # l) = (if k' = k then drop_key k l else (k', v) # drop_key k l)"
  by (simp add: drop_key_def)

lemma map_of_skip: "map_of l k = None \<Longrightarrow> map_of (l @ r) k = map_of r k"
  by (simp add: map_add_def split: option.splits)

lemma map_of_found: "map_of l k = Some x \<Longrightarrow> map_of (l @ r) k = Some x"
  by simp

lemmas list_facts = put_new put_skip drop_none drop_skip drop_Cons map_of_skip map_of_found

lemma bucket_facts:
  assumes "fresh_bucket b"
  shows "bs_provider (b_spec b) \<noteq> ''''" "Policy (b_name b) = Returns (policy_text b)"
    "secret_name_of b \<noteq> account_name b @ saSecretSuffix" "account_name b @ saSecretSuffix \<noteq> secret_name_of b"
  using assms Policy_plain [of "b_name b"] by (auto simp: fresh_bucket_def policy_text_def)

lemma cluster_facts:
  assumes "fits b w"
  shows "map_of (sim_providers w) \<lparr>nn_name = bs_provider (b_spec b), nn_namespace = ''''\<rparr> = Some (provider_in b w)"
    "ps_endpoint (p_spec (provider_in b w)) \<noteq> ''''"
    "map_of (sim_buckets w) (bucket_key b) = None" "map_of (sim_accounts w) (account_key b) = None"
    "map_of (sim_secrets w) (secret_key b) = None" "map_of (sim_secrets w) (keys_key b) = None"
    "b_name b \<notin> set (sim_minio_buckets w)" "name (account_name b) \<notin> set (sim_users w)"
    "map_of (sim_policies w) (name (b_name b)) = None" "map_of (sim_attached w) (name (account_name b)) = None"
  using assms by (auto simp: fits_def provider_in_def provider_key_def)

lemma credential_facts:
  assumes "has_credential r w"
  shows "map_of (sim_secrets w) \<lparr>nn_name = sr_name r, nn_namespace = sr_namespace r\<rparr> = Some (credential_in r w)"
    "sec_data (credential_in r w) (sr_key r) = Some (credential_value r w)"
  using assms by (auto simp: has_credential_def credential_in_def credential_value_def)

lemma client_facts:
  assumes "fits b w"
  defines "ak \<equiv> ps_accessKey (p_spec (provider_in b w))" and "sk \<equiv> ps_secretKey (p_spec (provider_in b w))"
  shows "map_of (sim_secrets w) \<lparr>nn_name = sr_name ak, nn_namespace = sr_namespace ak\<rparr> = Some (credential_in ak w)"
    "sec_data (credential_in ak w) (sr_key ak) = Some (credential_value ak w)"
    "map_of (sim_secrets w) \<lparr>nn_name = sr_name sk, nn_namespace = sr_namespace sk\<rparr> = Some (credential_in sk w)"
    "sec_data (credential_in sk w) (sr_key sk) = Some (credential_value sk w)"
  using assms(1) credential_facts [of ak w] credential_facts [of sk w] unfolding ak_def sk_def fits_def by blast+

lemma users_facts:
  assumes "fits b w"
  shows "filter (\<lambda>v. v \<noteq> name (account_name b)) (sim_users w) = sim_users w"
    "filter (\<lambda>(v, _). v = name (account_name b)) (sim_keys_of w) = []"
    "filter (\<lambda>(v, _). v \<noteq> name (account_name b)) (sim_keys_of w) = sim_keys_of w"
    "map_of (map (\<lambda>u. (u, ''enabled'')) (sim_users w)) (name (account_name b)) = None"
    "filter (\<lambda>m. m \<noteq> b_name b) (sim_minio_buckets w) = sim_minio_buckets w"
    "filter (select_bucket (ownerKey, account_name b)) (map snd (sim_buckets w)) = []"
proof -
  have "name (account_name b) \<notin> set (sim_users w)" "\<forall>x \<in> set (sim_keys_of w). fst x \<noteq> name (account_name b)"
    "b_name b \<notin> set (sim_minio_buckets w)" "\<forall>x \<in> set (sim_buckets w). \<not> select_bucket (ownerKey, account_name b) (snd x)"
    using assms by (auto simp: fits_def)
  then show "filter (\<lambda>v. v \<noteq> name (account_name b)) (sim_users w) = sim_users w"
    "filter (\<lambda>(v, _). v = name (account_name b)) (sim_keys_of w) = []"
    "filter (\<lambda>(v, _). v \<noteq> name (account_name b)) (sim_keys_of w) = sim_keys_of w"
    "map_of (map (\<lambda>u. (u, ''enabled'')) (sim_users w)) (name (account_name b)) = None"
    "filter (\<lambda>m. m \<noteq> b_name b) (sim_minio_buckets w) = sim_minio_buckets w"
    "filter (select_bucket (ownerKey, account_name b)) (map snd (sim_buckets w)) = []"
    by (auto simp: filter_empty_conv filter_id_conv map_of_eq_None_iff image_image split: prod.splits)
qed

text \<open>The templates of the Bucket can be rendered.\<close>

lemma render_ok:
  "\<forall>(k, v) \<in> set m. template_parse ref_env v = None \<Longrightarrow> \<exists>d'. render ref_env a m d = Inr d'"
  by (induction m arbitrary: d) (auto simp: ref_env_simps ref_template_def)

lemma used_data:
  assumes "fresh_bucket b"
  shows "render ref_env (access_of ref_env (client_in b w) b (keys_secret b w)) (bs_secretTemplate (b_spec b))
     (access_data ref_env (client_in b w) b (keys_secret b w)) = Inr (used_data b w)"
proof -
  have "\<forall>(k, v) \<in> set (bs_secretTemplate (b_spec b)). template_parse ref_env v = None"
    using assms by (auto simp: fresh_bucket_def template_ok_def)
  from render_ok [OF this, of "access_of ref_env (client_in b w) b (keys_secret b w)"
      "access_data ref_env (client_in b w) b (keys_secret b w)"] show ?thesis
    by (auto simp: used_data_def)
qed

lemmas grown_defs = grown_bucket_def grown_account_def

text \<open>What the runs need not look into.\<close>

lemmas opaque = name_def prefix_name_def saSecretSuffix_def finalizer_def drop_key_def map_of_append ownerKey_def select_bucket_def

lemma owner_facts:
  "or_name (ref_owner (AnyAccount (account_for b))) = account_name b"
  "or_controller (ref_owner x) = Some True"
  by (simp_all add: ref_owner_def account_for_def ref_controller_of_def Let_def new_meta_def)

lemma select_owned: "select_bucket (ownerKey, n) \<lparr>b_meta = m, b_spec = sp, b_status = st\<rparr>
   = (case ref_controller_of (om_ownerReferences m) of None \<Rightarrow> False | Some r \<Rightarrow> or_name r = n)"
  by (simp add: select_bucket_def ownerKey_def split: option.split)

text \<open>A new Bucket in a cluster it fits into, and all that a run of its reconcilers looks up there.\<close>

definition sited :: "bucket \<Rightarrow> sim \<Rightarrow> bool" where
  "sited b w \<longleftrightarrow> fresh_bucket b \<and> fits b w"

lemma sitedD: "sited b w \<Longrightarrow> fresh_bucket b" "sited b w \<Longrightarrow> fits b w"
  by (simp_all add: sited_def)

lemmas site_facts = bucket_facts [OF sitedD(1)] cluster_facts [OF sitedD(2)]
  client_facts [OF sitedD(2)] users_facts [OF sitedD(2)]

section \<open>The turns of the bucket reconciler\<close>

lemma bucket_turn_0:
  assumes "sited b w"
  shows "take_turn b BucketTurn (site_world b w (Phase 0 0 tb ta c)) = site_world b w (Phase 1 0 tb ta c)"
  by (simp add: run_in_def grown_defs bucket_run_defs list_facts site_facts [OF assms] del: opaque)

lemma bucket_turn_1:
  assumes "sited b w" "bs_secretName (b_spec b) = None"
  shows "take_turn b BucketTurn (site_world b w (Phase 1 0 tb ta c)) = site_world b w (Phase 2 0 tb ta c)"
  using assms(2)
  by (simp add: run_in_def grown_defs secret_name_of_def bucket_run_defs list_facts site_facts [OF assms(1)] del: opaque)

lemma bucket_turn_2:
  assumes "sited b w" "bs_reclaimPolicy (b_spec b) = ''''"
  shows "take_turn b BucketTurn (site_world b w (Phase 2 0 tb ta c)) = site_world b w (Phase 3 0 tb ta c)"
  using assms(2)
  by (simp add: run_in_def grown_defs policy_of_def bucket_run_defs list_facts site_facts [OF assms(1)] del: opaque)

lemma given_name: "bs_secretName (b_spec b) \<noteq> None \<Longrightarrow> site_world b w (Phase 1 0 tb ta c) = site_world b w (Phase 2 0 tb ta c)"
  by (auto simp: grown_bucket_def secret_name_of_def)

lemma given_policy: "bs_reclaimPolicy (b_spec b) \<noteq> '''' \<Longrightarrow> site_world b w (Phase 2 0 tb ta c) = site_world b w (Phase 3 0 tb ta c)"
  by (simp add: grown_bucket_def policy_of_def)

lemma policy_of_given: "policy_of b \<noteq> ''''"
  by (simp add: policy_of_def)

lemma bucket_turn_3:
  assumes "sited b w"
  shows "take_turn b BucketTurn (site_world b w (Phase 3 0 tb ta c)) = site_world b w (Phase 4 0 c ta c)"
  by (simp add: run_in_def grown_defs policy_of_given bucket_run_defs list_facts site_facts [OF assms] del: opaque)

lemma bucket_turn_4:
  assumes "sited b w"
  shows "take_turn b BucketTurn (site_world b w (Phase 4 0 tb ta c)) = site_world b w (Phase 5 0 tb ta c)"
  by (simp add: run_in_def grown_defs policy_of_given bucket_run_defs list_facts site_facts [OF assms] del: opaque)

lemma bucket_turn_5:
  assumes "sited b w"
  shows "take_turn b BucketTurn (site_world b w (Phase 5 j tb ta c)) = site_world b w (Phase 6 j tb ta c)"
  by (simp add: run_in_def grown_defs policy_of_given bucket_run_defs list_facts site_facts [OF assms] del: opaque)

lemma bucket_waits:
  assumes "sited b w" "j < 2"
  shows "take_turn b BucketTurn (site_world b w (Phase 6 j tb ta c)) = site_world b w (Phase 6 j tb ta c)"
  using assms(2)
  by (simp add: run_in_def grown_defs policy_of_given bucket_run_defs list_facts site_facts [OF assms(1)] del: opaque)

text \<open>The secret that the Bucket's reconciler builds out of the account's.\<close>

lemma built:
  assumes "sited b w" "mc = client_in b w" "b_name bucket = b_name b"
    "bs_secretTemplate (b_spec bucket) = bs_secretTemplate (b_spec b)"
  shows "build_secret ref_env mc bucket x (keys_secret b w) = Inr (x\<lparr>sec_type := BucketAccessSecretType,
     sec_meta := (sec_meta x)\<lparr>om_labels := om_labels (b_meta bucket)\<rparr>, sec_data := used_data b w\<rparr>)"
  using used_data [OF sitedD(1) [OF assms(1)], of w]
  by (simp add: build_secret_def access_of_def access_data_def assms)

lemma bucket_turn_6:
  assumes "sited b w" "j \<ge> 2"
  shows "take_turn b BucketTurn (site_world b w (Phase 6 j tb ta c)) = site_world b w (Phase 7 j c ta c)"
  using assms(2)
  by (simp add: run_in_def grown_defs policy_of_given bucket_run_defs list_facts site_facts [OF assms(1)] built [OF assms(1)]
    client_in_def used_secret_def del: opaque build_secret_def)

lemma bucket_turn_7:
  assumes "sited b w" "j \<ge> 2"
  shows "take_turn b BucketTurn (site_world b w (Phase 7 j tb ta c)) = site_world b w (Phase 7 j tb ta c)"
  using assms(2)
  by (simp add: run_in_def grown_defs policy_of_given bucket_run_defs list_facts site_facts [OF assms(1)] built [OF assms(1)]
    client_in_def used_secret_def del: opaque build_secret_def)

section \<open>The turns of the account reconciler\<close>

lemma absent_account:
  assumes "sited b w" "i < 5"
  shows "take_turn b AccountTurn (site_world b w (Phase i 0 tb ta c)) = site_world b w (Phase i 0 tb ta c)"
  using assms(2) by (simp add: run_in_def account_run_defs list_facts site_facts [OF assms(1)] del: opaque)

lemma account_turn_0:
  assumes "sited b w" "i \<ge> 5"
  shows "take_turn b AccountTurn (site_world b w (Phase i 0 tb ta c)) = site_world b w (Phase i 1 tb ta c)"
  using assms(2) by (simp add: run_in_def grown_account_def account_run_defs list_facts site_facts [OF assms(1)] del: opaque)

lemma account_turn_1:
  assumes "sited b w" "i \<ge> 5" "i < 7"
  shows "take_turn b AccountTurn (site_world b w (Phase i 1 tb ta c)) = site_world b w (Phase i 2 tb c c)"
  using assms(2,3)
  by (simp add: run_in_def grown_account_def keys_secret_def new_key_def account_for_def account_run_defs list_facts
    site_facts [OF assms(1)] del: opaque encode.simps)

lemma account_turn_2:
  assumes "sited b w" "i \<ge> 5"
  shows "take_turn b AccountTurn (site_world b w (Phase i 2 tb ta c)) = site_world b w (Phase i 3 tb c c)"
  using assms(2)
  by (simp add: run_in_def grown_defs account_run_defs list_facts site_facts [OF assms(1)] select_owned owner_facts del: opaque ref_owner_def)

lemma account_turn_3:
  assumes "sited b w" "i \<ge> 5"
  shows "take_turn b AccountTurn (site_world b w (Phase i 3 tb ta c)) = site_world b w (Phase i 3 tb ta c)"
  using assms(2)
  by (simp add: run_in_def grown_defs account_run_defs list_facts site_facts [OF assms(1)] select_owned owner_facts del: opaque ref_owner_def)

section \<open>The turns of the collector\<close>

lemma scan_passes:
  "\<forall>d \<in> set cs. \<not> waits d \<Longrightarrow> run_state (gc_scan X ttl found cs) s = (Some (found \<and> cs = []), s)"
  by (induction cs arbitrary: found) (simp_all add: waits_def)

lemma each_passes:
  "\<forall>a \<in> set vs. \<forall>d \<in> set (a_conditions a). \<not> waits d \<Longrightarrow> run_state (gc_each X ttl vs) s = ((), s)"
  by (induction vs arbitrary: s) (simp_all add: scan_passes)

lemma collector_passes:
  assumes "\<forall>x \<in> set (sim_accounts w). \<forall>d \<in> set (a_conditions (snd x)). \<not> waits d"
  shows "take_turn b CollectorTurn w = w"
  using assms
  by (simp add: run_in_def gc_tick_def ref_defs each_passes)

end
