(* ===== verification/Convergence.thy ===== *)
theory Convergence imports Sites begin

text \<open>
  From a new Bucket to a working one: the reconcilers of buckets and accounts, the collector
  and the clock take turns, in any order, on the reference environment, and the Bucket ends up
  usable. Each turn moves the phase of the site; further phases stay further.
\<close>

section \<open>The phases that turns lead to\<close>

text \<open>What the user has given needs no turn.\<close>

definition bucket_next :: "bucket \<Rightarrow> nat \<Rightarrow> nat" where
  "bucket_next b i =
     (if i = 0 then 1
      else if i = 1 \<and> bs_secretName (b_spec b) = None then 2
      else if i \<le> 2 \<and> bs_reclaimPolicy (b_spec b) = '''' then 3
      else if i \<le> 3 then 4
      else Suc i)"

fun turn_phase :: "bucket \<Rightarrow> turn \<Rightarrow> phase \<Rightarrow> phase" where
  "turn_phase b BucketTurn (Phase i j tb ta c) =
     (if i < 6 then Phase (bucket_next b i) j (if bucket_next b i = 4 then c else tb) ta c
      else if i = 6 \<and> j \<ge> 2 then Phase 7 j c ta c
      else Phase i j tb ta c)"
| "turn_phase b AccountTurn (Phase i j tb ta c) =
     (if i < 5 \<or> j \<ge> 3 then Phase i j tb ta c
      else if j = 0 then Phase i 1 tb ta c else Phase i (Suc j) tb c c)"
| "turn_phase b CollectorTurn p = p"
| "turn_phase b (Wait d) (Phase i j tb ta c) = Phase i j tb ta (c + int d)"

fun phase_ok :: "phase \<Rightarrow> bool" where
  "phase_ok (Phase i j tb ta c) \<longleftrightarrow> i \<le> 7 \<and> j \<le> 3 \<and> (j > 0 \<longrightarrow> i \<ge> 5) \<and> (i = 7 \<longrightarrow> j \<ge> 2)"

lemma young_bucket_moves:
  assumes "sited b w" "i < 5"
  shows "take_turn b BucketTurn (site_world b w (Phase i 0 tb ta c))
    = site_world b w (Phase (bucket_next b i) 0 (if bucket_next b i = 4 then c else tb) ta c)"
proof -
  have "i = 0 \<or> i = 1 \<or> i = 2 \<or> i = 3 \<or> i = 4" using assms(2) by auto
  then show ?thesis
    using bucket_turn_0 [OF assms(1)] bucket_turn_1 [OF assms(1)] bucket_turn_2 [OF assms(1)]
      bucket_turn_3 [OF assms(1)] bucket_turn_4 [OF assms(1)] given_name [of b w] given_policy [of b w]
    by (elim disjE) (auto simp: bucket_next_def simp del: take_turn.simps site_world.simps)
qed

lemma bucket_moves:
  assumes "sited b w" "phase_ok p"
  shows "take_turn b BucketTurn (site_world b w p) = site_world b w (turn_phase b BucketTurn p)"
proof -
  obtain i j tb ta c where p: "p = Phase i j tb ta c" by (cases p)
  have "i < 5 \<and> j = 0 \<or> i = 5 \<or> i = 6 \<and> j < 2 \<or> i = 6 \<and> j \<ge> 2 \<or> i = 7 \<and> j \<ge> 2"
    using assms(2) by (auto simp: p)
  then show ?thesis
    using young_bucket_moves [OF assms(1)] bucket_turn_5 [OF assms(1)] bucket_waits [OF assms(1)]
      bucket_turn_6 [OF assms(1)] bucket_turn_7 [OF assms(1)]
    unfolding p by (elim disjE) (auto simp: bucket_next_def simp del: take_turn.simps site_world.simps)
qed

lemma account_moves:
  assumes "sited b w" "phase_ok p"
  shows "take_turn b AccountTurn (site_world b w p) = site_world b w (turn_phase b AccountTurn p)"
proof -
  obtain i j tb ta c where p: "p = Phase i j tb ta c" by (cases p)
  have "i < 5 \<and> j = 0 \<or> i \<ge> 5 \<and> j = 0 \<or> i \<ge> 5 \<and> i < 7 \<and> j = 1 \<or> i \<ge> 5 \<and> j = 2 \<or> i \<ge> 5 \<and> j = 3"
    using assms(2) by (auto simp: p)
  then show ?thesis
    using absent_account [OF assms(1)] account_turn_0 [OF assms(1)] account_turn_1 [OF assms(1)]
      account_turn_2 [OF assms(1)] account_turn_3 [OF assms(1)]
    unfolding p by (elim disjE) (auto simp: numeral_2_eq_2 numeral_3_eq_3 simp del: take_turn.simps site_world.simps)
qed

lemma collector_moves:
  assumes "sited b w"
  shows "take_turn b CollectorTurn (site_world b w p) = site_world b w p"
proof (rule collector_passes)
  show "\<forall>x \<in> set (sim_accounts (site_world b w p)). \<forall>d \<in> set (a_conditions (snd x)). \<not> waits d"
    using sitedD(2) [OF assms] by (cases p) (auto simp: fits_def grown_account_def waits_def cond_def)
qed

lemma turn_moves:
  assumes "sited b w" "phase_ok p"
  shows "take_turn b t (site_world b w p) = site_world b w (turn_phase b t p)"
proof (cases t)
  case (Wait d)
  then show ?thesis by (cases p) simp
qed (use bucket_moves account_moves collector_moves assms in simp_all)

lemma turn_phase_ok: "phase_ok p \<Longrightarrow> phase_ok (turn_phase b t p)"
  by (cases p; cases t) (auto simp: bucket_next_def)

lemma schedule_moves:
  "sited b w \<Longrightarrow> phase_ok p \<Longrightarrow>
     fold (take_turn b) ts (site_world b w p) = site_world b w (fold (turn_phase b) ts p)"
  by (induction ts arbitrary: p) (simp_all add: turn_moves turn_phase_ok del: take_turn.simps site_world.simps)

section \<open>Schedules\<close>

text \<open>More turns come further.\<close>

fun phase_le :: "phase \<Rightarrow> phase \<Rightarrow> bool" where
  "phase_le (Phase i j _ _ _) (Phase i' j' _ _ _) \<longleftrightarrow> i \<le> i' \<and> j \<le> j'"

lemma turn_phase_mono:
  "phase_ok p \<Longrightarrow> phase_ok q \<Longrightarrow> phase_le p q \<Longrightarrow> phase_le (turn_phase b t p) (turn_phase b t q)"
  by (cases p; cases q; cases t) (auto simp: bucket_next_def)

lemma turn_phase_up: "phase_ok p \<Longrightarrow> phase_ok q \<Longrightarrow> phase_le p q \<Longrightarrow> phase_le p (turn_phase b t q)"
  by (cases p; cases q; cases t) (auto simp: bucket_next_def)

lemma schedule_mono:
  "subseq us ts \<Longrightarrow> phase_ok p \<Longrightarrow> phase_ok q \<Longrightarrow> phase_le p q \<Longrightarrow>
     phase_le (fold (turn_phase b) us p) (fold (turn_phase b) ts q) \<and> phase_ok (fold (turn_phase b) ts q)"
proof (induction us ts arbitrary: p q rule: list_emb.induct)
  case (list_emb_Nil ts)
  then show ?case
  proof (induction ts arbitrary: q)
    case (Cons t ts)
    then show ?case using turn_phase_up [of p q b t] turn_phase_ok [of q b t] by simp
  qed simp
next
  case (list_emb_Cons us ts t)
  then show ?case using turn_phase_up [of p q b t] turn_phase_ok [of q b t] by simp
next
  case (list_emb_Cons2 u t us ts)
  then show ?case using turn_phase_mono [of p q b t] turn_phase_ok [of p b t] turn_phase_ok [of q b t] by simp
qed

definition enough_turns :: "turn list" where
  "enough_turns = replicate 6 BucketTurn @ replicate 3 AccountTurn @ [BucketTurn]"

lemma enough_turns_phase:
  "\<exists>tb ta. fold (turn_phase b) enough_turns (Phase 0 0 tb0 ta0 c) = Phase 7 3 tb ta c"
  by (simp add: enough_turns_def eval_nat_numeral bucket_next_def)

lemma schedule_ends:
  assumes "subseq enough_turns ts"
  shows "\<exists>tb ta c'. fold (turn_phase b) ts (Phase 0 0 tb0 ta0 c) = Phase 7 3 tb ta c'"
proof -
  obtain tb ta where e: "fold (turn_phase b) enough_turns (Phase 0 0 tb0 ta0 c) = Phase 7 3 tb ta c"
    using enough_turns_phase by blast
  show ?thesis
    using schedule_mono [OF assms, of "Phase 0 0 tb0 ta0 c" "Phase 0 0 tb0 ta0 c" b] e
    by (cases "fold (turn_phase b) ts (Phase 0 0 tb0 ta0 c)") auto
qed

section \<open>A Bucket that can be used\<close>

text \<open>
  The Bucket and its account are Ready; MinIO has the bucket, the user and the policy of the
  bucket for the user; and the secret that the Bucket names holds a key of that user, with the
  address of the provider and an entry for each template.
\<close>

definition usable :: "bucket \<Rightarrow> sim \<Rightarrow> sim \<Rightarrow> bool" where
  "usable b w v \<longleftrightarrow>
     (\<exists>b' a x ak.
         map_of (sim_buckets v) (bucket_key b) = Some b' \<and> condition_true ref_env (b_conditions b') BucketConditionReady
       \<and> map_of (sim_accounts v) (account_key b) = Some a \<and> condition_true ref_env (a_conditions a) BucketSAConditionReady
       \<and> b_name b \<in> set (sim_minio_buckets v) \<and> name (account_name b) \<in> set (sim_users v)
       \<and> map_of (sim_attached v) (name (account_name b)) = Some (name (b_name b))
       \<and> Returns (the (map_of (sim_policies v) (name (b_name b)))) = Policy (b_name b)
       \<and> bst_secretName (b_status b') = Some (secret_name_of b)
       \<and> map_of (sim_secrets v) (secret_key b) = Some x
       \<and> (name (account_name b), ak) \<in> set (sim_keys_of v)
       \<and> sec_data x MinioAccessKey = Some ak
       \<and> sec_data x MinioBucket = Some (b_name b)
       \<and> sec_data x MinioEndpoint = Some (ps_endpoint (p_spec (provider_in b w)))
       \<and> sec_data x MinioSecure = Some (format_bool (\<not> ps_insecure (p_spec (provider_in b w))))
       \<and> dom (sec_data x) = set reserved_keys \<union> fst ` set (bs_secretTemplate (b_spec b)))"

text \<open>All else is as before: every other object in Kubernetes and in MinIO.\<close>

definition others_kept :: "bucket \<Rightarrow> sim \<Rightarrow> sim \<Rightarrow> bool" where
  "others_kept b w v \<longleftrightarrow>
     (\<forall>k. k \<noteq> bucket_key b \<longrightarrow> map_of (sim_buckets v) k = map_of (sim_buckets w) k)
   \<and> (\<forall>k. k \<noteq> account_key b \<longrightarrow> map_of (sim_accounts v) k = map_of (sim_accounts w) k)
   \<and> (\<forall>k. k \<noteq> secret_key b \<longrightarrow> k \<noteq> keys_key b \<longrightarrow> map_of (sim_secrets v) k = map_of (sim_secrets w) k)
   \<and> sim_providers v = sim_providers w
   \<and> set (sim_minio_buckets v) - {b_name b} = set (sim_minio_buckets w) - {b_name b}
   \<and> set (sim_users v) - {name (account_name b)} = set (sim_users w) - {name (account_name b)}
   \<and> (\<forall>u k. u \<noteq> name (account_name b) \<longrightarrow> (u, k) \<in> set (sim_keys_of v) \<longleftrightarrow> (u, k) \<in> set (sim_keys_of w))
   \<and> (\<forall>n. n \<noteq> name (b_name b) \<longrightarrow> map_of (sim_policies v) n = map_of (sim_policies w) n)
   \<and> (\<forall>u. u \<noteq> name (account_name b) \<longrightarrow> map_of (sim_attached v) u = map_of (sim_attached w) u)"

lemma site_others_kept: "others_kept b w (site_world b w p)"
  by (cases p) (simp add: others_kept_def map_add_def split: option.split, blast)

lemma used_secret_data:
  assumes "sited b w"
  shows "sec_data (used_secret b w) MinioAccessKey = Some (new_key w)"
    "sec_data (used_secret b w) MinioBucket = Some (b_name b)"
    "sec_data (used_secret b w) MinioEndpoint = Some (ps_endpoint (p_spec (provider_in b w)))"
    "sec_data (used_secret b w) MinioSecure = Some (format_bool (\<not> ps_insecure (p_spec (provider_in b w))))"
    "dom (sec_data (used_secret b w)) = set reserved_keys \<union> fst ` set (bs_secretTemplate (b_spec b))"
proof -
  have c: "carries_access ref_env (client_in b w) b (keys_secret b w) (used_secret b w)"
    using used_data [OF sitedD(1) [OF assms], of w] by (simp add: carries_access_def used_secret_def)
  have d: "distinct (map fst (bs_secretTemplate (b_spec b))) \<and> template_ok ref_env (bs_secretTemplate (b_spec b))"
    using sitedD(1) [OF assms] by (simp add: fresh_bucket_def)
  have "data_of (keys_secret b w) MinioAccessKey = new_key w"
    by (simp add: data_of_def keys_secret_def)
  moreover have "Endpoint ref_env (client_in b w) = ps_endpoint (p_spec (provider_in b w))"
    by (simp add: Endpoint_def client_in_def Let_def ref_env_simps)
  moreover have "Secure ref_env (client_in b w) = (\<not> ps_insecure (p_spec (provider_in b w)))"
    by (simp add: Secure_def client_in_def Let_def ref_env_simps)
  ultimately show "sec_data (used_secret b w) MinioAccessKey = Some (new_key w)"
    "sec_data (used_secret b w) MinioBucket = Some (b_name b)"
    "sec_data (used_secret b w) MinioEndpoint = Some (ps_endpoint (p_spec (provider_in b w)))"
    "sec_data (used_secret b w) MinioSecure = Some (format_bool (\<not> ps_insecure (p_spec (provider_in b w))))"
    "dom (sec_data (used_secret b w)) = set reserved_keys \<union> fst ` set (bs_secretTemplate (b_spec b))"
    using mp [OF carries_secret_data [OF c] d] by (simp_all add: format_bool_def)
qed

lemma last_phase_usable:
  assumes "sited b w"
  shows "usable b w (site_world b w (Phase 7 3 tb ta c))"
  unfolding usable_def
  by (rule exI [of _ "grown_bucket b w 7 tb"], rule exI [of _ "grown_account b 3 ta"],
      rule exI [of _ "used_secret b w"], rule exI [of _ "new_key w"])
    (simp add: list_facts site_facts [OF assms] used_secret_data [OF assms] grown_defs ref_env_simps
      ref_find_condition_def cond_def del: map_of_append)

section \<open>Convergence\<close>

text \<open>The cluster once a user has created the Bucket, and after turns of a schedule.\<close>

definition after_create :: "bucket \<Rightarrow> sim \<Rightarrow> sim" where
  "after_create b w = snd (k_create (buckets ref_env) b w)"

lemma new_world_phase:
  assumes "sited b w"
  shows "after_create b w = site_world b w (Phase 0 0 0 0 (sim_clock w))"
proof -
  have f: "fresh_bucket b" using assms by (rule sitedD)
  have "grown_bucket b w 0 0 = b"
    using f by (cases b, cases "b_meta b", cases "b_spec b", cases "b_status b")
      (simp add: fresh_bucket_def grown_bucket_def zero_bucket_def)
  then show ?thesis
    by (simp add: after_create_def ref_defs list_facts site_facts [OF assms] del: opaque)
qed

lemma settled_world:
  assumes "sited b w" "subseq enough_turns ts"
  shows "\<exists>tb ta c. fold (take_turn b) ts (after_create b w) = site_world b w (Phase 7 3 tb ta c)"
proof -
  obtain tb ta c where "fold (turn_phase b) ts (Phase 0 0 0 0 (sim_clock w)) = Phase 7 3 tb ta c"
    using schedule_ends [OF assms(2)] by blast
  then show ?thesis
    using schedule_moves [OF assms(1), of "Phase 0 0 0 0 (sim_clock w)" ts] new_world_phase [OF assms(1)] by auto
qed


text \<open>In the demo cluster next to another Bucket and its account; the Bucket has a template.\<close>

definition sample_bucket :: bucket where
  "sample_bucket = zero_bucket\<lparr>b_meta := (new_meta ''data'' ''default'')\<lparr>om_labels := [''team'' \<mapsto> ''a'']\<rparr>,
     b_spec := \<lparr>bs_provider = ''minio-provider'', bs_serviceAccount = ''app'', bs_reclaimPolicy = BucketReclaimDelete,
       bs_secretName = None, bs_secretTemplate = [(''url'', ''{{ .Endpoint }}'')]\<rparr>\<rparr>"

definition sample_cluster :: sim where
  "sample_cluster = demo_world\<lparr>
     sim_buckets := [(\<lparr>nn_name = ''logs'', nn_namespace = ''default''\<rparr>,
       zero_bucket\<lparr>b_meta := new_meta ''logs'' ''default''\<rparr>)],
     sim_accounts := [(\<lparr>nn_name = ''logger'', nn_namespace = ''default''\<rparr>,
       zero_account\<lparr>a_meta := new_meta ''logger'' ''default''\<rparr>)],
     sim_minio_buckets := [''logs''], sim_users := [name ''logger'']\<rparr>"

lemma sample_sited: "fresh_bucket sample_bucket" "fits sample_bucket sample_cluster"
  by (simp_all add: fresh_bucket_def fits_def has_credential_def credential_in_def provider_in_def provider_key_def
      sample_bucket_def sample_cluster_def secret_name_of_def ref_defs demo_world_def demo_provider_def demo_secret_def
      demo_key_def plain_def template_ok_def reserved_keys_def saSecretSuffix_def name_def prefix_name_def ownerKey_def)


end
