(* ===== verification/Lifecycle.thy ===== *)
theory Lifecycle imports Convergence begin

text \<open>
  The end of a Bucket's life: a user deletes a Bucket that is in use, and the reconcilers, the
  collector and the clock take turns until its account, its user and their keys are gone.
\<close>

section \<open>From deletion to the end: the endings\<close>

text \<open>
  The Bucket is marked as deleted; the deletion is announced (at a time); the Bucket is gone and
  its account unused; the account waits for its deletion; the collector has deleted it; it is
  gone. From the time it is unused on, an ending says which policies the user has.
\<close>

datatype ending = Marked | Announced int | Unused | Pending int string | Condemned int int string | Gone string

text \<open>An ending, the times of the last conditions of the Bucket and its account, and the clock.\<close>

datatype finale = Finale ending int int int

definition ending_bucket :: "bucket \<Rightarrow> sim \<Rightarrow> int \<Rightarrow> int option \<Rightarrow> bucket" where
  "ending_bucket b w tb announced = (let g = grown_bucket b w 7 tb in
     g\<lparr>b_meta := (b_meta g)\<lparr>om_deletionTimestamp := Some 1\<rparr>,
       b_status := (case announced of None \<Rightarrow> b_status g
        | Some t \<Rightarrow> (b_status g)\<lparr>bst_conditions := bst_conditions (b_status g)
              @ [timed t (cond BucketConditionDeleting ConditionTrue ''Deleting'' ''Bucket is being deleted'' (om_generation (b_meta b)))],
            bst_phase := BucketConditionDeleting\<rparr>)\<rparr>)"

definition pending_condition :: "int \<Rightarrow> condition" where
  "pending_condition t = timed t (cond BucketSAConditionDeletionPending ConditionTrue ''DanglingServiceAccount''
     ''Service account is not used by any bucket and will be deleted in 1 minute'' 0)"

definition condemned_condition :: "int \<Rightarrow> condition" where
  "condemned_condition t = timed t (cond BucketSAConditionDeleting ConditionTrue ''BucketServiceAccountDeletion''
     ''BucketServiceAccount is being deleted'' 0)"

fun ending_account :: "bucket \<Rightarrow> int \<Rightarrow> ending \<Rightarrow> account" where
  "ending_account b ta (Pending t ps) = (let g = grown_account b 3 ta in
     a_with_status (a_conditions g @ [pending_condition t]) BucketSAConditionDeletionPending g)"
| "ending_account b ta (Condemned t t' ps) = (let g = grown_account b 3 ta in
     (a_with_status (a_conditions g @ [pending_condition t, condemned_condition t']) BucketConditionDeleting g)\<lparr>
       a_meta := (a_meta g)\<lparr>om_deletionTimestamp := Some 1\<rparr>\<rparr>)"
| "ending_account b ta _ = grown_account b 3 ta"

fun ending_buckets :: "bucket \<Rightarrow> sim \<Rightarrow> int \<Rightarrow> ending \<Rightarrow> (nsname \<times> bucket) list" where
  "ending_buckets b w tb Marked = [(bucket_key b, ending_bucket b w tb None)]"
| "ending_buckets b w tb (Announced t) = [(bucket_key b, ending_bucket b w tb (Some t))]"
| "ending_buckets b w tb _ = []"

fun is_gone :: "ending \<Rightarrow> bool" where
  "is_gone (Gone ps) = True"
| "is_gone _ = False"

fun bucket_left :: "ending \<Rightarrow> bool" where
  "bucket_left Marked = False"
| "bucket_left (Announced t) = False"
| "bucket_left _ = True"

fun policies_left :: "bucket \<Rightarrow> ending \<Rightarrow> string" where
  "policies_left b (Pending t ps) = ps"
| "policies_left b (Condemned t t' ps) = ps"
| "policies_left b (Gone ps) = ps"
| "policies_left b _ = name (b_name b)"

fun end_world :: "bucket \<Rightarrow> sim \<Rightarrow> finale \<Rightarrow> sim" where
  "end_world b w (Finale e tb ta c) = \<lparr>
     sim_buckets = sim_buckets w @ ending_buckets b w tb e,
     sim_accounts = sim_accounts w @ (if is_gone e then [] else [(account_key b, ending_account b ta e)]),
     sim_providers = sim_providers w,
     sim_secrets = sim_secrets w @ (if is_gone e then [] else [(keys_key b, keys_secret b w)]) @ [(secret_key b, used_secret b w)],
     sim_clock = c,
     sim_keys = Suc (sim_keys w),
     sim_minio_buckets = sim_minio_buckets w @ (if bucket_left e \<and> policy_of b = BucketReclaimDelete then [] else [b_name b]),
     sim_users = (if is_gone e then [] else [name (account_name b)]) @ sim_users w,
     sim_keys_of = (if is_gone e then [] else [(name (account_name b), new_key w)]) @ sim_keys_of w,
     sim_policies = sim_policies w @ [(name (b_name b), policy_text b)],
     sim_attached = sim_attached w @ [(name (account_name b), policies_left b e)]\<rparr>"

section \<open>The turns\<close>

lemmas ending_defs = ending_bucket_def pending_condition_def condemned_condition_def

lemma marked_bucket_turn:
  assumes "sited b w"
  shows "take_turn b BucketTurn (end_world b w (Finale Marked tb ta c)) = end_world b w (Finale (Announced c) tb ta c)"
  by (simp add: run_in_def ending_defs grown_defs bucket_run_defs list_facts site_facts [OF assms] del: opaque)

lemma announced_bucket_turn:
  assumes "sited b w"
  shows "take_turn b BucketTurn (end_world b w (Finale (Announced t) tb ta c)) = end_world b w (Finale Unused tb ta c)"
  by (cases "policy_of b = BucketReclaimDelete")
    (simp_all add: run_in_def ending_defs grown_defs bucket_run_defs list_facts site_facts [OF assms] del: opaque)

lemma ending_buckets_none: "bucket_left e \<Longrightarrow> ending_buckets b w tb e = []"
  by (cases e) simp_all

lemma gone_bucket_turn:
  assumes "sited b w" "bucket_left e"
  shows "take_turn b BucketTurn (end_world b w (Finale e tb ta c)) = end_world b w (Finale e tb ta c)"
  using assms(2) ending_buckets_none by (simp add: run_in_def bucket_run_defs list_facts site_facts [OF assms(1)] del: opaque)

lemma used_account_turn:
  assumes "sited b w" "\<not> bucket_left e"
  shows "take_turn b AccountTurn (end_world b w (Finale e tb ta c)) = end_world b w (Finale e tb ta c)"
  using assms(2) by (cases e) (simp_all add: run_in_def ending_defs grown_defs account_run_defs list_facts site_facts [OF assms(1)]
    select_owned owner_facts del: opaque ref_owner_def)

lemma unused_account_turn:
  assumes "sited b w"
  shows "take_turn b AccountTurn (end_world b w (Finale Unused tb ta c)) = end_world b w (Finale (Pending c (name (b_name b))) tb ta c)"
  by (simp add: run_in_def ending_defs grown_account_def account_run_defs list_facts site_facts [OF assms] del: opaque)

lemma pending_account_turn:
  assumes "sited b w"
  shows "take_turn b AccountTurn (end_world b w (Finale (Pending t ps) tb ta c)) = end_world b w (Finale (Pending t '''') tb ta c)"
  by (simp add: run_in_def ending_defs grown_account_def account_run_defs list_facts site_facts [OF assms] del: opaque)

lemma keys_secret_free: "om_finalizers (sec_meta (keys_secret b w)) = []"
  by (simp add: keys_secret_def new_meta_def)

lemma condemned_account_turn:
  assumes "sited b w"
  shows "take_turn b AccountTurn (end_world b w (Finale (Condemned t t' ps) tb ta c)) = end_world b w (Finale (Gone ps) tb ta c)"
  by (simp add: run_in_def ending_defs keys_secret_free grown_account_def account_run_defs list_facts site_facts [OF assms] del: opaque)

lemma gone_account_turn:
  assumes "sited b w"
  shows "take_turn b AccountTurn (end_world b w (Finale (Gone ps) tb ta c)) = end_world b w (Finale (Gone ps) tb ta c)"
  by (simp add: run_in_def account_run_defs list_facts site_facts [OF assms] del: opaque)

lemma each_passes_then:
  "\<forall>a \<in> set us. \<forall>d \<in> set (a_conditions a). \<not> waits d \<Longrightarrow>
     run_state (gc_each X ttl (us @ vs)) s = run_state (gc_each X ttl vs) s"
  by (induction us arbitrary: s) (simp_all add: scan_passes)

lemma no_account_waits: "fits b w \<Longrightarrow> \<forall>a \<in> set (map snd (sim_accounts w)). \<forall>d \<in> set (a_conditions a). \<not> waits d"
  by (auto simp: fits_def)

text \<open>What the collector does with the one account that may wait.\<close>

lemma calm_collector_turn:
  assumes "sited b w" "\<forall>d \<in> set (a_conditions (ending_account b ta e)). \<not> waits d"
  shows "take_turn b CollectorTurn (end_world b w (Finale e tb ta c)) = end_world b w (Finale e tb ta c)"
  using assms(2) no_account_waits [OF sitedD(2) [OF assms(1)]] by (intro collector_passes) (auto simp del: ending_account.simps)

lemmas collector_run_defs = run_in_def gc_tick_def gc_delete_def a_with_status_def account_err_def cond_def ref_defs
  rec_Eventf_def ending_defs grown_account_def

lemma pending_collector_turn:
  assumes "sited b w"
  shows "take_turn b CollectorTurn (end_world b w (Finale (Pending t ps) tb ta c))
    = end_world b w (Finale (if t + 60 * second \<le> c then Condemned t c ps else Pending t ps) tb ta c)"
  by (cases "t + 60 * second \<le> c") (simp_all add: collector_run_defs list_facts site_facts [OF assms]
      each_passes_then [OF no_account_waits [OF sitedD(2) [OF assms]]] del: opaque)

lemma condemned_collector_turn:
  assumes "sited b w"
  shows "take_turn b CollectorTurn (end_world b w (Finale (Condemned t t' ps) tb ta c)) = end_world b w (Finale (Condemned t t' ps) tb ta c)"
  by (cases "t + 60 * second \<le> c"; cases "t' + 60 * second \<le> c") (simp_all add: collector_run_defs list_facts site_facts [OF assms]
      each_passes_then [OF no_account_waits [OF sitedD(2) [OF assms]]] del: opaque)

section \<open>Schedules\<close>

fun ending_turn :: "bucket \<Rightarrow> turn \<Rightarrow> finale \<Rightarrow> finale" where
  "ending_turn b BucketTurn (Finale Marked tb ta c) = Finale (Announced c) tb ta c"
| "ending_turn b BucketTurn (Finale (Announced t) tb ta c) = Finale Unused tb ta c"
| "ending_turn b BucketTurn f = f"
| "ending_turn b AccountTurn (Finale Unused tb ta c) = Finale (Pending c (name (b_name b))) tb ta c"
| "ending_turn b AccountTurn (Finale (Pending t ps) tb ta c) = Finale (Pending t '''') tb ta c"
| "ending_turn b AccountTurn (Finale (Condemned t t' ps) tb ta c) = Finale (Gone ps) tb ta c"
| "ending_turn b AccountTurn f = f"
| "ending_turn b CollectorTurn (Finale (Pending t ps) tb ta c) =
     Finale (if t + 60 * second \<le> c then Condemned t c ps else Pending t ps) tb ta c"
| "ending_turn b CollectorTurn f = f"
| "ending_turn b (Wait d) (Finale e tb ta c) = Finale e tb ta (c + int d)"

lemma calm_account: "\<forall>d \<in> set (a_conditions (grown_account b 3 ta)). \<not> waits d"
  by (simp add: grown_account_def waits_def cond_def)

lemma finale_moves:
  assumes "sited b w"
  shows "take_turn b t (end_world b w f) = end_world b w (ending_turn b t f)"
proof -
  obtain e tb ta c where f: "f = Finale e tb ta c" by (cases f)
  show ?thesis
  proof (cases t)
    case BucketTurn
    then show ?thesis
      using marked_bucket_turn [OF assms] announced_bucket_turn [OF assms] gone_bucket_turn [OF assms, of e]
      unfolding f by (cases e) (simp_all del: take_turn.simps end_world.simps)
  next
    case AccountTurn
    then show ?thesis
      using used_account_turn [OF assms, of e] unused_account_turn [OF assms] pending_account_turn [OF assms]
        condemned_account_turn [OF assms] gone_account_turn [OF assms]
      unfolding f by (cases e) (simp_all del: take_turn.simps end_world.simps)
  next
    case CollectorTurn
    then show ?thesis
      using calm_collector_turn [OF assms, of ta e] pending_collector_turn [OF assms]
        condemned_collector_turn [OF assms] calm_account
      unfolding f by (cases e) (simp_all del: take_turn.simps end_world.simps)
  qed (simp add: f)
qed

lemma finales_move:
  "sited b w \<Longrightarrow> fold (take_turn b) ts (end_world b w f) = end_world b w (fold (ending_turn b) ts f)"
  by (induction ts arbitrary: f) (simp_all add: finale_moves del: take_turn.simps end_world.simps)

text \<open>A schedule with the steps of a chain in it leads through the stages of the chain.\<close>

lemma fold_chain:
  assumes "subseq us ts" and "\<And>n t x. R n x \<Longrightarrow> R n (f t x)"
    and "\<And>n x. n < length us \<Longrightarrow> R n x \<Longrightarrow> R (Suc n) (f (us ! n) x)" and "R 0 x"
  shows "R (length us) (fold f ts x)"
  using assms
proof (induction us ts arbitrary: R x rule: list_emb.induct)
  case (list_emb_Nil ts)
  have "R 0 y \<Longrightarrow> R 0 (fold f ts y)" for y
    by (induction ts arbitrary: y) (simp_all add: list_emb_Nil.prems(1))
  then show ?case using list_emb_Nil.prems(3) by simp
next
  case (list_emb_Cons us ts t)
  have "R 0 (f t x)" by (rule list_emb_Cons.prems(1) [OF list_emb_Cons.prems(3)])
  from list_emb_Cons.IH [OF list_emb_Cons.prems(1,2) this] show ?case by simp
next
  case (list_emb_Cons2 u t us ts)
  have "R (Suc (length us)) (fold f ts (f t x))"
  proof (rule list_emb_Cons2.IH [of "\<lambda>n. R (Suc n)"])
    show "R (Suc n) y \<Longrightarrow> R (Suc n) (f s y)" for n s y by (rule list_emb_Cons2.prems(1))
    show "R (Suc (Suc n)) (f (us ! n) y)" if "n < length us" "R (Suc n) y" for n y
      using list_emb_Cons2.prems(2) [of "Suc n" y] that by simp
    show "R (Suc 0) (f t x)"
      using list_emb_Cons2.prems(2) [of 0 x] list_emb_Cons2.prems(3) list_emb_Cons2.hyps by simp
  qed
  then show ?case by simp
qed

fun waited :: "turn list \<Rightarrow> int" where
  "waited [] = 0"
| "waited (t # ts) = (case t of Wait d \<Rightarrow> int d | _ \<Rightarrow> 0) + waited ts"

lemma waited_positive: "waited ts \<ge> 0"
  by (induction ts) (simp_all split: turn.splits)

fun ending_of :: "finale \<Rightarrow> ending" where
  "ending_of (Finale e tb ta c) = e"

fun clock_of :: "finale \<Rightarrow> int" where
  "clock_of (Finale e tb ta c) = c"

lemma clock_turn: "clock_of (ending_turn b t f) = clock_of f + waited [t]"
  by (induction b t f rule: ending_turn.induct) simp_all

lemma clock_turns: "clock_of (fold (ending_turn b) ts f) = clock_of f + waited ts"
  by (induction ts arbitrary: f) (simp_all add: clock_turn)

fun rank :: "ending \<Rightarrow> nat" where
  "rank Marked = 0"
| "rank (Announced t) = 1"
| "rank Unused = 2"
| "rank (Pending t ps) = 3"
| "rank (Condemned t t' ps) = 4"
| "rank (Gone ps) = 5"

text \<open>An account that waits does so since a time, which does not change; after a minute it is due.\<close>

fun since :: "ending \<Rightarrow> int option" where
  "since (Pending t ps) = Some t"
| "since e = None"

definition stage :: "nat \<Rightarrow> int \<Rightarrow> finale \<Rightarrow> bool" where
  "stage n hi f \<longleftrightarrow> n \<le> rank (ending_of f) \<and> (\<forall>t. since (ending_of f) = Some t \<longrightarrow> t \<le> hi)"

lemma rank_turn: "rank (ending_of f) \<le> rank (ending_of (ending_turn b t f))"
  by (induction b t f rule: ending_turn.induct) simp_all

lemma since_turn: "3 \<le> rank (ending_of f) \<Longrightarrow> since (ending_of (ending_turn b t f)) = since (ending_of f) \<or> since (ending_of (ending_turn b t f)) = None"
  by (induction b t f rule: ending_turn.induct) simp_all

lemma since_now: "since (ending_of (ending_turn b t f)) = since (ending_of f) \<or> since (ending_of (ending_turn b t f)) = None \<or> since (ending_of (ending_turn b t f)) = Some (clock_of f)"
  by (induction b t f rule: ending_turn.induct) simp_all

lemma stage_turn: "3 \<le> n \<Longrightarrow> stage n hi f \<Longrightarrow> stage n hi (ending_turn b t f)"
  using rank_turn [of f b t] since_turn [of f b t] unfolding stage_def by (metis option.distinct(1) order_trans)

lemma stage_turns: "3 \<le> n \<Longrightarrow> stage n hi f \<Longrightarrow> stage n hi (fold (ending_turn b) ts f)"
  by (induction ts arbitrary: f) (simp_all add: stage_turn)

lemma first_stage:
  assumes "subseq [BucketTurn, BucketTurn, AccountTurn] ts" and "since (ending_of f) = None"
  shows "stage 3 (clock_of f + waited ts) (fold (ending_turn b) ts f)"
proof -
  have "stage (length [BucketTurn, BucketTurn, AccountTurn]) (clock_of (fold (ending_turn b) ts f)) (fold (ending_turn b) ts f)"
  proof (rule fold_chain [OF assms(1), where R = "\<lambda>n f. stage n (clock_of f) f"])
    show "stage n (clock_of (ending_turn b t f)) (ending_turn b t f)" if "stage n (clock_of f) f" for n t f
      using that rank_turn [of f b t] since_now [of b t f] waited_positive [of "[t]"] clock_turn [of b t f]
      unfolding stage_def by auto
    show "stage (Suc n) (clock_of (ending_turn b ([BucketTurn, BucketTurn, AccountTurn] ! n) f))
       (ending_turn b ([BucketTurn, BucketTurn, AccountTurn] ! n) f)"
      if "n < length [BucketTurn, BucketTurn, AccountTurn]" "stage n (clock_of f) f" for n f
    proof -
      obtain e tb ta c where f: "f = Finale e tb ta c" by (cases f)
      have "n = 0 \<or> n = 1 \<or> n = 2" using that(1) by auto
      then show ?thesis using that(2) unfolding f by (cases e) (auto simp: stage_def)
    qed
    show "stage 0 (clock_of f) f" using assms(2) by (simp add: stage_def)
  qed
  then show ?thesis by (simp add: clock_turns eval_nat_numeral)
qed

text \<open>The last stage begins when the minute is over.\<close>

lemma last_stage:
  assumes "subseq [CollectorTurn, AccountTurn] ts" and "stage 3 (clock_of f - 60 * second) f"
  shows "5 \<le> rank (ending_of (fold (ending_turn b) ts f))"
proof -
  let ?R = "\<lambda>n f. stage (3 + n) (clock_of f - 60 * second) f"
  have "?R (length [CollectorTurn, AccountTurn]) (fold (ending_turn b) ts f)"
  proof (rule fold_chain [OF assms(1), where R = ?R])
    show "?R n (ending_turn b t f)" if "?R n f" for n t f
    proof -
      have "stage (3 + n) (clock_of f - 60 * second) (ending_turn b t f)" by (rule stage_turn [OF _ that]) simp
      then show ?thesis using waited_positive [of "[t]"] clock_turn [of b t f] unfolding stage_def by fastforce
    qed
    show "?R (Suc n) (ending_turn b ([CollectorTurn, AccountTurn] ! n) f)"
      if "n < length [CollectorTurn, AccountTurn]" "?R n f" for n f
    proof -
      obtain e tb ta c where f: "f = Finale e tb ta c" by (cases f)
      have "n = 0 \<or> n = 1" using that(1) by auto
      then show ?thesis using that(2) unfolding f by (cases e) (auto simp: stage_def)
    qed
    show "?R 0 f" using assms(2) by simp
  qed
  then show ?thesis by (simp add: stage_def)
qed

lemma ends_gone:
  assumes "subseq [BucketTurn, BucketTurn, AccountTurn] us" and "60 * second \<le> waited vs"
    and "subseq [CollectorTurn, AccountTurn] xs"
  shows "\<exists>ps tb' ta' c'. fold (ending_turn b) (us @ vs @ xs) (Finale Marked tb ta c) = Finale (Gone ps) tb' ta' c'"
proof -
  let ?f = "fold (ending_turn b) us (Finale Marked tb ta c)"
  let ?g = "fold (ending_turn b) vs ?f"
  have "stage 3 (clock_of ?f) ?f"
    using first_stage [OF assms(1), of "Finale Marked tb ta c" b] by (simp add: clock_turns)
  then have "stage 3 (clock_of ?f) ?g" by (rule stage_turns [rotated]) simp
  moreover have "clock_of ?f \<le> clock_of ?g - 60 * second" using assms(2) by (simp add: clock_turns)
  ultimately have "stage 3 (clock_of ?g - 60 * second) ?g"
    unfolding stage_def by fastforce
  from last_stage [OF assms(3) this, of b]
  have "5 \<le> rank (ending_of (fold (ending_turn b) (us @ vs @ xs) (Finale Marked tb ta c)))" by simp
  moreover obtain e tb' ta' c' where g: "fold (ending_turn b) (us @ vs @ xs) (Finale Marked tb ta c) = Finale e tb' ta' c'"
    by (cases "fold (ending_turn b) (us @ vs @ xs) (Finale Marked tb ta c)")
  ultimately show ?thesis by (cases e) auto
qed

text \<open>And not before: the collector waits for the minute.\<close>

lemma within_minute:
  assumes "clock_of f + waited ts < lo + 60 * second" and "lo \<le> clock_of f"
    and "rank (ending_of f) \<le> 3" and "\<forall>t. since (ending_of f) = Some t \<longrightarrow> lo \<le> t"
  shows "rank (ending_of (fold (ending_turn b) ts f)) \<le> 3"
  using assms
proof (induction ts arbitrary: f)
  case (Cons u ts)
  let ?g = "ending_turn b u f"
  have w: "waited [u] \<ge> 0" "waited ts \<ge> 0" "waited (u # ts) = waited [u] + waited ts"
    using waited_positive [of "[u]"] waited_positive [of ts] by simp_all
  have "rank (ending_of ?g) \<le> 3"
    using Cons.prems w by (induction b u f rule: ending_turn.induct) auto
  moreover have "\<forall>t. since (ending_of ?g) = Some t \<longrightarrow> lo \<le> t"
    using Cons.prems since_now [of b u f] by auto
  ultimately show ?case using Cons.IH [of ?g] Cons.prems w clock_turn [of b u f] by simp
qed simp

section \<open>The whole life of a Bucket\<close>

definition after_delete :: "bucket \<Rightarrow> sim \<Rightarrow> sim" where
  "after_delete b w = snd (k_delete (buckets ref_env) b w)"

lemma deleted_world:
  assumes "sited b w"
  shows "after_delete b (site_world b w (Phase 7 3 tb ta c)) = end_world b w (Finale Marked tb ta c)"
  by (simp add: after_delete_def ending_bucket_def grown_bucket_def ref_defs list_facts site_facts [OF assms] del: opaque)

text \<open>
  Nothing is left of the Bucket but the bucket in MinIO, if its policy is not \<^verbatim>\<open>Delete\<close>: its account
  is gone, the user, the user's keys, and the secret the account had.
\<close>

definition retired :: "bucket \<Rightarrow> sim \<Rightarrow> bool" where
  "retired b v \<longleftrightarrow> map_of (sim_buckets v) (bucket_key b) = None \<and> map_of (sim_accounts v) (account_key b) = None
     \<and> map_of (sim_secrets v) (keys_key b) = None
     \<and> name (account_name b) \<notin> set (sim_users v) \<and> (\<forall>k. (name (account_name b), k) \<notin> set (sim_keys_of v))
     \<and> (b_name b \<in> set (sim_minio_buckets v) \<longleftrightarrow> bs_reclaimPolicy (b_spec b) \<noteq> BucketReclaimDelete)"

lemma gone_retired:
  assumes "sited b w"
  shows "retired b (end_world b w (Finale (Gone ps) tb ta c))"
proof -
  have "(policy_of b = BucketReclaimDelete) = (bs_reclaimPolicy (b_spec b) = BucketReclaimDelete)"
    by (simp add: policy_of_def)
  moreover have "(name (account_name b), k) \<notin> set (sim_keys_of w)" for k
    using sitedD(2) [OF assms] by (auto simp: fits_def)
  ultimately show ?thesis by (simp add: retired_def list_facts site_facts [OF assms] del: map_of_append)
qed

lemma end_others_kept: "others_kept b w (end_world b w f)"
  by (cases f; case_tac x1) (simp_all add: others_kept_def map_add_def split: option.split)

text \<open>The account is there, and the key in its secret is a key of its user.\<close>

definition in_service :: "bucket \<Rightarrow> sim \<Rightarrow> bool" where
  "in_service b v \<longleftrightarrow> map_of (sim_accounts v) (account_key b) \<noteq> None \<and> name (account_name b) \<in> set (sim_users v)
     \<and> (\<exists>x ak. map_of (sim_secrets v) (keys_key b) = Some x \<and> sec_data x MinioAccessKey = Some ak
          \<and> (name (account_name b), ak) \<in> set (sim_keys_of v))"

lemma early_in_service:
  assumes "sited b w" "rank e \<le> 3"
  shows "in_service b (end_world b w (Finale e tb ta c))"
  using assms(2) by (cases e)
    (simp_all add: in_service_def keys_secret_def list_facts site_facts [OF assms(1)] del: map_of_append)

lemma stays_in_service:
  assumes "sited b w" "waited ys < 60 * second"
  shows "in_service b (fold (take_turn b) ys (end_world b w (Finale Marked tb ta c)))"
proof -
  obtain e tb' ta' c' where e: "fold (ending_turn b) ys (Finale Marked tb ta c) = Finale e tb' ta' c'"
    by (cases "fold (ending_turn b) ys (Finale Marked tb ta c)")
  have "rank e \<le> 3" using within_minute [of "Finale Marked tb ta c" ys c b] assms(2) by (simp add: e)
  then show ?thesis unfolding finales_move [OF assms(1)] e by (rule early_in_service [OF assms(1)])
qed

text \<open>The world in which the Bucket has been used and a user has deleted it.\<close>

definition used_and_deleted :: "bucket \<Rightarrow> turn list \<Rightarrow> sim \<Rightarrow> sim" where
  "used_and_deleted b ts w = after_delete b (fold (take_turn b) ts (after_create b w))"



end
