(* ===== verification/Deletion.thy ===== *)
theory Deletion imports BucketProperties AccountProperties begin

text \<open>
  Deletion makes progress: a run of a reconciler on an object under deletion that ends without
  an error has made the next step, whatever the other systems did. Together with the
  properties that say what must have happened before a finalizer is taken off, this is what
  deletion promises in both directions.
\<close>

section \<open>Steps of a deletion\<close>

text \<open>The answer to a call after which its object is as requested, or is not there.\<close>

definition settled :: "'w env \<Rightarrow> go_err option \<Rightarrow> bool" where
  "settled X e \<longleftrightarrow> e = None \<or> ignore_not_found X e = None"

definition bucket_closes :: "'w env \<Rightarrow> bucket \<Rightarrow> call list \<Rightarrow> bool" where
  "bucket_closes X b u \<longleftrightarrow>
     (if condition_true X (b_conditions b) BucketConditionDeleting
      then released X b u \<and> (\<exists>e q'. settled X e \<and> BucketCall (Update (b\<lparr>b_meta := (b_meta b)\<lparr>
             om_finalizers := remove_finalizer X (om_finalizers (b_meta b)) finalizer\<rparr>\<rparr>)) e q' \<in> set u)
      else (\<exists>q q'. BucketCall (StatusUpdate q) None q' \<in> set u
             \<and> b_meta q = b_meta b \<and> condition_true X (b_conditions q) BucketConditionDeleting))"

definition account_closes :: "'w env \<Rightarrow> account \<Rightarrow> call list \<Rightarrow> bool" where
  "account_closes X a u \<longleftrightarrow>
     (if condition_true X (a_conditions a) BucketSAConditionDeleting
      then user_gone X a u \<and> (\<exists>e q'. settled X e \<and> AccountCall (Update (a\<lparr>a_meta := (a_meta a)\<lparr>
             om_finalizers := remove_finalizer X (om_finalizers (a_meta a)) finalizer\<rparr>\<rparr>)) e q' \<in> set u)
      else (\<exists>q q'. AccountCall (StatusUpdate q) None q' \<in> set u
             \<and> a_meta q = a_meta a \<and> condition_true X (a_conditions q) BucketSAConditionDeleting))"

lemma bucket_deletion_step:
  assumes cp: "condition_promise X"
    and "\<And>t. released X b t \<Longrightarrow> condition_true X (b_conditions b) BucketConditionDeleting \<Longrightarrow> Q (proceed b) t"
    and "\<And>e b' t. (e = None \<Longrightarrow> bucket_closes X b t) \<Longrightarrow> Q (stop e b') t"
  shows "tr (bucket_reconcileDeletion X b) Q"
  unfolding bucket_reconcileDeletion_def
  by (intro tr_intros) (auto intro!: assms(2,3)
      simp: bucket_closes_def released_def provider_key_def b_with_status_def condition_simps [OF cp])

lemma bucket_branch_closes:
  assumes cp: "condition_promise X"
  shows "tr (bucket_delete_branch X b) (\<lambda>r u. \<forall>re. r = Returns (re, None) \<longrightarrow> bucket_closes X b u)"
  unfolding bucket_delete_branch_def
  apply (rule tr_bind, rule bucket_deletion_step [OF cp])
  subgoal by (simp, intro tr_intros) (auto simp: bucket_closes_def settled_def released_def)
  subgoal by (simp, intro tr_intros) auto
  done

lemma account_deletion_step:
  assumes cp: "condition_promise X"
    and "\<And>t. user_gone X a t \<Longrightarrow> condition_true X (a_conditions a) BucketSAConditionDeleting \<Longrightarrow> Q (proceed a) t"
    and "\<And>e a' t. (e = None \<Longrightarrow> account_closes X a t) \<Longrightarrow> Q (stop e a') t"
  shows "tr (account_reconcileDeletion X a) Q"
  unfolding account_reconcileDeletion_def account_provider_def [symmetric]
  apply (intro tr_intros)
  apply (auto intro!: assms(2,3) user_gone_removed simp: account_closes_def a_with_status_def condition_simps [OF cp])
  apply (auto simp: user_gone_def)
  done

lemma account_branch_closes:
  assumes cp: "condition_promise X"
  shows "tr (account_delete_branch X a) (\<lambda>r u. \<forall>re. r = Returns (re, None) \<longrightarrow> account_closes X a u)"
  unfolding account_delete_branch_def
  apply (rule tr_bind, rule account_deletion_step [OF cp])
  subgoal by (simp, intro tr_intros) (auto simp: account_closes_def settled_def user_gone_later)
  subgoal by (simp, intro tr_intros) auto
  done

lemma bucket_run_closes:
  assumes cp: "condition_promise X"
  shows "tr (bucket_Reconcile X req) (\<lambda>r t. \<forall>b u re. t = BucketCall (Get req) None b # u
     \<and> deleted b \<and> r = Returns (re, None) \<longrightarrow> bucket_closes X b u)"
proof (rule tr_bucket_Reconcile [OF cp])
  fix b assume "deleted b"
  show "tr (bucket_delete_branch X b) (\<lambda>r u. \<forall>b' u' re. BucketCall (Get req) None b # u = BucketCall (Get req) None b' # u'
      \<and> deleted b' \<and> r = Returns (re, None) \<longrightarrow> bucket_closes X b' u')"
    by (rule tr_mono [OF bucket_branch_closes [OF cp]]) simp
next
  fix b assume nd: "\<not> deleted b" and "prepared X b"
  then obtain n where "bs_secretName (b_spec b) = Some n" by (auto simp: prepared_def)
  from tr_mono [OF bucket_converge_calls [OF cp this]] nd show "tr (bucket_converge X b) (\<lambda>r u. \<forall>b' u' re. BucketCall (Get req) None b # u = BucketCall (Get req) None b' # u'
      \<and> deleted b' \<and> r = Returns (re, None) \<longrightarrow> bucket_closes X b' u')" by simp
qed auto

lemma account_run_closes:
  assumes cp: "condition_promise X"
  shows "tr (account_Reconcile X req) (\<lambda>r t. \<forall>a u re. t = AccountCall (Get req) None a # u
     \<and> account_deleted a \<and> r = Returns (re, None) \<longrightarrow> account_closes X a u)"
proof (rule tr_account_Reconcile)
  fix a assume "account_deleted a"
  show "tr (account_delete_branch X a) (\<lambda>r u. \<forall>a' u' re. AccountCall (Get req) None a # u = AccountCall (Get req) None a' # u'
      \<and> account_deleted a' \<and> r = Returns (re, None) \<longrightarrow> account_closes X a' u')"
    by (rule tr_mono [OF account_branch_closes [OF cp]]) simp
next
  fix b pre assume "current X req b pre"
  then show "tr (account_converge X b) (\<lambda>r u. \<forall>a' u' re. pre @ u = AccountCall (Get req) None a' # u'
      \<and> account_deleted a' \<and> r = Returns (re, None) \<longrightarrow> account_closes X a' u')"
    by (intro tr_mono [OF account_converge_calls [OF cp]]) (auto simp: current_def)
qed auto

section \<open>Properties\<close>

text \<open>
  C10. Deletion makes progress. A run that reads a Bucket under deletion and returns no error
  has announced the deletion, that is, stored a status with the Deleting condition true; or,
  when that was announced before, the MinIO side was settled in the run and the Bucket was
  written without the controller's finalizer, or is gone already. The same holds of accounts
  with their MinIO user. No failure of Kubernetes or MinIO on the way is dropped.
\<close>
theorem deletion_progresses:
  assumes "condition_promise X"
  shows "(\<forall>req s b u re. calls (bucket_Reconcile X req) s = BucketCall (Get req) None b # u \<and> deleted b
        \<and> result (bucket_Reconcile X req) s = Returns (re, None) \<longrightarrow> bucket_closes X b u)
     \<and> (\<forall>req s a u re. calls (account_Reconcile X req) s = AccountCall (Get req) None a # u \<and> account_deleted a
        \<and> result (account_Reconcile X req) s = Returns (re, None) \<longrightarrow> account_closes X a u)"
  using trD [OF bucket_run_closes [OF assms]] trD [OF account_run_closes [OF assms]] by blast

theorem deletion_progresses_witness:
  "bucket_closes ref_env dying_bucket (tl (calls (bucket_Reconcile ref_env data_key) (start (with_bucket dying_bucket [''data'']))))
   \<and> account_closes ref_env closed_account (tl (app_run ref_env closed_world))"
proof -
  have b: "calls (bucket_Reconcile ref_env data_key) (start (with_bucket dying_bucket [''data'']))
      = BucketCall (Get data_key) None dying_bucket
        # tl (calls (bucket_Reconcile ref_env data_key) (start (with_bucket dying_bucket [''data''])))"
    "\<exists>re. result (bucket_Reconcile ref_env data_key) (start (with_bucket dying_bucket [''data''])) = Returns (re, None)"
    "deleted dying_bucket"
    by (simp_all add: bucket_run_defs deleted_def)
  have a: "app_run ref_env closed_world = AccountCall (Get app_key) None closed_account # tl (app_run ref_env closed_world)"
    "\<exists>re. result (account_Reconcile ref_env app_key) (start closed_world) = Returns (re, None)"
    "account_deleted closed_account"
    by (simp_all add: account_run_defs account_deleted_def)
  show ?thesis using deletion_progresses [OF ref_condition_promise] b a by blast
qed

end
